(* ===== verification/Prelude.thy ===== *)
theory Prelude
  imports Main "HOL-Library.Word" "HOL-Library.Monad_Syntax" "HOL-Library.Code_Target_Nat"
begin

text \<open>
  Shared vocabulary of the development: Rust's \<open>Result\<close>, the byte type, slice copies with
  their bounds check, little-endian encodings, and the named collections of facts that the
  component proofs use.  Nothing here is specific to a component.
\<close>

unbundle bit_operations_syntax

named_theorems ok_iff \<open>what a successful result says about the computation that produced it\<close>
named_theorems frame \<open>facts an operation leaves unchanged\<close>

section \<open>Machine types\<close>

type_synonym u8 = "8 word"
type_synonym u16 = "16 word"
type_synonym u32 = "32 word"
type_synonym u64 = "64 word"
type_synonym usize = "64 word"
type_synonym bytes = "8 word list"

section \<open>Results\<close>

datatype ('a, 'e) result = Ok 'a | Err 'e

definition map_err :: "('e \<Rightarrow> 'f) \<Rightarrow> ('a, 'e) result \<Rightarrow> ('a, 'f) result" where
  "map_err f r = (case r of Ok x \<Rightarrow> Ok x | Err e \<Rightarrow> Err (f e))"

definition ok_or :: "'e \<Rightarrow> 'a option \<Rightarrow> ('a, 'e) result" where
  "ok_or e x = (case x of Some y \<Rightarrow> Ok y | None \<Rightarrow> Err e)"

definition is_ok :: "('a, 'e) result \<Rightarrow> bool" where
  "is_ok r = (case r of Ok _ \<Rightarrow> True | Err _ \<Rightarrow> False)"

lemma map_err_simps [simp]:
  "map_err f (Ok x) = Ok x" "map_err f (Err e) = Err (f e)"
  by (simp_all add: map_err_def)

lemma map_err_Ok_iff [simp, ok_iff]: "map_err f r = Ok x \<longleftrightarrow> r = Ok x"
  by (cases r) simp_all

lemma ok_or_simps [simp]: "ok_or e (Some x) = Ok x" "ok_or e None = Err e"
  by (simp_all add: ok_or_def)

lemma ok_or_Ok_iff [ok_iff]: "ok_or e x = Ok y \<longleftrightarrow> x = Some y"
  by (cases x) simp_all

lemma is_ok_simps [simp]: "is_ok (Ok x)" "\<not> is_ok (Err e)"
  by (simp_all add: is_ok_def)

lemma is_ok_iff: "is_ok r \<longleftrightarrow> (\<exists>x. r = Ok x)"
  by (cases r) simp_all

lemma not_is_ok_iff: "\<not> is_ok r \<longleftrightarrow> (\<exists>e. r = Err e)"
  by (cases r) simp_all

text \<open>Sequencing with \<open>?\<close>, and a loop whose body may return early with an error.\<close>

definition and_then :: "('a, 'e) result \<Rightarrow> ('a \<Rightarrow> ('b, 'e) result) \<Rightarrow> ('b, 'e) result" where
  "and_then r f = (case r of Ok x \<Rightarrow> f x | Err e \<Rightarrow> Err e)"

fun traverse :: "('a \<Rightarrow> ('b, 'e) result) \<Rightarrow> 'a list \<Rightarrow> ('b list, 'e) result" where
  "traverse f [] = Ok []"
| "traverse f (x # xs) = and_then (f x) (\<lambda>y. and_then (traverse f xs) (\<lambda>ys. Ok (y # ys)))"

lemma and_then_simps [simp]: "and_then (Ok x) f = f x" "and_then (Err e) f = Err e"
  by (simp_all add: and_then_def)

lemma and_then_Ok_iff [ok_iff]: "and_then r f = Ok y \<longleftrightarrow> (\<exists>x. r = Ok x \<and> f x = Ok y)"
  by (cases r) simp_all

lemma traverse_Ok_iff [ok_iff]:
  "traverse f xs = Ok ys \<longleftrightarrow> list_all2 (\<lambda>x y. f x = Ok y) xs ys"
  by (induction xs arbitrary: ys) (auto simp: and_then_Ok_iff list_all2_Cons1)

text \<open>The same for calls that change a state as well: \<open>?\<close> keeps the state reached so far.\<close>

definition st_ok :: "'a \<Rightarrow> 's \<Rightarrow> ('a, 'e) result \<times> 's" where
  "st_ok x s = (Ok x, s)"

definition st_fail :: "'e \<Rightarrow> 's \<Rightarrow> ('a, 'e) result \<times> 's" where
  "st_fail e s = (Err e, s)"

definition st_then ::
  "('s \<Rightarrow> ('a, 'e) result \<times> 's) \<Rightarrow> ('a \<Rightarrow> 's \<Rightarrow> ('b, 'e) result \<times> 's) \<Rightarrow> 's \<Rightarrow> ('b, 'e) result \<times> 's" where
  "st_then f g s = (case f s of (Ok x, s') \<Rightarrow> g x s' | (Err e, s') \<Rightarrow> (Err e, s'))"

fun st_traverse ::
  "('a \<Rightarrow> 's \<Rightarrow> ('b, 'e) result \<times> 's) \<Rightarrow> 'a list \<Rightarrow> 's \<Rightarrow> ('b list, 'e) result \<times> 's" where
  "st_traverse f [] s = (Ok [], s)"
| "st_traverse f (x # xs) s =
     st_then (f x) (\<lambda>y. st_then (st_traverse f xs) (\<lambda>ys. st_ok (y # ys))) s"

text \<open>A call keeps a property of the state, whether it succeeds or not.\<close>

definition keeps :: "('s \<Rightarrow> bool) \<Rightarrow> ('s \<Rightarrow> 'r \<times> 's) \<Rightarrow> bool" where
  "keeps P f \<longleftrightarrow> (\<forall>s. P s \<longrightarrow> P (snd (f s)))"

lemma st_ok_simps [simp]: "st_ok x s = (Ok x, s)" "st_fail e s = (Err e, s)"
  by (simp_all add: st_ok_def st_fail_def)

lemma st_then_Ok_iff [ok_iff]:
  "st_then f g s = (Ok y, s') \<longleftrightarrow> (\<exists>x s1. f s = (Ok x, s1) \<and> g x s1 = (Ok y, s'))"
  by (auto simp: st_then_def split: prod.split result.split)

lemma st_then_Err_iff:
  "st_then f g s = (Err e, s') \<longleftrightarrow>
     f s = (Err e, s') \<or> (\<exists>x s1. f s = (Ok x, s1) \<and> g x s1 = (Err e, s'))"
  by (auto simp: st_then_def split: prod.split result.split)

lemma st_then_simps [simp]:
  "f s = (Ok x, s1) \<Longrightarrow> st_then f g s = g x s1"
  "f s = (Err e, s1) \<Longrightarrow> st_then f g s = (Err e, s1)"
  by (simp_all add: st_then_def)

lemma keepsI: "(\<And>s. P s \<Longrightarrow> P (snd (f s))) \<Longrightarrow> keeps P f"
  by (simp add: keeps_def)

lemma keepsD: "keeps P f \<Longrightarrow> f s = (r, s') \<Longrightarrow> P s \<Longrightarrow> P s'"
  unfolding keeps_def by (metis snd_conv)

lemma keeps_ok [intro!]: "keeps P (st_ok x)" "keeps P (st_fail e)"
  by (simp_all add: keeps_def)

lemma keeps_then [intro!]: "keeps P f \<Longrightarrow> (\<And>x. keeps P (g x)) \<Longrightarrow> keeps P (st_then f g)"
  by (auto simp: keeps_def st_then_def split: prod.split result.split dest: spec)

lemma keeps_then_with:
  assumes "keeps P f" "\<And>s x s1. P s \<Longrightarrow> f s = (Ok x, s1) \<Longrightarrow> Q x" "\<And>x. Q x \<Longrightarrow> keeps P (g x)"
  shows "keeps P (st_then f g)"
proof (rule keepsI)
  fix s
  assume s: "P s"
  obtain r s1 where r: "f s = (r, s1)" by force
  then show "P (snd (st_then f g s))"
    using s assms keepsD [OF assms(1) r s] by (cases r) (auto simp: keeps_def)
qed

lemma keeps_traverse [intro!]:
  assumes "\<And>x. x \<in> set xs \<Longrightarrow> keeps P (f x)"
  shows "keeps P (st_traverse f xs)"
  using assms
proof (induction xs)
  case (Cons x xs)
  have "keeps P (st_then (f x) (\<lambda>y. st_then (st_traverse f xs) (\<lambda>ys. st_ok (y # ys))))"
    using Cons by auto
  then show ?case by (simp add: keeps_def)
qed (simp add: keeps_def)

section \<open>Byte slices\<close>

text \<open>
  \<open>slice[off .. off + src.len()].copy_from_slice(src)\<close>: Rust panics when the range leaves
  the slice; \<open>None\<close> is that panic.
\<close>

definition slice_copy :: "bytes \<Rightarrow> nat \<Rightarrow> bytes \<Rightarrow> bytes option" where
  "slice_copy m off src =
     (if off + length src \<le> length m
      then Some (take off m @ src @ drop (off + length src) m) else None)"

text \<open>\<open>slice[i] = b\<close> and \<open>slice[i]\<close>, panicking out of range.\<close>

definition slice_set :: "bytes \<Rightarrow> nat \<Rightarrow> u8 \<Rightarrow> bytes option" where
  "slice_set m i b = (if i < length m then Some (m[i := b]) else None)"

definition slice_get :: "bytes \<Rightarrow> nat \<Rightarrow> u8 option" where
  "slice_get m i = (if i < length m then Some (m ! i) else None)"

text \<open>The bytes \<open>m[off .. off + n]\<close>, for ranges inside \<open>m\<close>.\<close>

definition window :: "bytes \<Rightarrow> nat \<Rightarrow> nat \<Rightarrow> bytes" where
  "window m off n = take n (drop off m)"

lemma slice_copy_Some_iff:
  "slice_copy m off src = Some m' \<longleftrightarrow>
     off + length src \<le> length m \<and> m' = take off m @ src @ drop (off + length src) m"
  by (auto simp: slice_copy_def)

lemma slice_copy_length: "slice_copy m off src = Some m' \<Longrightarrow> length m' = length m"
  by (auto simp: slice_copy_Some_iff)

lemma slice_copy_nth:
  assumes "slice_copy m off src = Some m'" and "i < length m"
  shows "m' ! i = (if off \<le> i \<and> i < off + length src then src ! (i - off) else m ! i)"
  using assms by (auto simp: slice_copy_Some_iff nth_append)

lemma slice_copy_total: "off + length src \<le> length m \<Longrightarrow> \<exists>m'. slice_copy m off src = Some m'"
  by (simp add: slice_copy_def)

lemma slice_set_Some_iff: "slice_set m i b = Some m' \<longleftrightarrow> i < length m \<and> m' = m[i := b]"
  by (auto simp: slice_set_def)

lemma slice_set_length: "slice_set m i b = Some m' \<Longrightarrow> length m' = length m"
  by (auto simp: slice_set_Some_iff)

lemma length_window [simp]: "length (window m off n) = min n (length m - off)"
  by (simp add: window_def)

text \<open>A part of a window.\<close>

lemma window_sub:
  assumes "window m' a k = window m a k" "a \<le> off" "off + n \<le> a + k"
  shows "window m' off n = window m off n"
proof -
  have "window x off n = take n (drop (off - a) (window x a k))" for x
    using assms(2,3) by (simp add: window_def drop_take min_def)
  then show ?thesis using assms(1) by simp
qed

lemma window_eqI:
  assumes "off + n \<le> length m" and "length bs = n"
    and "\<And>i. i < n \<Longrightarrow> m ! (off + i) = bs ! i"
  shows "window m off n = bs"
  using assms by (intro nth_equalityI) (simp_all add: window_def)

lemma window_cong:
  assumes "length m' = length m"
    and "\<And>i. off \<le> i \<Longrightarrow> i < off + n \<Longrightarrow> i < length m \<Longrightarrow> m' ! i = m ! i"
  shows "window m' off n = window m off n"
proof (rule nth_equalityI)
  show "length (window m' off n) = length (window m off n)" using assms(1) by simp
  show "window m' off n ! i = window m off n ! i" if "i < length (window m' off n)" for i
  proof -
    have "off \<le> length m" "i < n" "off + i < length m" using that assms(1) by auto
    then show ?thesis using assms by (simp add: window_def)
  qed
qed

lemma window_slice_copy_hit:
  "slice_copy m off src = Some m' \<Longrightarrow> window m' off (length src) = src"
  by (auto simp: slice_copy_Some_iff window_def)

lemma window_slice_copy_miss:
  assumes "slice_copy m off src = Some m'"
    and "off' + n \<le> off \<or> off + length src \<le> off'"
  shows "window m' off' n = window m off' n"
proof (rule window_cong)
  show "length m' = length m" using assms(1) by (rule slice_copy_length)
  show "m' ! i = m ! i" if "off' \<le> i" "i < off' + n" "i < length m" for i
    using slice_copy_nth [OF assms(1) that(3)] that assms(2) by auto
qed

lemma window_slice_set_miss:
  assumes "slice_set m i b = Some m'" and "off' + n \<le> i \<or> i < off'"
  shows "window m' off' n = window m off' n"
  using assms by (intro window_cong) (auto simp: slice_set_Some_iff)

text \<open>
  The memory after an in-range copy, and how reads see through it.  A chain of copies is
  rewritten to nested \<open>overlay\<close>s, and a window of the result to the window of the copy that hit
  it, all by the simplifier.
\<close>

definition overlay :: "bytes \<Rightarrow> nat \<Rightarrow> bytes \<Rightarrow> bytes" where
  "overlay m off src = take off m @ src @ drop (off + length src) m"

lemma slice_copy_overlay:
  "slice_copy m off src =
     (if off + length src \<le> length m then Some (overlay m off src) else None)"
  by (simp add: slice_copy_def overlay_def)

lemma slice_set_overlay:
  "slice_set m i b = (if i < length m then Some (overlay m i [b]) else None)"
  by (simp add: slice_set_def overlay_def upd_conv_take_nth_drop)

lemma length_overlay [simp]: "off + length src \<le> length m \<Longrightarrow> length (overlay m off src) = length m"
  by (simp add: overlay_def)

lemma overlay_nth:
  assumes "off + length src \<le> length m" "i < length m"
  shows "overlay m off src ! i = (if off \<le> i \<and> i < off + length src then src ! (i - off) else m ! i)"
  using assms by (intro slice_copy_nth) (simp_all add: slice_copy_overlay)

lemma window_overlay_hit:
  "off + length src \<le> length m \<Longrightarrow> n = length src \<Longrightarrow> window (overlay m off src) off n = src"
  by (auto simp: overlay_def window_def)

lemma window_overlay_sub:
  assumes "off + length a + length b + length c \<le> length m"
  shows "window (overlay m off (a @ b @ c)) (off + length a) (length b) = b"
  using assms by (intro window_eqI) (auto simp: overlay_nth nth_append)

lemma window_overlay_miss:
  assumes "off + length src \<le> length m" "off' + n \<le> off \<or> off + length src \<le> off'"
  shows "window (overlay m off src) off' n = window m off' n"
  using assms by (intro window_slice_copy_miss [of m off src]) (auto simp: slice_copy_overlay)

lemma nth_overlay_miss:
  "off + length src \<le> length m \<Longrightarrow> i < length m \<Longrightarrow> i < off \<or> off + length src \<le> i
     \<Longrightarrow> overlay m off src ! i = m ! i"
  by (auto simp: overlay_nth)

text \<open>A run of zero bytes, kept folded so that its length does not matter to the simplifier.\<close>

definition zeros :: "nat \<Rightarrow> bytes" where
  "zeros n = replicate n 0"

lemma length_zeros [simp]: "length (zeros n) = n"
  by (simp add: zeros_def)

lemma nth_zeros [simp]: "i < n \<Longrightarrow> zeros n ! i = 0"
  by (simp add: zeros_def)

lemma window_overlay_zeros:
  "off \<le> off' \<Longrightarrow> off' + n \<le> off + k \<Longrightarrow> off + k \<le> length m
     \<Longrightarrow> window (overlay m off (zeros k)) off' n = zeros n"
  by (intro window_eqI) (auto simp: overlay_nth)

lemmas overlay_simps = window_overlay_hit window_overlay_miss nth_overlay_miss

section \<open>Little-endian encodings\<close>

text \<open>\<open>to_le_bytes\<close> and \<open>from_le_bytes\<close> for the widths the source uses.\<close>

definition u16_to_le :: "u16 \<Rightarrow> bytes" where
  "u16_to_le w = map (\<lambda>i. ucast (drop_bit (8 * i) w)) [0..<2]"

definition u32_to_le :: "u32 \<Rightarrow> bytes" where
  "u32_to_le w = map (\<lambda>i. ucast (drop_bit (8 * i) w)) [0..<4]"

definition u64_to_le :: "u64 \<Rightarrow> bytes" where
  "u64_to_le w = map (\<lambda>i. ucast (drop_bit (8 * i) w)) [0..<8]"

fun le_to_word :: "bytes \<Rightarrow> 'a::len word" where
  "le_to_word [] = 0"
| "le_to_word (b # bs) = ucast b OR push_bit 8 (le_to_word bs)"

lemma length_to_le [simp]:
  "length (u16_to_le a) = 2" "length (u32_to_le b) = 4" "length (u64_to_le c) = 8"
  by (simp_all add: u16_to_le_def u32_to_le_def u64_to_le_def)

lemma le_to_word_zeros [simp]: "le_to_word (zeros n) = 0"
  by (induction n) (simp_all add: zeros_def)

lemma bit_le_to_word:
  "bit (le_to_word bs :: 'a::len word) n \<longleftrightarrow>
     n < LENGTH('a) \<and> n div 8 < length bs \<and> bit (bs ! (n div 8)) (n mod 8)"
proof (induction bs arbitrary: n)
  case Nil
  then show ?case by simp
next
  case (Cons b bs)
  show ?case
  proof (cases "n < 8")
    case True
    then show ?thesis
      by (auto simp: bit_or_iff bit_push_bit_iff bit_ucast_iff not_le)
  next
    case False
    then obtain k where n: "n = 8 + k" by (metis le_Suc_ex not_less)
    have "\<not> bit b n" using False by (auto dest: bit_imp_le_length)
    moreover have "n div 8 = Suc (k div 8)" "n mod 8 = k mod 8" by (simp_all add: n)
    ultimately show ?thesis
      using n by (auto simp: bit_or_iff bit_push_bit_iff bit_ucast_iff Cons.IH)
  qed
qed

lemma le_roundtrip_aux:
  fixes w :: "'a::len word"
  assumes "LENGTH('a) = 8 * k"
  shows "le_to_word (map (\<lambda>i. ucast (drop_bit (8 * i) w) :: u8) [0..<k]) = w"
proof (rule bit_word_eqI)
  fix n
  assume n: "n < LENGTH('a)"
  then have k: "n div 8 < k" using assms by simp
  then show "bit (le_to_word (map (\<lambda>i. ucast (drop_bit (8 * i) w) :: u8) [0..<k]) :: 'a word) n = bit w n"
    using n by (simp add: bit_le_to_word bit_ucast_iff bit_drop_bit_eq)
qed

lemma u16_le_roundtrip [simp]: "le_to_word (u16_to_le w) = w"
  unfolding u16_to_le_def by (rule le_roundtrip_aux) simp

lemma u32_le_roundtrip [simp]: "le_to_word (u32_to_le w) = w"
  unfolding u32_to_le_def by (rule le_roundtrip_aux) simp

lemma u64_le_roundtrip [simp]: "le_to_word (u64_to_le w) = w"
  unfolding u64_to_le_def by (rule le_roundtrip_aux) simp

end
