(* ===== verification/Rust_Str.thy ===== *)
theory Rust_Str
  imports Prelude "HOL-Library.Sublist"
begin

text \<open>
  The part of Rust's \<open>str\<close> and \<open>char\<close> API that the program uses.  A \<open>string\<close> stands
  for a \<open>String\<close>: the list of its UTF-8 bytes, so that \<open>length\<close> is \<open>len()\<close>.
  Functions that work on Unicode scalar values (\<open>chars\<close>, \<open>split_whitespace\<close>,
  \<open>trim\<close>) find the boundaries of the encoding.
\<close>

section \<open>Characters\<close>

abbreviation code :: "char \<Rightarrow> nat" where "code c \<equiv> of_char c"

definition is_ascii_digit :: "char \<Rightarrow> bool" where
  "is_ascii_digit c \<longleftrightarrow> 48 \<le> code c \<and> code c \<le> 57"

definition is_ascii_alphabetic :: "char \<Rightarrow> bool" where
  "is_ascii_alphabetic c \<longleftrightarrow>
     65 \<le> code c \<and> code c \<le> 90 \<or> 97 \<le> code c \<and> code c \<le> 122"

definition is_ascii_alphanumeric :: "char \<Rightarrow> bool" where
  "is_ascii_alphanumeric c \<longleftrightarrow> is_ascii_alphabetic c \<or> is_ascii_digit c"

definition is_ascii_hexdigit :: "char \<Rightarrow> bool" where
  "is_ascii_hexdigit c \<longleftrightarrow>
     is_ascii_digit c \<or> 65 \<le> code c \<and> code c \<le> 70 \<or> 97 \<le> code c \<and> code c \<le> 102"

definition to_ascii_lowercase_char :: "char \<Rightarrow> char" where
  "to_ascii_lowercase_char c =
     (if 65 \<le> code c \<and> code c \<le> 90 then char_of (code c + 32) else c)"

abbreviation squote :: string where "squote \<equiv> [CHR 0x27]"
abbreviation dquote :: string where "dquote \<equiv> [CHR 0x22]"
abbreviation newline :: string where "newline \<equiv> [CHR 0x0A]"

section \<open>Searching and splitting\<close>

fun strip_prefix :: "string \<Rightarrow> string \<Rightarrow> string option" where
  "strip_prefix [] s = Some s"
| "strip_prefix (p # ps) [] = None"
| "strip_prefix (p # ps) (c # s) = (if p = c then strip_prefix ps s else None)"

definition starts_with :: "string \<Rightarrow> string \<Rightarrow> bool" where
  "starts_with p s \<longleftrightarrow> strip_prefix p s \<noteq> None"

definition ends_with :: "string \<Rightarrow> string \<Rightarrow> bool" where
  "ends_with p s \<longleftrightarrow> starts_with (rev p) (rev s)"

fun str_find :: "string \<Rightarrow> string \<Rightarrow> nat option" where
  "str_find p [] = (if p = [] then Some 0 else None)"
| "str_find p (c # s) =
     (if starts_with p (c # s) then Some 0 else map_option Suc (str_find p s))"

definition str_contains :: "string \<Rightarrow> string \<Rightarrow> bool" where
  "str_contains p s \<longleftrightarrow> str_find p s \<noteq> None"

text \<open>\<open>s.split_once(c)\<close>, \<open>s.rsplit_once(c)\<close> and \<open>s.split(c)\<close> for a character \<open>c\<close>.\<close>

fun split_once :: "char \<Rightarrow> string \<Rightarrow> (string \<times> string) option" where
  "split_once x [] = None"
| "split_once x (c # s) =
     (if c = x then Some ([], s) else map_option (\<lambda>(a, b). (c # a, b)) (split_once x s))"

definition rsplit_once :: "char \<Rightarrow> string \<Rightarrow> (string \<times> string) option" where
  "rsplit_once x s = map_option (\<lambda>(a, b). (rev b, rev a)) (split_once x (rev s))"

text \<open>\<open>s.rfind(p)\<close> and \<open>s.rsplit_once(p)\<close> for a non-empty string \<open>p\<close>.\<close>

fun str_rfind :: "string \<Rightarrow> string \<Rightarrow> nat option" where
  "str_rfind p [] = None"
| "str_rfind p (c # s) =
     (case str_rfind p s of Some i \<Rightarrow> Some (Suc i)
      | None \<Rightarrow> if starts_with p (c # s) then Some 0 else None)"

definition rsplit_once_str :: "string \<Rightarrow> string \<Rightarrow> (string \<times> string) option" where
  "rsplit_once_str p s = map_option (\<lambda>i. (take i s, drop (i + length p) s)) (str_rfind p s)"

fun str_split :: "char \<Rightarrow> string \<Rightarrow> string list" where
  "str_split x [] = [[]]"
| "str_split x (c # s) =
     (if c = x then [] # str_split x s
      else (case str_split x s of [] \<Rightarrow> [[c]] | w # ws \<Rightarrow> (c # w) # ws))"

text \<open>\<open>s.replace(p, r)\<close> for a non-empty pattern: leftmost matches, no overlap.\<close>

function str_replace :: "string \<Rightarrow> string \<Rightarrow> string \<Rightarrow> string" where
  "str_replace p r s =
     (case s of [] \<Rightarrow> []
      | c # cs \<Rightarrow>
          (if p \<noteq> [] \<and> starts_with p s then r @ str_replace p r (drop (length p) s)
           else c # str_replace p r cs))"
  by pat_completeness auto
termination
  by (relation "measure (\<lambda>(p, r, s). length s)") auto

declare str_replace.simps [simp del]

fun str_join :: "string \<Rightarrow> string list \<Rightarrow> string" where
  "str_join sep [] = []"
| "str_join sep [x] = x"
| "str_join sep (x # y # ys) = x @ sep @ str_join sep (y # ys)"

text \<open>\<open>s.lines()\<close>: split at line feeds, a final empty line dropped, a trailing carriage
  return of each line dropped.\<close>

definition strip_cr :: "string \<Rightarrow> string" where
  "strip_cr l = (if l \<noteq> [] \<and> last l = CHR 0x0D then butlast l else l)"

definition str_lines :: "string \<Rightarrow> string list" where
  "str_lines s =
     (let ls = str_split (CHR 0x0A) s;
          complete = butlast ls; final = last ls
      in map strip_cr complete @ (if final = [] then [] else [final]))"

section \<open>White space\<close>

text \<open>
  The length in bytes of the white-space character (Unicode \<open>White_Space\<close>) at the head of a
  string, 0 when its head is no white space.  No continuation byte starts such a character,
  so scanning byte by byte visits the same matches as scanning by characters.
\<close>

definition ws_len :: "string \<Rightarrow> nat" where
  "ws_len s =
     (case s of [] \<Rightarrow> 0
      | a # t \<Rightarrow>
        if code a = 32 \<or> 9 \<le> code a \<and> code a \<le> 13 then 1
        else (case t of [] \<Rightarrow> 0
          | b # t' \<Rightarrow>
            if code a = 0xC2 \<and> (code b = 0x85 \<or> code b = 0xA0) then 2
            else (case t' of [] \<Rightarrow> 0
              | c # _ \<Rightarrow>
                if code a = 0xE1 \<and> code b = 0x9A \<and> code c = 0x80
                   \<or> code a = 0xE2 \<and> code b = 0x80 \<and>
                      (0x80 \<le> code c \<and> code c \<le> 0x8A \<or>
                       code c = 0xA8 \<or> code c = 0xA9 \<or> code c = 0xAF)
                   \<or> code a = 0xE2 \<and> code b = 0x81 \<and> code c = 0x9F
                   \<or> code a = 0xE3 \<and> code b = 0x80 \<and> code c = 0x80
                then 3 else 0)))"

lemma ws_len_le: "ws_len s \<le> length s"
  by (auto simp: ws_len_def split: list.splits)

lemma ws_len_Nil [simp]: "ws_len [] = 0"
  by (simp add: ws_len_def)

lemma drop_ws_len_less: "0 < ws_len s \<Longrightarrow> length s - ws_len s < length s"
  by (cases s) auto

function split_ws_acc :: "string \<Rightarrow> string \<Rightarrow> string list" where
  "split_ws_acc acc s =
     (if s = [] then (if acc = [] then [] else [acc])
      else if ws_len s > 0
        then (if acc = [] then [] else [acc]) @ split_ws_acc [] (drop (ws_len s) s)
      else split_ws_acc (acc @ [hd s]) (tl s))"
  by pat_completeness auto
termination
  by (relation "measure (\<lambda>(acc, s). length s)") auto

declare split_ws_acc.simps [simp del]

definition split_whitespace :: "string \<Rightarrow> string list" where
  "split_whitespace s = split_ws_acc [] s"

function trim_start :: "string \<Rightarrow> string" where
  "trim_start s = (if ws_len s > 0 then trim_start (drop (ws_len s) s) else s)"
  by pat_completeness auto
termination
  by (relation "measure length") (auto simp: drop_ws_len_less)

declare trim_start.simps [simp del]

fun trim_end :: "string \<Rightarrow> string" where
  "trim_end [] = []"
| "trim_end (c # s) = (if trim_start (c # s) = [] then [] else c # trim_end s)"

definition str_trim :: "string \<Rightarrow> string" where
  "str_trim s = trim_end (trim_start s)"

text \<open>\<open>s.find(char::is_whitespace)\<close>\<close>

fun find_whitespace :: "string \<Rightarrow> nat option" where
  "find_whitespace [] = None"
| "find_whitespace (c # s) =
     (if ws_len (c # s) > 0 then Some 0 else map_option Suc (find_whitespace s))"

text \<open>\<open>trim_start_matches(c)\<close> and \<open>trim_matches(c)\<close> for one character, and
  \<open>trim_start_matches(p)\<close> for a string.\<close>

definition trim_start_char :: "char \<Rightarrow> string \<Rightarrow> string" where
  "trim_start_char x s = dropWhile (\<lambda>c. c = x) s"

definition trim_char :: "char \<Rightarrow> string \<Rightarrow> string" where
  "trim_char x s = rev (trim_start_char x (rev (trim_start_char x s)))"

function trim_start_str :: "string \<Rightarrow> string \<Rightarrow> string" where
  "trim_start_str p s =
     (if p \<noteq> [] \<and> starts_with p s then trim_start_str p (drop (length p) s) else s)"
  by pat_completeness auto
termination
  by (relation "measure (\<lambda>(p, s). length s)")
    (auto simp: starts_with_def neq_Nil_conv, case_tac s, auto)

declare trim_start_str.simps [simp del]

section \<open>Numbers\<close>

text \<open>Decimal \<open>Display\<close> of an unsigned integer, \<open>{:x}\<close> and \<open>{:02x}\<close>.\<close>

definition digit_char :: "nat \<Rightarrow> char" where
  "digit_char d = char_of (if d < 10 then 48 + d else 87 + d)"

fun nat_to_str_base :: "nat \<Rightarrow> nat \<Rightarrow> string" where
  "nat_to_str_base b n =
     (if b < 2 \<or> n < b then [digit_char n]
      else nat_to_str_base b (n div b) @ [digit_char (n mod b)])"

declare nat_to_str_base.simps [simp del]

definition nat_to_str :: "nat \<Rightarrow> string" where
  "nat_to_str n = nat_to_str_base 10 n"

definition nat_to_hex :: "nat \<Rightarrow> string" where
  "nat_to_hex n = nat_to_str_base 16 n"

definition byte_hex2 :: "u8 \<Rightarrow> string" where
  "byte_hex2 b = [digit_char (unat b div 16), digit_char (unat b mod 16)]"

text \<open>\<open>{:x}\<close> of a digest: two lower-case digits per byte.\<close>

definition bytes_hex :: "bytes \<Rightarrow> string" where
  "bytes_hex bs = concat (map byte_hex2 bs)"

text \<open>\<open>s.parse::<uN>()\<close>: an optional plus sign, at least one digit, no overflow.\<close>

fun parse_digits :: "nat \<Rightarrow> string \<Rightarrow> nat option" where
  "parse_digits acc [] = Some acc"
| "parse_digits acc (c # s) =
     (if is_ascii_digit c then parse_digits (10 * acc + (code c - 48)) s else None)"

definition parse_unsigned :: "nat \<Rightarrow> string \<Rightarrow> nat option" where
  "parse_unsigned bound s =
     (let d = (if starts_with ''+'' s then tl s else s)
      in if d = [] then None
         else (case parse_digits 0 d of None \<Rightarrow> None
               | Some n \<Rightarrow> if n < bound then Some n else None))"

abbreviation parse_u8 :: "string \<Rightarrow> nat option" where "parse_u8 \<equiv> parse_unsigned 256"
abbreviation parse_u16 :: "string \<Rightarrow> nat option" where "parse_u16 \<equiv> parse_unsigned 65536"
abbreviation parse_u64 :: "string \<Rightarrow> nat option" where
  "parse_u64 \<equiv> parse_unsigned 18446744073709551616"

definition to_ascii_lowercase :: "string \<Rightarrow> string" where
  "to_ascii_lowercase s = map to_ascii_lowercase_char s"

section \<open>UTF-8\<close>

text \<open>Bytes of a string and back (\<open>as_bytes\<close>; the bytes of a literal).\<close>

definition as_bytes :: "string \<Rightarrow> bytes" where
  "as_bytes s = map (\<lambda>c. word_of_nat (code c)) s"

definition of_bytes :: "bytes \<Rightarrow> string" where
  "of_bytes bs = map (\<lambda>b. char_of (unat b)) bs"

text \<open>The scalar values of a well-formed string, each as its bytes: every byte that is not a
  continuation byte starts one.\<close>

definition is_continuation :: "char \<Rightarrow> bool" where
  "is_continuation c \<longleftrightarrow> 128 \<le> code c \<and> code c < 192"

function str_chars :: "string \<Rightarrow> string list" where
  "str_chars s =
     (case s of [] \<Rightarrow> []
      | c # cs \<Rightarrow> (c # takeWhile is_continuation cs) # str_chars (dropWhile is_continuation cs))"
  by pat_completeness auto
termination
  by (relation "measure length") (auto simp: le_imp_less_Suc length_dropWhile_le)

declare str_chars.simps [simp del]

text \<open>
  \<open>String::from_utf8_lossy\<close>: the decoder of the standard library.  \<open>utf8_next bs\<close> gives
  the number of bytes it consumes at the head of \<open>bs\<close> and whether they are a scalar value;
  an ill-formed sequence is replaced by U+FFFD.
\<close>

definition in_range :: "nat \<Rightarrow> nat \<Rightarrow> bytes \<Rightarrow> nat \<Rightarrow> bool" where
  "in_range lo hi bs i \<longleftrightarrow> i < length bs \<and> lo \<le> unat (bs ! i) \<and> unat (bs ! i) \<le> hi"

definition utf8_next :: "bytes \<Rightarrow> nat \<times> bool" where
  "utf8_next bs =
     (case bs of [] \<Rightarrow> (0, False)
      | b # _ \<Rightarrow>
        let n = unat b; cont = in_range 0x80 0xBF bs in
        if n < 128 then (1, True)
        else if 0xC2 \<le> n \<and> n \<le> 0xDF then (if cont 1 then (2, True) else (1, False))
        else if 0xE0 \<le> n \<and> n \<le> 0xEF then
          (if n = 0xE0 \<and> \<not> in_range 0xA0 0xBF bs 1 \<or> n = 0xED \<and> \<not> in_range 0x80 0x9F bs 1
              \<or> \<not> cont 1 then (1, False)
           else if cont 2 then (3, True) else (2, False))
        else if 0xF0 \<le> n \<and> n \<le> 0xF4 then
          (if n = 0xF0 \<and> \<not> in_range 0x90 0xBF bs 1 \<or> n = 0xF4 \<and> \<not> in_range 0x80 0x8F bs 1
              \<or> \<not> cont 1 then (1, False)
           else if \<not> cont 2 then (2, False)
           else if cont 3 then (4, True) else (3, False))
        else (1, False))"

definition replacement_char :: string where
  "replacement_char = map char_of [0xEF, 0xBF, 0xBD :: nat]"

lemma utf8_next_pos: "bs \<noteq> [] \<Longrightarrow> 0 < fst (utf8_next bs)"
  by (cases bs) (simp_all add: utf8_next_def Let_def)

function from_utf8_lossy :: "bytes \<Rightarrow> string" where
  "from_utf8_lossy bs =
     (if bs = [] then []
      else (let (n, ok) = utf8_next bs
            in (if ok then of_bytes (take n bs) else replacement_char)
               @ from_utf8_lossy (drop n bs)))"
  by pat_completeness auto
termination
proof (relation "measure length")
  show "wf (measure length :: (bytes \<times> bytes) set)" by simp
next
  fix bs :: bytes and x n ok
  assume bs: "bs \<noteq> []" and x: "x = utf8_next bs" "(n, ok) = x"
  have "0 < n" using utf8_next_pos [OF bs] x by (metis fst_conv)
  then show "(drop n bs, bs) \<in> measure length" using bs by simp
qed

declare from_utf8_lossy.simps [simp del]

text \<open>\<open>String::from_utf8\<close>, as \<open>read_to_string\<close> uses it: the bytes must be UTF-8.\<close>

function from_utf8 :: "bytes \<Rightarrow> string option" where
  "from_utf8 bs =
     (if bs = [] then Some []
      else (let (n, ok) = utf8_next bs
            in if ok then map_option (\<lambda>s. of_bytes (take n bs) @ s) (from_utf8 (drop n bs))
               else None))"
  by pat_completeness auto
termination
proof (relation "measure length")
  show "wf (measure length :: (bytes \<times> bytes) set)" by simp
next
  fix bs :: bytes and x n ok
  assume bs: "bs \<noteq> []" and x: "x = utf8_next bs" "(n, ok) = x"
  have "0 < n" using utf8_next_pos [OF bs] x by (metis fst_conv)
  then show "(drop n bs, bs) \<in> measure length" using bs by simp
qed

declare from_utf8.simps [simp del]

lemma from_utf8_lossy_valid: "from_utf8 bs = Some s \<Longrightarrow> from_utf8_lossy bs = s"
proof (induction bs arbitrary: s rule: from_utf8.induct)
  case (1 bs)
  show ?case
  proof (cases "bs = []")
    case True
    then show ?thesis using "1.prems" by (simp add: from_utf8.simps from_utf8_lossy.simps)
  next
    case False
    obtain n ok where n: "utf8_next bs = (n, ok)" by fastforce
    then have ok using "1.prems" False by (auto simp: from_utf8.simps [of bs] split: if_splits)
    then obtain t where "from_utf8 (drop n bs) = Some t" "s = of_bytes (take n bs) @ t"
      using "1.prems" False n by (auto simp: from_utf8.simps [of bs])
    then show ?thesis
      using "1.IH" [OF False n [symmetric] refl \<open>ok\<close>] False n \<open>ok\<close>
      by (simp add: from_utf8_lossy.simps [of bs])
  qed
qed

section \<open>Facts about searching\<close>

lemma strip_prefix_Some_iff: "strip_prefix p s = Some t \<longleftrightarrow> s = p @ t"
  by (induction p s rule: strip_prefix.induct) auto

lemma starts_with_iff: "starts_with p s \<longleftrightarrow> prefix p s"
  by (metis not_None_eq prefix_def starts_with_def strip_prefix_Some_iff)

lemma str_find_unfold:
  "str_find p s = (if prefix p s then Some 0
     else case s of [] \<Rightarrow> None | c # t \<Rightarrow> map_option Suc (str_find p t))"
  by (cases s) (auto simp: starts_with_iff)

lemma str_find_drop:
  assumes "\<And>j. j < k \<Longrightarrow> \<not> prefix p (drop j s)" and "k \<le> length s"
  shows "str_find p s = map_option ((+) k) (str_find p (drop k s))"
  using assms
proof (induction k arbitrary: s)
  case 0
  then show ?case by (simp add: option.map_ident)
next
  case (Suc k)
  then obtain c t where s: "s = c # t" by (cases s) auto
  have "\<not> prefix p s" using Suc.prems(1) [of 0] by simp
  moreover have "str_find p t = map_option ((+) k) (str_find p (drop k t))"
    using Suc.prems s by (intro Suc.IH) force+
  ultimately show ?case by (simp add: s starts_with_iff option.map_comp o_def)
qed

lemma str_find_append_eq:
  assumes "\<And>j. j < length a \<Longrightarrow> \<not> prefix p (drop j (a @ p @ b))"
  shows "str_find p (a @ p @ b) = Some (length a)"
  using str_find_drop [of "length a" p "a @ p @ b"] assms
  by (simp add: str_find_unfold [of p "p @ b"])

lemma str_find_None_iff: "str_find p s = None \<longleftrightarrow> (\<forall>j \<le> length s. \<not> prefix p (drop j s))"
proof (induction s)
  case Nil
  then show ?case by (auto simp: str_find_unfold)
next
  case (Cons c t)
  have "(\<forall>j \<le> length (c # t). \<not> prefix p (drop j (c # t))) \<longleftrightarrow>
      \<not> prefix p (c # t) \<and> (\<forall>j \<le> length t. \<not> prefix p (drop j t))"
    by (auto simp: All_less_Suc2 less_Suc_eq_le [symmetric])
  then show ?case using Cons.IH by (subst str_find_unfold) auto
qed

lemma str_contains_iff: "str_contains p s \<longleftrightarrow> (\<exists>a b. s = a @ p @ b)"
proof
  assume "str_contains p s"
  then obtain j where "prefix p (drop j s)"
    using str_find_None_iff [of p s] by (auto simp: str_contains_def)
  then show "\<exists>a b. s = a @ p @ b" by (metis append_take_drop_id prefix_def)
next
  assume "\<exists>a b. s = a @ p @ b"
  then obtain a b where s: "s = a @ p @ b" by blast
  then have "prefix p (drop (length a) s)" "length a \<le> length s" by simp_all
  then show "str_contains p s" by (auto simp: str_contains_def str_find_None_iff)
qed

section \<open>ASCII text\<close>

definition ascii_bytes :: "bytes \<Rightarrow> bool" where
  "ascii_bytes bs \<longleftrightarrow> list_all (\<lambda>b. unat b < 128) bs"

definition ascii_str :: "string \<Rightarrow> bool" where
  "ascii_str s \<longleftrightarrow> list_all (\<lambda>c. code c < 128) s"

lemma ascii_of_bytes: "ascii_bytes bs \<Longrightarrow> ascii_str (of_bytes bs)"
  by (induction bs) (simp_all add: ascii_bytes_def ascii_str_def of_bytes_def)

lemma of_bytes_append [simp]: "of_bytes (a @ b) = of_bytes a @ of_bytes b"
  by (simp add: of_bytes_def)

lemma of_bytes_Nil_iff [simp]: "of_bytes b = [] \<longleftrightarrow> b = []"
  by (simp add: of_bytes_def)

lemma length_of_bytes [simp]: "length (of_bytes b) = length b"
  by (simp add: of_bytes_def)

lemma unat_code [simp]: "unat (word_of_nat (code c) :: u8) = code c"
  by (simp add: unat_of_nat)

lemma length_as_bytes [simp]: "length (as_bytes s) = length s"
  by (simp add: as_bytes_def)

lemma of_bytes_as_bytes [simp]: "of_bytes (as_bytes s) = s"
  by (induction s) (simp_all add: of_bytes_def as_bytes_def)

lemma from_utf8_lossy_ascii: "ascii_bytes bs \<Longrightarrow> from_utf8_lossy bs = of_bytes bs"
proof (induction bs)
  case (Cons b bs)
  then have "utf8_next (b # bs) = (1, True)" by (simp add: utf8_next_def ascii_bytes_def)
  then show ?case
    using Cons by (subst from_utf8_lossy.simps) (simp add: of_bytes_def ascii_bytes_def)
qed (simp add: from_utf8_lossy.simps of_bytes_def)

lemma str_chars_ascii: "ascii_str s \<Longrightarrow> str_chars s = map (\<lambda>c. [c]) s"
proof (induction s)
  case (Cons c s)
  then have "takeWhile is_continuation s = []" "dropWhile is_continuation s = s"
    by (cases s; simp add: ascii_str_def is_continuation_def)+
  then show ?case using Cons by (subst str_chars.simps) (simp add: ascii_str_def)
qed (simp add: str_chars.simps)

text \<open>On ASCII text white space is one byte long.\<close>

definition ascii_ws :: "char \<Rightarrow> bool" where
  "ascii_ws c \<longleftrightarrow> code c = 32 \<or> 9 \<le> code c \<and> code c \<le> 13"

lemma ws_len_ascii: "code c < 128 \<Longrightarrow> ws_len (c # s) = (if ascii_ws c then 1 else 0)"
  by (auto simp: ws_len_def ascii_ws_def split: list.splits)

lemma split_ws_acc_token:
  assumes "\<And>c. c \<in> set t \<Longrightarrow> code c < 128 \<and> \<not> ascii_ws c"
  shows "split_ws_acc acc (t @ s) = split_ws_acc (acc @ t) s"
  using assms
proof (induction t arbitrary: acc)
  case (Cons c t)
  then show ?case
    by (subst split_ws_acc.simps) (simp add: ws_len_ascii)
qed simp

lemma split_ws_acc_ws:
  assumes "code c < 128" "ascii_ws c"
  shows "split_ws_acc acc (c # s) = (if acc = [] then [] else [acc]) @ split_ws_acc [] s"
  using assms by (subst split_ws_acc.simps) (simp add: ws_len_ascii)

lemma split_ws_acc_skip:
  assumes "\<And>c. c \<in> set w \<Longrightarrow> code c < 128 \<and> ascii_ws c"
  shows "split_ws_acc [] (w @ s) = split_ws_acc [] s"
  using assms by (induction w) (simp_all add: split_ws_acc_ws)

text \<open>The first word of a text that starts with white space and a token.\<close>

lemma split_whitespace_first:
  assumes "\<And>c. c \<in> set w \<Longrightarrow> code c < 128 \<and> ascii_ws c"
    and "\<And>c. c \<in> set t \<Longrightarrow> code c < 128 \<and> \<not> ascii_ws c" and "t \<noteq> []"
    and "rest = [] \<or> (code (hd rest) < 128 \<and> ascii_ws (hd rest))"
  shows "\<exists>ws. split_whitespace (w @ t @ rest) = t # ws"
proof -
  have "split_whitespace (w @ t @ rest) = split_ws_acc t rest"
    using split_ws_acc_skip [of w "t @ rest"] split_ws_acc_token [of t "[]" rest] assms(1,2)
    by (simp add: split_whitespace_def)
  also have "\<exists>ws. \<dots> = t # ws"
  proof (cases rest)
    case Nil
    then show ?thesis using assms(3) by (simp add: split_ws_acc.simps)
  next
    case (Cons c r)
    then show ?thesis using assms(3,4) by (simp add: split_ws_acc_ws)
  qed
  finally show ?thesis .
qed

lemma trim_token:
  assumes "\<And>c. c \<in> set t \<Longrightarrow> code c < 128 \<and> \<not> ascii_ws c"
  shows "str_trim t = t"
proof -
  have start: "trim_start u = u" if "\<And>c. c \<in> set u \<Longrightarrow> code c < 128 \<and> \<not> ascii_ws c" for u
    using that by (cases u) (simp_all add: trim_start.simps ws_len_ascii)
  have "trim_end u = u" if "\<And>c. c \<in> set u \<Longrightarrow> code c < 128 \<and> \<not> ascii_ws c" for u
    using that
  proof (induction u)
    case (Cons a u)
    then show ?case using start [of "a # u"] by simp
  qed simp
  then show ?thesis using assms start by (simp add: str_trim_def)
qed

section \<open>Lines\<close>

definition unlines :: "string list \<Rightarrow> string" where
  "unlines ls = concat (map (\<lambda>l. l @ newline) ls)"

definition line_ok :: "string \<Rightarrow> bool" where
  "line_ok l \<longleftrightarrow> CHR 0x0A \<notin> set l \<and> (l = [] \<or> last l \<noteq> CHR 0x0D)"

lemma unlines_simps [simp]:
  "unlines [] = []" "unlines (l # ls) = l @ newline @ unlines ls"
  "unlines (ls @ ms) = unlines ls @ unlines ms"
  by (simp_all add: unlines_def)

lemma str_split_first: "x \<notin> set l \<Longrightarrow> str_split x (l @ x # s) = l # str_split x s"
  by (induction l) auto

lemma str_split_nonempty: "str_split x s \<noteq> []"
  by (induction s) (simp_all split: list.split)

lemma str_split_unlines:
  "list_all line_ok ls \<Longrightarrow> str_split (CHR 0x0A) (unlines ls) = ls @ [[]]"
  by (induction ls) (simp_all add: line_ok_def str_split_first)

lemma str_lines_unlines:
  assumes "list_all line_ok ls"
  shows "str_lines (unlines ls) = ls"
proof -
  have "map strip_cr ls = ls"
    using assms by (induction ls) (auto simp: strip_cr_def line_ok_def)
  then show ?thesis using str_split_unlines [OF assms] by (simp add: str_lines_def)
qed

lemma str_split_no_sep: "x \<notin> set s \<Longrightarrow> str_split x s = [s]"
  by (induction s) auto

lemma str_split_append: "str_split x (a @ x # b) = str_split x a @ str_split x b"
  by (induction a) (auto split: list.split simp: str_split_nonempty)

text \<open>A text between two line feeds is a line, whatever surrounds it.\<close>

lemma str_lines_between:
  assumes "line_ok l"
  shows "l \<in> set (str_lines (a @ newline @ l @ newline @ b))"
proof -
  have "str_split (CHR 0x0A) (a @ newline @ l @ newline @ b)
      = str_split (CHR 0x0A) a @ [l] @ str_split (CHR 0x0A) b"
    using assms by (simp add: str_split_append str_split_no_sep line_ok_def)
  then have "l \<in> set (butlast (str_split (CHR 0x0A) (a @ newline @ l @ newline @ b)))"
    using str_split_nonempty [of "CHR 0x0A" b] by (simp add: butlast_append)
  moreover have "strip_cr l = l" using assms by (auto simp: strip_cr_def line_ok_def)
  ultimately have "l \<in> strip_cr ` set (butlast (str_split (CHR 0x0A) (a @ newline @ l @ newline @ b)))"
    by (metis image_eqI)
  then show ?thesis by (simp add: str_lines_def Let_def)
qed

section \<open>Facts about splitting, replacing and decoding\<close>

lemma split_once_None: "x \<notin> set s \<Longrightarrow> split_once x s = None"
  by (induction s) auto

lemma rsplit_once_None: "x \<notin> set s \<Longrightarrow> rsplit_once x s = None"
  using split_once_None [of x "rev s"] by (simp add: rsplit_once_def)

lemma str_replace_char: "str_replace [x] r s = concat (map (\<lambda>c. if c = x then r else [c]) s)"
  by (induction s) (auto simp: str_replace.simps [of "[x]" r "_ # _"] str_replace.simps [of "[x]" r "[]"] starts_with_iff)

lemma str_split_pieces: "w \<in> set (str_split x s) \<Longrightarrow> x \<notin> set w"
  by (induction s arbitrary: w) (auto split: list.splits if_splits)

lemma from_utf8_of_bytes: "from_utf8 bs = Some s \<Longrightarrow> s = of_bytes bs"
proof (induction bs arbitrary: s rule: from_utf8.induct)
  case (1 bs)
  show ?case
  proof (cases "bs = []")
    case True
    then show ?thesis using "1.prems" by (simp add: from_utf8.simps of_bytes_def)
  next
    case False
    obtain n ok where n: "utf8_next bs = (n, ok)" by fastforce
    then have ok using "1.prems" False by (auto simp: from_utf8.simps [of bs] split: if_splits)
    then obtain t where "from_utf8 (drop n bs) = Some t" "s = of_bytes (take n bs) @ t"
      using "1.prems" False n by (auto simp: from_utf8.simps [of bs])
    then show ?thesis
      using "1.IH" [OF False n [symmetric] refl \<open>ok\<close>] of_bytes_append [of "take n bs" "drop n bs"] by simp
  qed
qed

lemma from_utf8_id: "from_utf8 (as_bytes s) = Some t \<Longrightarrow> t = s"
  using from_utf8_of_bytes by fastforce

lemma split_once_first: "x \<notin> set a \<Longrightarrow> split_once x (a @ x # b) = Some (a, b)"
  by (induction a) auto

lemma rsplit_once_last: "x \<notin> set b \<Longrightarrow> rsplit_once x (a @ x # b) = Some (a, b)"
  using split_once_first [of x "rev b" "rev a"] by (simp add: rsplit_once_def)

lemma trim_start_ascii: "ascii_str s \<Longrightarrow> trim_start s = dropWhile ascii_ws s"
  by (induction s) (simp_all add: trim_start.simps [of "[]"] trim_start.simps [of "_ # _"] ascii_str_def ws_len_ascii)

lemma trim_end_ascii:
  "ascii_str s \<Longrightarrow> s \<noteq> [] \<Longrightarrow> \<not> ascii_ws (last s) \<Longrightarrow> trim_end s = s"
proof (induction s)
  case (Cons c s)
  have "dropWhile ascii_ws (c # s) \<noteq> []"
    using Cons.prems(3) last_in_set [of "c # s"] unfolding dropWhile_eq_Nil_conv by blast
  then show ?case using Cons trim_start_ascii [OF Cons.prems(1)] by (cases s) (auto simp: ascii_str_def)
qed simp

lemma str_trim_ascii:
  "ascii_str (w @ s) \<Longrightarrow> list_all ascii_ws w \<Longrightarrow> s \<noteq> [] \<Longrightarrow> \<not> ascii_ws (hd s) \<Longrightarrow> \<not> ascii_ws (last s)
     \<Longrightarrow> str_trim (w @ s) = s" (is "_ \<Longrightarrow> _ \<Longrightarrow> _ \<Longrightarrow> _ \<Longrightarrow> _ \<Longrightarrow> ?thesis")
proof -
  assume *: "ascii_str (w @ s)" "list_all ascii_ws w" "s \<noteq> []" "\<not> ascii_ws (hd s)" "\<not> ascii_ws (last s)"
  have "trim_start (w @ s) = s"
    using * by (cases s) (auto simp: trim_start_ascii dropWhile_append2 list_all_iff)
  moreover have "ascii_str s" using *(1) by (simp add: ascii_str_def)
  ultimately show ?thesis using trim_end_ascii [OF _ *(3,5)] by (simp add: str_trim_def)
qed

lemma find_whitespace_token:
  "ascii_str d \<Longrightarrow> list_all (\<lambda>c. \<not> ascii_ws c) d \<Longrightarrow> find_whitespace (d @ CHR '' '' # s) = Some (length d)"
  by (induction d) (simp_all add: ws_len_ascii ascii_str_def ascii_ws_def)

end
