(* ===== verification/Host.thy ===== *)
theory Host
  imports Rust_Str
begin

text \<open>
  The standard library's view of the machine: paths (\<open>std::path\<close>), I/O errors and the file
  system calls of \<open>std::fs\<close>.  A path is the sequence of its components.  Every call may
  fail: \<open>fs_fault\<close> says which calls do and with what error, and \<open>fs_torn\<close> what a failed
  write leaves behind, so a theorem that holds for all file systems holds whatever fails.
\<close>

section \<open>Paths\<close>

datatype component = RootDir | CurDir | ParentDir | Normal string

type_synonym path = "component list"

fun normal_components :: "string list \<Rightarrow> path" where
  "normal_components [] = []"
| "normal_components (w # ws) =
     (if w = [] \<or> w = ''.'' then normal_components ws
      else if w = ''..'' then ParentDir # normal_components ws
      else Normal w # normal_components ws)"

text \<open>\<open>Path::components\<close> on Unix: a leading \<open>.\<close> of a relative path is kept.\<close>

definition path_of :: "string \<Rightarrow> path" where
  "path_of s =
     (if starts_with ''/'' s then RootDir # normal_components (str_split (CHR ''/'') s)
      else (case str_split (CHR ''/'') s of
              [] \<Rightarrow> []
            | w # ws \<Rightarrow> (if w = ''.'' then [CurDir] else []) @ normal_components (w # ws)))"

definition is_absolute :: "path \<Rightarrow> bool" where
  "is_absolute p \<longleftrightarrow> (case p of RootDir # _ \<Rightarrow> True | _ \<Rightarrow> False)"

definition path_join :: "path \<Rightarrow> path \<Rightarrow> path" where
  "path_join p q =
     (if is_absolute q then q else if p = [] then q else p @ filter (\<lambda>c. c \<noteq> CurDir) q)"

definition file_name :: "path \<Rightarrow> string option" where
  "file_name p = (if p = [] then None else (case last p of Normal n \<Rightarrow> Some n | _ \<Rightarrow> None))"

definition path_parent :: "path \<Rightarrow> path option" where
  "path_parent p = (if p = [] \<or> p = [RootDir] then None else Some (butlast p))"

definition file_stem :: "string \<Rightarrow> string" where
  "file_stem n = (case rsplit_once (CHR ''.'') n of
     None \<Rightarrow> n | Some (a, b) \<Rightarrow> if a = [] then n else a)"

definition with_extension :: "path \<Rightarrow> string \<Rightarrow> path" where
  "with_extension p ext = (case file_name p of None \<Rightarrow> p
     | Some n \<Rightarrow> butlast p @ [Normal (file_stem n @ (if ext = [] then [] else ''.'' @ ext))])"

fun component_str :: "component \<Rightarrow> string" where
  "component_str RootDir = []"
| "component_str CurDir = ''.''"
| "component_str ParentDir = ''..''"
| "component_str (Normal n) = n"

definition display_path :: "path \<Rightarrow> string" where
  "display_path p =
     (if p = [RootDir] then ''/'' else str_join ''/'' (map component_str p))"

text \<open>\<open>Path::to_str\<close>: nothing unless the path is UTF-8.\<close>

definition path_to_str :: "path \<Rightarrow> string option" where
  "path_to_str p = from_utf8 (as_bytes (display_path p))"

text \<open>The number of polls a loop makes that sleeps between them until a deadline.\<close>

definition polls :: "nat \<Rightarrow> nat \<Rightarrow> nat" where
  "polls timeout_ms sleep_ms = (timeout_ms + sleep_ms - 1) div sleep_ms"

section \<open>I/O errors\<close>

datatype io_kind = KNotFound | KTimedOut | KOther

record io_error =
  io_kind :: io_kind
  io_text :: string

definition io_not_found :: io_error where
  "io_not_found = \<lparr>io_kind = KNotFound, io_text = ''No such file or directory (os error 2)''\<rparr>"

definition io_not_a_directory :: io_error where
  "io_not_a_directory = \<lparr>io_kind = KOther, io_text = ''Not a directory (os error 20)''\<rparr>"

definition io_is_a_directory :: io_error where
  "io_is_a_directory = \<lparr>io_kind = KOther, io_text = ''Is a directory (os error 21)''\<rparr>"

definition io_exists :: io_error where
  "io_exists = \<lparr>io_kind = KOther, io_text = ''File exists (os error 17)''\<rparr>"

section \<open>The file system\<close>

datatype fs_op = FsCreateDir | FsRead | FsWrite | FsOpen | FsSync | FsRename | FsRemoveFile
  | FsRemoveDir | FsMetadata | FsSeek | FsCopy | FsReadDir

text \<open>\<open>fs_dir_len\<close> is the size that \<open>metadata\<close> reports for a directory, which is up to the file system.\<close>

record fs =
  fs_files :: "path \<rightharpoonup> bytes"
  fs_dirs :: "path set"
  fs_fault :: "fs_op \<Rightarrow> path \<Rightarrow> io_error option"
  fs_torn :: "path \<Rightarrow> bytes option"
  fs_dir_len :: "path \<Rightarrow> nat"

text \<open>An empty file system on which no call fails: the start of the examples.\<close>

definition quiet_fs :: fs where
  "quiet_fs = \<lparr>fs_files = (\<lambda>_. None), fs_dirs = {}, fs_fault = (\<lambda>_ _. None), fs_torn = (\<lambda>_. None),
     fs_dir_len = (\<lambda>_. 4096)\<rparr>"

definition fs_is_dir :: "fs \<Rightarrow> path \<Rightarrow> bool" where
  "fs_is_dir w p \<longleftrightarrow> p = [] \<or> p = [RootDir] \<or> p \<in> fs_dirs w"

text \<open>\<open>Path::exists\<close>\<close>

definition fs_exists :: "fs \<Rightarrow> path \<Rightarrow> bool" where
  "fs_exists w p \<longleftrightarrow> fs_files w p \<noteq> None \<or> p \<noteq> [] \<and> fs_is_dir w p"

definition parent_ready :: "fs \<Rightarrow> path \<Rightarrow> bool" where
  "parent_ready w p \<longleftrightarrow> (case path_parent p of None \<Rightarrow> False | Some d \<Rightarrow> fs_is_dir w d)"

definition fs_create_dir_all :: "path \<Rightarrow> fs \<Rightarrow> (unit, io_error) result \<times> fs" where
  "fs_create_dir_all p w =
     (case fs_fault w FsCreateDir p of Some e \<Rightarrow> (Err e, w)
      | None \<Rightarrow>
        if \<exists>q \<in> set (prefixes p). fs_files w q \<noteq> None then (Err io_exists, w)
        else (Ok (), w\<lparr>fs_dirs := fs_dirs w \<union> set (prefixes p)\<rparr>))"

definition fs_read :: "path \<Rightarrow> fs \<Rightarrow> (bytes, io_error) result" where
  "fs_read p w =
     (case fs_fault w FsRead p of Some e \<Rightarrow> Err e
      | None \<Rightarrow> ok_or (if fs_is_dir w p then io_is_a_directory else io_not_found) (fs_files w p))"

definition fs_write :: "path \<Rightarrow> bytes \<Rightarrow> fs \<Rightarrow> (unit, io_error) result \<times> fs" where
  "fs_write p b w =
     (case fs_fault w FsWrite p of
        Some e \<Rightarrow> (Err e, (case fs_torn w p of None \<Rightarrow> w
                           | Some t \<Rightarrow> w\<lparr>fs_files := (fs_files w)(p \<mapsto> t)\<rparr>))
      | None \<Rightarrow>
        if fs_is_dir w p then (Err io_exists, w)
        else if \<not> parent_ready w p then (Err io_not_found, w)
        else (Ok (), w\<lparr>fs_files := (fs_files w)(p \<mapsto> b)\<rparr>))"

text \<open>\<open>File::open\<close> on a file, and \<open>sync_all\<close> on it.\<close>

definition fs_open :: "path \<Rightarrow> fs \<Rightarrow> (bytes, io_error) result" where
  "fs_open p w =
     (case fs_fault w FsOpen p of Some e \<Rightarrow> Err e
      | None \<Rightarrow> ok_or io_not_found (fs_files w p))"

definition fs_sync :: "path \<Rightarrow> fs \<Rightarrow> (unit, io_error) result" where
  "fs_sync p w = (case fs_fault w FsSync p of Some e \<Rightarrow> Err e | None \<Rightarrow> Ok ())"

definition fs_rename :: "path \<Rightarrow> path \<Rightarrow> fs \<Rightarrow> (unit, io_error) result \<times> fs" where
  "fs_rename p q w =
     (case fs_fault w FsRename p of Some e \<Rightarrow> (Err e, w)
      | None \<Rightarrow>
        (case fs_files w p of None \<Rightarrow> (Err io_not_found, w)
         | Some b \<Rightarrow>
           if fs_is_dir w q then (Err io_exists, w)
           else if \<not> parent_ready w q then (Err io_not_found, w)
           else (Ok (), w\<lparr>fs_files := ((fs_files w)(p := None))(q \<mapsto> b)\<rparr>)))"

definition fs_remove_file :: "path \<Rightarrow> fs \<Rightarrow> (unit, io_error) result \<times> fs" where
  "fs_remove_file p w =
     (case fs_fault w FsRemoveFile p of Some e \<Rightarrow> (Err e, w)
      | None \<Rightarrow>
        (case fs_files w p of None \<Rightarrow> (Err (if fs_is_dir w p then io_is_a_directory else io_not_found), w)
         | Some b \<Rightarrow> (Ok (), w\<lparr>fs_files := (fs_files w)(p := None)\<rparr>)))"

definition fs_remove_dir_all :: "path \<Rightarrow> fs \<Rightarrow> (unit, io_error) result \<times> fs" where
  "fs_remove_dir_all p w =
     (case fs_fault w FsRemoveDir p of Some e \<Rightarrow> (Err e, w)
      | None \<Rightarrow>
        if fs_files w p \<noteq> None then (Err io_not_a_directory, w)
        else if \<not> fs_is_dir w p then (Err io_not_found, w)
        else (Ok (), w\<lparr>fs_files := (\<lambda>q. if prefix p q then None else fs_files w q),
                      fs_dirs := {q \<in> fs_dirs w. \<not> prefix p q}\<rparr>))"

text \<open>\<open>metadata(p).len()\<close> of a file or of a directory.\<close>

definition fs_len :: "path \<Rightarrow> fs \<Rightarrow> (nat, io_error) result" where
  "fs_len p w =
     (case fs_fault w FsMetadata p of Some e \<Rightarrow> Err e
      | None \<Rightarrow>
        (case fs_files w p of Some b \<Rightarrow> Ok (length b)
         | None \<Rightarrow> if p \<noteq> [] \<and> fs_is_dir w p then Ok (fs_dir_len w p) else Err io_not_found))"

text \<open>The way the program replaces a file: write a temporary file next to it, sync it, rename it.\<close>

definition fs_replace :: "path \<Rightarrow> bytes \<Rightarrow> fs \<Rightarrow> (unit, io_error) result \<times> fs" where
  "fs_replace p data w =
     (let tmp_path = with_extension p ''tmp'' in
      case fs_write tmp_path data w of
        (Err e, w) \<Rightarrow> (Err e, w)
      | (Ok _, w) \<Rightarrow>
        (case and_then (fs_open tmp_path w) (\<lambda>_. fs_sync tmp_path w) of
           Err e \<Rightarrow> (Err e, w)
         | Ok _ \<Rightarrow> fs_rename tmp_path p w))"

text \<open>\<open>std::fs::copy\<close>: reads the source, then writes the target.\<close>

definition fs_copy :: "path \<Rightarrow> path \<Rightarrow> fs \<Rightarrow> (unit, io_error) result \<times> fs" where
  "fs_copy p q w =
     (case fs_fault w FsCopy p of Some e \<Rightarrow> (Err e, w)
      | None \<Rightarrow>
        (case fs_read p w of Err e \<Rightarrow> (Err e, w) | Ok b \<Rightarrow> fs_write q b w))"

section \<open>Processes\<close>

text \<open>\<open>std::process::Command\<close> run to its end: the program is not part of this development, so a
  function says what it answers and what it leaves in the file system.\<close>

record Command =
  cmd_program :: string
  cmd_args :: "string list"

record Output =
  out_success :: bool
  out_status :: string
  out_stdout :: bytes
  out_stderr :: bytes

type_synonym exec = "Command \<Rightarrow> fs \<Rightarrow> (Output, io_error) result \<times> fs"

datatype target_os = Linux | MacOs | Windows

section \<open>Facts about paths\<close>

lemma path_join_relative [simp]:
  "p \<noteq> [] \<Longrightarrow> path_join p [Normal n] = p @ [Normal n]"
  by (simp add: path_join_def is_absolute_def)

lemma path_parent_snoc [simp]: "p \<noteq> [] \<Longrightarrow> path_parent (p @ [Normal n]) = Some p"
  by (simp add: path_parent_def)

lemma file_name_snoc [simp]: "file_name (p @ [Normal n]) = Some n"
  by (simp add: file_name_def)

text \<open>A name without separators that is neither empty nor a dot entry is one component.\<close>

lemma path_of_plain_name:
  assumes "CHR ''/'' \<notin> set n" "n \<noteq> []" "hd n \<noteq> CHR ''.''"
  shows "path_of n = [Normal n]"
proof -
  have "\<not> starts_with ''/'' n"
    using assms(1,2) by (cases n) (auto simp: starts_with_iff)
  moreover have "n \<noteq> ''.''" "n \<noteq> ''..''" using assms(3) by auto
  ultimately show ?thesis
    using assms(2) by (simp add: path_of_def str_split_no_sep [OF assms(1)])
qed

lemma normal_components_pieces: "Normal f \<in> set (normal_components ws) \<Longrightarrow> f \<in> set ws"
  by (induction ws rule: normal_components.induct) (auto split: if_splits)

lemma path_of_pieces:
  assumes "Normal f \<in> set (path_of s)"
  shows "CHR ''/'' \<notin> set f"
proof -
  have "f \<in> set (str_split (CHR ''/'') s)"
    using assms normal_components_pieces
    by (cases "str_split (CHR ''/'') s") (auto simp: path_of_def split: if_splits)
  then show ?thesis by (rule str_split_pieces)
qed

section \<open>What the file system calls keep\<close>

lemma fs_create_dir_all_files [simp, frame]:
  "fs_files (snd (fs_create_dir_all p w)) = fs_files w"
  by (simp add: fs_create_dir_all_def split: option.splits)

lemma fs_create_dir_all_ok:
  "fs_create_dir_all p w = (Ok u, w') \<Longrightarrow> p \<in> fs_dirs w'"
  by (auto simp: fs_create_dir_all_def split: option.splits if_splits)

lemma fs_write_ok:
  "fs_write p b w = (Ok u, w') \<Longrightarrow> w' = w\<lparr>fs_files := (fs_files w)(p \<mapsto> b)\<rparr>"
  by (auto simp: fs_write_def split: option.splits if_splits)

lemma fs_write_other [frame]:
  "fs_write p b w = (r, w') \<Longrightarrow> q \<noteq> p \<Longrightarrow> fs_files w' q = fs_files w q"
  by (auto simp: fs_write_def split: option.splits if_splits)

lemma fs_write_dirs [frame]: "fs_write p b w = (r, w') \<Longrightarrow> fs_dirs w' = fs_dirs w"
  by (auto simp: fs_write_def split: option.splits if_splits)

lemma fs_rename_ok:
  "fs_rename p q w = (Ok u, w') \<Longrightarrow>
     \<exists>b. fs_files w p = Some b \<and> w' = w\<lparr>fs_files := ((fs_files w)(p := None))(q \<mapsto> b)\<rparr>"
  by (simp add: fs_rename_def split: option.splits if_splits)

lemma fs_rename_err: "fs_rename p q w = (Err e, w') \<Longrightarrow> w' = w"
  by (simp add: fs_rename_def split: option.splits if_splits)

lemma create_dir_all_dirs:
  "fs_create_dir_all p w = (r, w') \<Longrightarrow> q \<in> fs_dirs w' \<Longrightarrow> q \<in> fs_dirs w \<or> prefix q p"
  by (auto simp: fs_create_dir_all_def split: option.splits if_splits)

text \<open>Whatever fails, the file is replaced or it is as it was; only the temporary file may be left.\<close>

lemma fs_replace_effect:
  assumes "fs_replace p b w = (r, w')"
  shows "fs_dirs w' = fs_dirs w \<and> fs_fault w' = fs_fault w \<and>
    (case r of Err e \<Rightarrow> \<forall>q. q \<noteq> with_extension p ''tmp'' \<longrightarrow> fs_files w' q = fs_files w q
     | Ok _ \<Rightarrow> fs_files w' = (fs_files w)(with_extension p ''tmp'' := None, p \<mapsto> b))"
  using assms
  by (auto simp: fs_replace_def Let_def fs_write_def fs_rename_def fs_open_def fs_sync_def
      split: if_splits option.splits prod.splits result.splits)

end
