(* ===== verification/Config.thy ===== *)
theory Config
  imports Host
begin

text \<open>
  \<open>src/config.rs\<close> and the error type of \<open>src/driver/mod.rs\<close>: what it takes to boot a VM,
  the handle and the life-cycle state of a VM, and the validation every start goes through.
\<close>

section \<open>Errors\<close>

datatype VmError =
    BootFailed string string
  | NotFound string
  | StopFailed string string
  | StateFailed string string
  | Hypervisor string
  | Io io_error
  | InvalidConfig string

fun vm_error_display :: "VmError \<Rightarrow> string" where
  "vm_error_display (BootFailed n d) = ''boot failed for '' @ squote @ n @ squote @ '': '' @ d"
| "vm_error_display (NotFound n) = ''VM '' @ squote @ n @ squote @ '' not found''"
| "vm_error_display (StopFailed n d) = ''failed to stop '' @ squote @ n @ squote @ '': '' @ d"
| "vm_error_display (StateFailed n d) =
     ''failed to query state for '' @ squote @ n @ squote @ '': '' @ d"
| "vm_error_display (Hypervisor d) = ''hypervisor error: '' @ d"
| "vm_error_display (Io e) = ''I/O error: '' @ io_text e"
| "vm_error_display (InvalidConfig d) = ''invalid config: '' @ d"

text \<open>The text of the standard library's \<open>PoisonError\<close>.\<close>

definition poison_text :: string where
  "poison_text = ''poisoned lock: another task failed inside''"

section \<open>Configuration\<close>

definition READY_MARKER :: string where
  "READY_MARKER = ''VMRS_READY''"

text \<open>An owned descriptor; \<open>dup\<close> stands for the C library's call: the new descriptor, and the
  error of a failed call (a negative descriptor).\<close>

record VmSocketEndpoint =
  ep_fd :: int

definition try_clone_owned ::
  "(int \<Rightarrow> int \<times> io_error) \<Rightarrow> VmSocketEndpoint \<Rightarrow> (int, io_error) result" where
  "try_clone_owned dup ep =
     (let (duplicated, errno) = dup (ep_fd ep)
      in if duplicated < 0 then Err errno else Ok duplicated)"

record VmmProcess =
  vp_pid :: u32
  vp_start_time_ticks :: "u64 option"

datatype NetworkAttachment = SocketPairFd VmSocketEndpoint | Tap string "string option"

record SharedDir =
  sd_host_path :: path
  sd_tag :: string
  sd_read_only :: bool

record VmConfig =
  cfg_name :: string
  cfg_namespace :: string
  cfg_kernel :: path
  cfg_initramfs :: "path option"
  cfg_root_disk :: "path option"
  cfg_data_disk :: "path option"
  cfg_seed_iso :: "path option"
  cfg_cpus :: usize
  cfg_memory_mb :: usize
  cfg_networks :: "NetworkAttachment list"
  cfg_shared_dirs :: "SharedDir list"
  cfg_serial_log :: path
  cfg_cmdline :: "string option"
  cfg_netns :: "string option"
  cfg_vsock :: bool
  cfg_machine_id :: "bytes option"
  cfg_efi_variable_store :: "path option"
  cfg_rosetta :: bool

definition name_char :: "char \<Rightarrow> bool" where
  "name_char c \<longleftrightarrow>
     is_ascii_alphanumeric c \<or> c = CHR ''-'' \<or> c = CHR ''_'' \<or> c = CHR ''.''"

definition validate :: "VmConfig \<Rightarrow> (unit, VmError) result" where
  "validate c =
     (if cfg_name c = [] then Err (InvalidConfig ''VM name must not be empty'')
      else if 128 < length (cfg_name c)
        then Err (InvalidConfig ''VM name must be 128 characters or fewer'')
      else if \<not> list_all name_char (cfg_name c)
        then Err (InvalidConfig
          ''VM name must contain only alphanumeric characters, hyphens, underscores, and dots'')
      else if starts_with ''.'' (cfg_name c) \<or> starts_with ''-'' (cfg_name c)
        then Err (InvalidConfig
          (''VM name must not start with '' @ squote @ ''.'' @ squote @ '' or ''
           @ squote @ ''-'' @ squote))
      else if cfg_cpus c = 0 then Err (InvalidConfig ''cpus must be at least 1'')
      else if cfg_memory_mb c = 0 then Err (InvalidConfig ''memory_mb must be at least 1'')
      else if cfg_kernel c = [] then Err (InvalidConfig ''kernel path must not be empty'')
      else Ok ())"

section \<open>State and handle\<close>

datatype VmState =
    Starting
  | Running
  | Ready string
  | Paused
  | Stopped
  | Failed string

record VmHandle =
  h_name :: string
  h_namespace :: string
  h_state :: VmState
  h_process :: "VmmProcess option"
  h_serial_log :: path
  h_machine_id :: "bytes option"

fun is_running :: "VmState \<Rightarrow> bool" where
  "is_running Running = True"
| "is_running (Ready _) = True"
| "is_running _ = False"

fun is_ready :: "VmState \<Rightarrow> bool" where
  "is_ready (Ready _) = True"
| "is_ready _ = False"

fun state_ip :: "VmState \<Rightarrow> string option" where
  "state_ip (Ready ip) = Some ip"
| "state_ip _ = None"

fun vm_state_display :: "VmState \<Rightarrow> string" where
  "vm_state_display Starting = ''starting''"
| "vm_state_display Running = ''running''"
| "vm_state_display (Ready ip) = ''ready ('' @ ip @ '')''"
| "vm_state_display Paused = ''paused''"
| "vm_state_display Stopped = ''stopped''"
| "vm_state_display (Failed r) = ''failed: '' @ r"

section \<open>Facts\<close>

lemma validate_Ok_iff [ok_iff]:
  "validate c = Ok () \<longleftrightarrow>
     cfg_name c \<noteq> [] \<and> length (cfg_name c) \<le> 128 \<and> list_all name_char (cfg_name c)
     \<and> hd (cfg_name c) \<noteq> CHR ''.'' \<and> hd (cfg_name c) \<noteq> CHR ''-''
     \<and> cfg_cpus c \<noteq> 0 \<and> cfg_memory_mb c \<noteq> 0 \<and> cfg_kernel c \<noteq> []"
  by (cases "cfg_name c") (auto simp: validate_def starts_with_iff)

lemma not_name_char_slash [simp]: "\<not> name_char (CHR ''/'')"
  by (simp add: name_char_def is_ascii_alphanumeric_def is_ascii_alphabetic_def is_ascii_digit_def)

lemma validated_name_no_slash: "validate c = Ok () \<Longrightarrow> CHR ''/'' \<notin> set (cfg_name c)"
  by (metis list_all_iff not_name_char_slash validate_Ok_iff)

lemma validated_name_component:
  assumes "validate c = Ok ()"
  shows "path_of (cfg_name c) = [Normal (cfg_name c)]"
  using validated_name_no_slash [OF assms] assms
  by (intro path_of_plain_name) (simp_all add: validate_Ok_iff)

lemma vm_state_display_inj: "vm_state_display s = vm_state_display t \<Longrightarrow> s = t"
  by (cases s; cases t) auto

end
