(* ===== verification/Driver.thy ===== *)
theory Driver
  imports Config
begin

text \<open>
  \<open>src/driver/mod.rs\<close>: the \<open>VmDriver\<close> trait.  A driver object is a record of its methods over
  its own state \<open>'d\<close> (everything behind \<open>Box<dyn VmDriver>\<close>: its tables and the machine it
  drives).  The locale \<open>vm_driver\<close> is the contract the manager relies on; each platform
  driver interprets it in its own theory.
\<close>

record 'd VmDriver =
  drv_boot :: "VmConfig \<Rightarrow> 'd \<Rightarrow> (VmHandle, VmError) result \<times> 'd"
  drv_stop :: "VmHandle \<Rightarrow> 'd \<Rightarrow> (unit, VmError) result \<times> 'd"
  drv_kill :: "VmHandle \<Rightarrow> 'd \<Rightarrow> (unit, VmError) result \<times> 'd"
  drv_state :: "VmHandle \<Rightarrow> 'd \<Rightarrow> (VmState, VmError) result \<times> 'd"
  drv_pause :: "VmHandle \<Rightarrow> 'd \<Rightarrow> (unit, VmError) result \<times> 'd"
  drv_resume :: "VmHandle \<Rightarrow> 'd \<Rightarrow> (unit, VmError) result \<times> 'd"

text \<open>The trait's default methods.\<close>

definition default_pause :: "VmHandle \<Rightarrow> 'd \<Rightarrow> (unit, VmError) result \<times> 'd" where
  "default_pause h d =
     (Err (Hypervisor (''pause is not supported by this driver for VM '' @ squote @ h_name h
        @ squote)), d)"

definition default_resume :: "VmHandle \<Rightarrow> 'd \<Rightarrow> (unit, VmError) result \<times> 'd" where
  "default_resume h d =
     (Err (Hypervisor (''resume is not supported by this driver for VM '' @ squote @ h_name h
        @ squote)), d)"

text \<open>
  What the trait's documentation promises: a successful boot returns a handle for the VM that
  was asked for, in a state that is not final, and no method breaks the driver's own
  invariant.
\<close>

locale vm_driver =
  fixes drv :: "'d VmDriver" and dinv :: "'d \<Rightarrow> bool"
  assumes boot_handle:
      "drv_boot drv c d = (Ok h, d') \<Longrightarrow>
         h_name h = cfg_name c \<and> h_namespace h = cfg_namespace c
         \<and> h_serial_log h = cfg_serial_log c \<and> h_state h \<in> {Starting, Running}"
    and boot_inv: "dinv d \<Longrightarrow> dinv (snd (drv_boot drv c d))"
    and stop_inv: "dinv d \<Longrightarrow> dinv (snd (drv_stop drv h d))"
    and kill_inv: "dinv d \<Longrightarrow> dinv (snd (drv_kill drv h d))"
    and state_inv: "dinv d \<Longrightarrow> dinv (snd (drv_state drv h d))"
    and pause_inv: "dinv d \<Longrightarrow> dinv (snd (drv_pause drv h d))"
    and resume_inv: "dinv d \<Longrightarrow> dinv (snd (drv_resume drv h d))"
begin

lemmas method_inv = boot_inv stop_inv kill_inv state_inv pause_inv resume_inv

lemma boot_name: "drv_boot drv c d = (Ok h, d') \<Longrightarrow> h_name h = cfg_name c"
  by (simp add: boot_handle)

end

end
