(* ===== verification/Manager.thy ===== *)
theory Manager
  imports Driver "HOL-Library.List_Lexorder" "HOL-Library.Char_ord"
begin

text \<open>
  \<open>src/vm/manager.rs\<close>: the multi-VM manager over a driver.  The \<open>RwLock\<close> around the VM table
  is a flag saying whether it is poisoned; a method that takes the lock fails when it is.
  \<open>start\<close> is the composition of the critical sections the code has (reservation, directory,
  boot, commit), so that their interleavings can be studied as well.
\<close>

record 'd VmManager =
  mgr_driver :: 'd
  mgr_vms :: "string \<rightharpoonup> VmHandle"
  mgr_base_dir :: path
  mgr_fs :: fs
  mgr_poisoned :: bool

definition lock_poisoned :: VmError where
  "lock_poisoned = Hypervisor (''lock poisoned: '' @ poison_text)"

definition with_driver :: "'d \<Rightarrow> path \<Rightarrow> fs \<Rightarrow> ('d VmManager, VmError) result \<times> fs" where
  "with_driver d base w =
     (case fs_create_dir_all base w of
        (Err e, w') \<Rightarrow> (Err (Io e), w')
      | (Ok _, w') \<Rightarrow>
        (Ok \<lparr>mgr_driver = d, mgr_vms = Map.empty, mgr_base_dir = base, mgr_fs = w',
             mgr_poisoned = False\<rparr>, w'))"

definition vm_dir :: "'d VmManager \<Rightarrow> string \<Rightarrow> path" where
  "vm_dir m n = path_join (mgr_base_dir m) (path_of n)"

section \<open>Starting a VM\<close>

fun restartable :: "VmState \<Rightarrow> bool" where
  "restartable Stopped = True"
| "restartable (Failed _) = True"
| "restartable _ = False"

definition reservation :: "VmConfig \<Rightarrow> VmHandle" where
  "reservation c = \<lparr>h_name = cfg_name c, h_namespace = cfg_namespace c, h_state = Starting,
     h_process = None, h_serial_log = cfg_serial_log c, h_machine_id = None\<rparr>"

text \<open>The first critical section of \<open>start\<close>: refuse a live VM, else reserve its name.\<close>

definition mgr_reserve :: "VmConfig \<Rightarrow> 'd VmManager \<Rightarrow> (unit, VmError) result \<times> 'd VmManager" where
  "mgr_reserve c m =
     (if mgr_poisoned m then (Err lock_poisoned, m)
      else (case mgr_vms m (cfg_name c) of
        Some h \<Rightarrow>
          if \<not> restartable (h_state h)
          then (Err (BootFailed (cfg_name c)
                  (''VM already exists in state: '' @ vm_state_display (h_state h))), m)
          else (Ok (), m\<lparr>mgr_vms := (mgr_vms m)(cfg_name c \<mapsto> reservation c)\<rparr>)
      | None \<Rightarrow> (Ok (), m\<lparr>mgr_vms := (mgr_vms m)(cfg_name c \<mapsto> reservation c)\<rparr>)))"

text \<open>Giving the reservation up after a failure with error \<open>err\<close>.\<close>

definition mgr_release :: "VmConfig \<Rightarrow> VmError \<Rightarrow> 'd VmManager \<Rightarrow> (VmHandle, VmError) result \<times> 'd VmManager" where
  "mgr_release c err m =
     (if mgr_poisoned m then (Err lock_poisoned, m)
      else (Err err, m\<lparr>mgr_vms := (mgr_vms m)(cfg_name c := None)\<rparr>))"

text \<open>Recording the handle of a booted VM.\<close>

definition mgr_commit :: "VmConfig \<Rightarrow> VmHandle \<Rightarrow> 'd VmManager \<Rightarrow> (VmHandle, VmError) result \<times> 'd VmManager" where
  "mgr_commit c h m =
     (if mgr_poisoned m then (Err lock_poisoned, m)
      else (Ok h, m\<lparr>mgr_vms := (mgr_vms m)(cfg_name c \<mapsto> h)\<rparr>))"

definition boot_reserved ::
  "'d VmDriver \<Rightarrow> VmConfig \<Rightarrow> 'd VmManager \<Rightarrow> (VmHandle, VmError) result \<times> 'd VmManager" where
  "boot_reserved D c m =
     (case drv_boot D c (mgr_driver m) of
        (Ok h, d) \<Rightarrow> mgr_commit c h (m\<lparr>mgr_driver := d\<rparr>)
      | (Err e, d) \<Rightarrow> mgr_release c e (m\<lparr>mgr_driver := d\<rparr>))"

definition mgr_start ::
  "'d VmDriver \<Rightarrow> VmConfig \<Rightarrow> 'd VmManager \<Rightarrow> (VmHandle, VmError) result \<times> 'd VmManager" where
  "mgr_start D c m =
     (case validate c of Err e \<Rightarrow> (Err e, m)
      | Ok _ \<Rightarrow>
        (case mgr_reserve c m of (Err e, m1) \<Rightarrow> (Err e, m1)
         | (Ok _, m1) \<Rightarrow>
           (case fs_create_dir_all (vm_dir m1 (cfg_name c)) (mgr_fs m1) of
              (Err e, w) \<Rightarrow> mgr_release c (Io e) (m1\<lparr>mgr_fs := w\<rparr>)
            | (Ok _, w) \<Rightarrow> boot_reserved D c (m1\<lparr>mgr_fs := w\<rparr>))))"

section \<open>Operations on tracked VMs\<close>

definition get_handle :: "'d VmManager \<Rightarrow> string \<Rightarrow> (VmHandle, VmError) result" where
  "get_handle m n =
     (if mgr_poisoned m then Err lock_poisoned else ok_or (NotFound n) (mgr_vms m n))"

definition update_cached_state ::
  "string \<Rightarrow> VmState \<Rightarrow> 'd VmManager \<Rightarrow> (unit, VmError) result \<times> 'd VmManager" where
  "update_cached_state n s m =
     (if mgr_poisoned m then (Err lock_poisoned, m)
      else (case mgr_vms m n of
        None \<Rightarrow> (Ok (), m)
      | Some h \<Rightarrow> (Ok (), m\<lparr>mgr_vms := (mgr_vms m)(n \<mapsto> h\<lparr>h_state := s\<rparr>)\<rparr>)))"

text \<open>A driver method on a handle followed by the update of the cached state: the common
  shape of \<open>stop\<close>, \<open>kill\<close>, their \<open>_by_handle\<close> variants and \<open>pause\<close>.\<close>

definition mgr_drive ::
  "(VmHandle \<Rightarrow> 'd \<Rightarrow> (unit, VmError) result \<times> 'd) \<Rightarrow> VmHandle \<Rightarrow> string \<Rightarrow> VmState
   \<Rightarrow> 'd VmManager \<Rightarrow> (unit, VmError) result \<times> 'd VmManager" where
  "mgr_drive f h n s m =
     (case f h (mgr_driver m) of
        (Err e, d) \<Rightarrow> (Err e, m\<lparr>mgr_driver := d\<rparr>)
      | (Ok _, d) \<Rightarrow> update_cached_state n s (m\<lparr>mgr_driver := d\<rparr>))"

definition mgr_stop :: "'d VmDriver \<Rightarrow> string \<Rightarrow> 'd VmManager \<Rightarrow> (unit, VmError) result \<times> 'd VmManager" where
  "mgr_stop D n m =
     (case get_handle m n of Err e \<Rightarrow> (Err e, m) | Ok h \<Rightarrow> mgr_drive (drv_stop D) h n Stopped m)"

definition mgr_kill :: "'d VmDriver \<Rightarrow> string \<Rightarrow> 'd VmManager \<Rightarrow> (unit, VmError) result \<times> 'd VmManager" where
  "mgr_kill D n m =
     (case get_handle m n of Err e \<Rightarrow> (Err e, m) | Ok h \<Rightarrow> mgr_drive (drv_kill D) h n Stopped m)"

definition stop_by_handle ::
  "'d VmDriver \<Rightarrow> VmHandle \<Rightarrow> 'd VmManager \<Rightarrow> (unit, VmError) result \<times> 'd VmManager" where
  "stop_by_handle D h m = mgr_drive (drv_stop D) h (h_name h) Stopped m"

definition kill_by_handle ::
  "'d VmDriver \<Rightarrow> VmHandle \<Rightarrow> 'd VmManager \<Rightarrow> (unit, VmError) result \<times> 'd VmManager" where
  "kill_by_handle D h m = mgr_drive (drv_kill D) h (h_name h) Stopped m"

definition mgr_pause :: "'d VmDriver \<Rightarrow> string \<Rightarrow> 'd VmManager \<Rightarrow> (unit, VmError) result \<times> 'd VmManager" where
  "mgr_pause D n m =
     (case get_handle m n of Err e \<Rightarrow> (Err e, m) | Ok h \<Rightarrow> mgr_drive (drv_pause D) h n Paused m)"

definition mgr_resume :: "'d VmDriver \<Rightarrow> string \<Rightarrow> 'd VmManager \<Rightarrow> (unit, VmError) result \<times> 'd VmManager" where
  "mgr_resume D n m =
     (case get_handle m n of Err e \<Rightarrow> (Err e, m)
      | Ok h \<Rightarrow>
        (case drv_resume D h (mgr_driver m) of
           (Err e, d) \<Rightarrow> (Err e, m\<lparr>mgr_driver := d\<rparr>)
         | (Ok _, d) \<Rightarrow>
           (case drv_state D h d of
              (Err e, d') \<Rightarrow> (Err e, m\<lparr>mgr_driver := d'\<rparr>)
            | (Ok s, d') \<Rightarrow> update_cached_state n s (m\<lparr>mgr_driver := d'\<rparr>))))"

definition mgr_state :: "'d VmDriver \<Rightarrow> string \<Rightarrow> 'd VmManager \<Rightarrow> (VmState, VmError) result \<times> 'd VmManager" where
  "mgr_state D n m =
     (case get_handle m n of Err e \<Rightarrow> (Err e, m)
      | Ok h \<Rightarrow>
        (case drv_state D h (mgr_driver m) of
           (Err e, d) \<Rightarrow> (Err e, m\<lparr>mgr_driver := d\<rparr>)
         | (Ok s, d) \<Rightarrow>
           (case update_cached_state n s (m\<lparr>mgr_driver := d\<rparr>) of
              (Err e, m') \<Rightarrow> (Err e, m')
            | (Ok _, m') \<Rightarrow> (Ok s, m'))))"

definition get_ip ::
  "'d VmDriver \<Rightarrow> string \<Rightarrow> 'd VmManager \<Rightarrow> (string option, VmError) result \<times> 'd VmManager" where
  "get_ip D n m =
     (case mgr_state D n m of (Err e, m') \<Rightarrow> (Err e, m') | (Ok s, m') \<Rightarrow> (Ok (state_ip s), m'))"

section \<open>Enumerating VMs\<close>

text \<open>\<open>HashMap\<close> iterates in an order of its own; \<open>iter\<close> lists the keys of a table in that
  order.\<close>

type_synonym key_order = "(string \<rightharpoonup> VmHandle) \<Rightarrow> string list"

definition vm_names :: "key_order \<Rightarrow> 'd VmManager \<Rightarrow> (string list, VmError) result" where
  "vm_names iter m = (if mgr_poisoned m then Err lock_poisoned else Ok (iter (mgr_vms m)))"

definition vm_list :: "key_order \<Rightarrow> 'd VmManager \<Rightarrow> (VmHandle list, VmError) result" where
  "vm_list iter m =
     (if mgr_poisoned m then Err lock_poisoned
      else Ok (List.map_filter (mgr_vms m) (iter (mgr_vms m))))"

definition pending_names ::
  "key_order \<Rightarrow> (VmState \<Rightarrow> bool) \<Rightarrow> 'd VmManager \<Rightarrow> (string list, VmError) result" where
  "pending_names iter P m =
     (if mgr_poisoned m then Err lock_poisoned
      else Ok (filter (\<lambda>n. case mgr_vms m n of None \<Rightarrow> False | Some h \<Rightarrow> \<not> P (h_state h))
                 (iter (mgr_vms m))))"

section \<open>Waiting for readiness\<close>

text \<open>One round of polling; the result says whether every VM was ready.\<close>

fun poll_round ::
  "'d VmDriver \<Rightarrow> string list \<Rightarrow> bool \<Rightarrow> 'd VmManager \<Rightarrow> (bool, VmError) result \<times> 'd VmManager" where
  "poll_round D [] all_ready m = (Ok all_ready, m)"
| "poll_round D (n # ns) all_ready m =
     (case mgr_state D n m of (Err e, m') \<Rightarrow> (Err e, m')
      | (Ok s, m') \<Rightarrow>
        (case s of
           Ready _ \<Rightarrow> poll_round D ns all_ready m'
         | Failed reason \<Rightarrow> (Err (BootFailed n reason), m')
         | _ \<Rightarrow> poll_round D ns False m'))"

text \<open>
  Time in milliseconds since the call.  \<open>cost k\<close> is what the \<open>k\<close>-th round takes, on top of
  the second the loop sleeps; the log line every ten seconds reads the table once more.
\<close>

definition wait_timeout_error :: "string list \<Rightarrow> VmError" where
  "wait_timeout_error pending =
     Hypervisor (''timeout waiting for VMs: '' @ str_join '', '' pending)"

text \<open>One turn of the loop: it returns (\<open>Inl\<close>), or comes round again after its sleep, at a later time
  (\<open>Inr\<close>).\<close>

definition wait_turn ::
  "'d VmDriver \<Rightarrow> key_order \<Rightarrow> nat \<Rightarrow> nat \<Rightarrow> nat \<Rightarrow> 'd VmManager
   \<Rightarrow> ((unit, VmError) result \<times> 'd VmManager) + (nat \<times> 'd VmManager)" where
  "wait_turn D iter cost timeout elapsed m =
     (if timeout < elapsed
      then (case pending_names iter is_ready m of
              Err e \<Rightarrow> Inl (Err e, m)
            | Ok pending \<Rightarrow> Inl (Err (wait_timeout_error pending), m))
      else (case vm_names iter m of Err e \<Rightarrow> Inl (Err e, m)
        | Ok names \<Rightarrow>
          (case poll_round D names True m of
             (Err e, m') \<Rightarrow> Inl (Err e, m')
           | (Ok True, m') \<Rightarrow> Inl (Ok (), m')
           | (Ok False, m') \<Rightarrow>
             (let now = elapsed + cost; secs = now div 1000 in
              if 0 < secs \<and> secs mod 10 = 0 \<and> \<not> is_ok (pending_names iter is_ready m')
              then Inl (Err lock_poisoned, m')
              else Inr (now + 1000, m')))))"

lemma wait_turn_again:
  "wait_turn D iter cost timeout elapsed m = Inr (elapsed', m') \<Longrightarrow>
     elapsed \<le> timeout \<and> elapsed' = elapsed + cost + 1000"
  by (auto simp: wait_turn_def Let_def split: if_splits result.splits prod.splits bool.splits)

function wait_loop ::
  "'d VmDriver \<Rightarrow> (nat \<Rightarrow> key_order) \<Rightarrow> (nat \<Rightarrow> nat) \<Rightarrow> nat \<Rightarrow> nat \<Rightarrow> nat \<Rightarrow> 'd VmManager
   \<Rightarrow> (unit, VmError) result \<times> 'd VmManager" where
  "wait_loop D iter cost timeout k elapsed m =
     (case wait_turn D (iter k) (cost k) timeout elapsed m of
        Inl r \<Rightarrow> r
      | Inr (elapsed', m') \<Rightarrow> wait_loop D iter cost timeout (Suc k) elapsed' m')"
  by pat_completeness auto
termination
  by (relation "measure (\<lambda>(D, iter, cost, timeout, k, elapsed, m). Suc timeout - elapsed)")
    (auto dest: wait_turn_again)

declare wait_loop.simps [simp del]

definition wait_all_ready ::
  "'d VmDriver \<Rightarrow> (nat \<Rightarrow> key_order) \<Rightarrow> (nat \<Rightarrow> nat) \<Rightarrow> nat \<Rightarrow> 'd VmManager
   \<Rightarrow> (unit, VmError) result \<times> 'd VmManager" where
  "wait_all_ready D iter cost timeout_secs m = wait_loop D iter cost (1000 * timeout_secs) 0 0 m"

section \<open>What one operation does\<close>

lemma mgr_reserve_Ok_iff [ok_iff]:
  "mgr_reserve c m = (Ok u, m') \<longleftrightarrow>
     \<not> mgr_poisoned m \<and> (\<forall>h. mgr_vms m (cfg_name c) = Some h \<longrightarrow> restartable (h_state h))
     \<and> m' = m\<lparr>mgr_vms := (mgr_vms m)(cfg_name c \<mapsto> reservation c)\<rparr>"
  by (auto simp: mgr_reserve_def split: option.splits)

lemma mgr_reserve_Err: "mgr_reserve c m = (Err e, m') \<Longrightarrow> m' = m"
  by (auto simp: mgr_reserve_def split: option.splits if_splits)

lemma mgr_state_Ok:
  assumes "mgr_state D n m = (Ok s, m')"
  shows "\<exists>h. mgr_vms m n = Some h \<and> mgr_vms m' = (mgr_vms m)(n \<mapsto> h\<lparr>h_state := s\<rparr>)
    \<and> mgr_poisoned m' = mgr_poisoned m \<and> \<not> mgr_poisoned m"
  using assms
  by (auto simp: mgr_state_def get_handle_def ok_or_def update_cached_state_def
      split: if_splits option.splits result.splits prod.splits)

lemma mgr_state_frame [frame]:
  "mgr_state D n m = (r, m') \<Longrightarrow>
     mgr_poisoned m' = mgr_poisoned m \<and> mgr_base_dir m' = mgr_base_dir m
     \<and> dom (mgr_vms m') = dom (mgr_vms m) \<and> (\<forall>k. k \<noteq> n \<longrightarrow> mgr_vms m' k = mgr_vms m k)"
  by (auto simp: mgr_state_def get_handle_def ok_or_def update_cached_state_def
      split: if_splits option.splits result.splits prod.splits)

lemma mgr_drive_frame [frame]:
  "mgr_drive f h n s m = (r, m') \<Longrightarrow>
     mgr_poisoned m' = mgr_poisoned m \<and> mgr_base_dir m' = mgr_base_dir m
     \<and> dom (mgr_vms m') = dom (mgr_vms m) \<and> (\<forall>k. k \<noteq> n \<longrightarrow> mgr_vms m' k = mgr_vms m k)"
  by (auto simp: mgr_drive_def update_cached_state_def
      split: if_splits option.splits result.splits prod.splits)

lemma mgr_drive_Ok:
  "mgr_drive f h n s m = (Ok u, m') \<Longrightarrow> mgr_vms m n = Some h' \<Longrightarrow>
     mgr_vms m' n = Some (h'\<lparr>h_state := s\<rparr>)"
  by (auto simp: mgr_drive_def update_cached_state_def
      split: if_splits option.splits result.splits prod.splits)

section \<open>Every public method, as one function\<close>

datatype mgr_op =
    OpStart VmConfig
  | OpStop string
  | OpKill string
  | OpStopByHandle VmHandle
  | OpKillByHandle VmHandle
  | OpPause string
  | OpResume string
  | OpState string
  | OpGetIp string
  | OpWaitAllReady "nat \<Rightarrow> key_order" "nat \<Rightarrow> nat" nat

fun mgr_exec :: "'d VmDriver \<Rightarrow> mgr_op \<Rightarrow> 'd VmManager \<Rightarrow> 'd VmManager" where
  "mgr_exec D (OpStart c) m = snd (mgr_start D c m)"
| "mgr_exec D (OpStop n) m = snd (mgr_stop D n m)"
| "mgr_exec D (OpKill n) m = snd (mgr_kill D n m)"
| "mgr_exec D (OpStopByHandle h) m = snd (stop_by_handle D h m)"
| "mgr_exec D (OpKillByHandle h) m = snd (kill_by_handle D h m)"
| "mgr_exec D (OpPause n) m = snd (mgr_pause D n m)"
| "mgr_exec D (OpResume n) m = snd (mgr_resume D n m)"
| "mgr_exec D (OpState n) m = snd (mgr_state D n m)"
| "mgr_exec D (OpGetIp n) m = snd (get_ip D n m)"
| "mgr_exec D (OpWaitAllReady iter cost t) m = snd (wait_all_ready D iter cost t m)"

definition mgr_run :: "'d VmDriver \<Rightarrow> mgr_op list \<Rightarrow> 'd VmManager \<Rightarrow> 'd VmManager" where
  "mgr_run D ops m = fold (mgr_exec D) ops m"

definition valid_name :: "string \<Rightarrow> bool" where
  "valid_name n \<longleftrightarrow> n \<noteq> [] \<and> length n \<le> 128 \<and> list_all name_char n
     \<and> hd n \<noteq> CHR ''.'' \<and> hd n \<noteq> CHR ''-''"

definition mgr_inv :: "('d \<Rightarrow> bool) \<Rightarrow> 'd VmManager \<Rightarrow> bool" where
  "mgr_inv dinv m \<longleftrightarrow> dinv (mgr_driver m) \<and> finite (dom (mgr_vms m))
     \<and> (\<forall>n h. mgr_vms m n = Some h \<longrightarrow> h_name h = n \<and> valid_name n)"

lemma validate_valid_name: "validate c = Ok () \<Longrightarrow> valid_name (cfg_name c)"
  by (simp add: validate_Ok_iff valid_name_def)

lemma valid_name_dir:
  assumes "valid_name n" and "mgr_base_dir m \<noteq> []"
  shows "vm_dir m n = mgr_base_dir m @ [Normal n]"
proof -
  have "CHR ''/'' \<notin> set n"
    using assms(1) by (metis list_all_iff not_name_char_slash valid_name_def)
  then show ?thesis
    using assms by (simp add: vm_dir_def path_of_plain_name valid_name_def)
qed

lemma mgr_inv_cached_state:
  "mgr_inv dinv m \<Longrightarrow> update_cached_state n s m = (r, m') \<Longrightarrow> mgr_inv dinv m'"
  by (auto simp: mgr_inv_def update_cached_state_def split: if_splits option.splits)

lemma mgr_inv_driver: "mgr_inv dinv m \<Longrightarrow> dinv d \<Longrightarrow> mgr_inv dinv (m\<lparr>mgr_driver := d\<rparr>)"
  by (simp add: mgr_inv_def)

lemma wait_loop_preserves:
  assumes "\<And>ns b m. P m \<Longrightarrow> P (snd (poll_round D ns b m))" and "P m"
  shows "P (snd (wait_loop D iter cost t k e m))"
  using assms
proof (induction D iter cost t k e m rule: wait_loop.induct)
  case (1 D iter cost t k e m)
  obtain r m' where r: "poll_round D (iter k (mgr_vms m)) True m = (r, m')" by fastforce
  have P': "P m'" using 1(2) [OF 1(3)] r by (metis snd_conv)
  have "P (snd w)" if "wait_turn D (iter k) (cost k) t e m = Inl w" for w
    using that 1(3) P' r
    by (auto simp: wait_turn_def Let_def vm_names_def split: if_splits result.splits bool.splits)
  moreover have "m1 = m'" if "wait_turn D (iter k) (cost k) t e m = Inr (e1, m1)" for e1 m1
    using that r
    by (auto simp: wait_turn_def Let_def vm_names_def split: if_splits result.splits bool.splits)
  ultimately show ?case
    using 1(1) [OF _ refl 1(2)] P' by (subst wait_loop.simps) (auto split: sum.split)
qed

context vm_driver
begin

lemma inv_drive:
  assumes "mgr_inv dinv m" and "\<And>d. dinv d \<Longrightarrow> dinv (snd (f h d))"
  shows "mgr_inv dinv (snd (mgr_drive f h n s m))"
proof -
  obtain r d where fd: "f h (mgr_driver m) = (r, d)" by fastforce
  have "dinv d" using assms fd by (metis mgr_inv_def snd_conv)
  then have m': "mgr_inv dinv (m\<lparr>mgr_driver := d\<rparr>)" using assms(1) by (rule mgr_inv_driver [rotated])
  then show ?thesis
    by (cases r) (auto simp: mgr_drive_def fd mgr_inv_cached_state [OF _ surjective_pairing])
qed

lemma inv_state:
  assumes "mgr_inv dinv m"
  shows "mgr_inv dinv (snd (mgr_state drv n m))"
proof (cases "get_handle m n")
  case (Ok h)
  obtain r d where fd: "drv_state drv h (mgr_driver m) = (r, d)" by fastforce
  have "dinv d" using assms fd state_inv by (metis mgr_inv_def snd_conv)
  then have m': "mgr_inv dinv (m\<lparr>mgr_driver := d\<rparr>)" using assms by (rule mgr_inv_driver [rotated])
  then show ?thesis
    by (cases r) (auto simp: mgr_state_def Ok fd split: prod.split result.split
        dest: mgr_inv_cached_state)
qed (simp add: mgr_state_def assms)

lemma inv_resume:
  assumes "mgr_inv dinv m"
  shows "mgr_inv dinv (snd (mgr_resume drv n m))"
proof (cases "get_handle m n")
  case (Ok h)
  obtain r d where r: "drv_resume drv h (mgr_driver m) = (r, d)" by fastforce
  obtain s d' where s: "drv_state drv h d = (s, d')" by fastforce
  have d: "dinv d" using assms r resume_inv by (metis mgr_inv_def snd_conv)
  then have d': "dinv d'" using s state_inv by (metis snd_conv)
  show ?thesis
    using mgr_inv_driver [OF assms d] mgr_inv_driver [OF assms d']
    by (cases r; cases s) (auto simp: mgr_resume_def Ok r s
        mgr_inv_cached_state [OF _ surjective_pairing])
qed (simp add: mgr_resume_def assms)

lemma inv_boot_reserved:
  assumes "mgr_inv dinv m" and "validate c = Ok ()"
  shows "mgr_inv dinv (snd (boot_reserved drv c m))"
proof -
  obtain r d where b: "drv_boot drv c (mgr_driver m) = (r, d)" by fastforce
  have "dinv d" using assms b boot_inv by (metis mgr_inv_def snd_conv)
  moreover have "h_name h = cfg_name c" if "r = Ok h" for h using b that by (simp add: boot_name)
  ultimately show ?thesis
    using assms validate_valid_name [OF assms(2)]
    by (cases r) (auto simp: boot_reserved_def b mgr_commit_def mgr_release_def mgr_inv_def)
qed

lemma inv_reserve:
  assumes "mgr_inv dinv m" and "validate c = Ok ()" and "mgr_reserve c m = (r, m')"
  shows "mgr_inv dinv m'"
  using assms validate_valid_name [OF assms(2)]
  by (auto simp: mgr_reserve_def mgr_inv_def reservation_def split: if_splits option.splits)

lemma inv_start:
  assumes "mgr_inv dinv m"
  shows "mgr_inv dinv (snd (mgr_start drv c m))"
proof (cases "validate c")
  case (Ok u)
  then have v: "validate c = Ok ()" by simp
  obtain r m1 where m1: "mgr_reserve c m = (r, m1)" by fastforce
  have i1: "mgr_inv dinv m1" using assms v m1 by (rule inv_reserve)
  obtain r2 w where w: "fs_create_dir_all (vm_dir m1 (cfg_name c)) (mgr_fs m1) = (r2, w)" by fastforce
  have iw: "mgr_inv dinv (m1\<lparr>mgr_fs := w\<rparr>)" using i1 by (simp add: mgr_inv_def)
  then have "mgr_inv dinv (snd (mgr_release c e (m1\<lparr>mgr_fs := w\<rparr>)))" for e
    by (auto simp: mgr_release_def mgr_inv_def)
  with iw i1 show ?thesis
    by (cases r; cases r2) (simp_all add: mgr_start_def v m1 w inv_boot_reserved [OF iw v])
qed (simp add: mgr_start_def assms)

lemma inv_poll_round:
  "mgr_inv dinv m \<Longrightarrow> mgr_inv dinv (snd (poll_round drv ns b m))"
proof (induction ns arbitrary: b m)
  case (Cons n ns)
  obtain r m' where s: "mgr_state drv n m = (r, m')" by fastforce
  have "mgr_inv dinv m'" using inv_state [OF Cons.prems, of n] s by simp
  then show ?case
    using Cons.IH s by (auto split: result.split VmState.split)
qed simp

lemma inv_wait_loop:
  "mgr_inv dinv m \<Longrightarrow> mgr_inv dinv (snd (wait_loop drv iter cost t k e m))"
  by (rule wait_loop_preserves) (auto intro: inv_poll_round)

lemma inv_exec: "mgr_inv dinv m \<Longrightarrow> mgr_inv dinv (mgr_exec drv op m)"
proof (cases op)
  case (OpGetIp n)
  assume "mgr_inv dinv m"
  then have "mgr_inv dinv (snd (mgr_state drv n m))" by (rule inv_state)
  then show ?thesis by (auto simp: OpGetIp get_ip_def split: prod.split result.split)
qed (auto simp: mgr_stop_def mgr_kill_def stop_by_handle_def kill_by_handle_def mgr_pause_def
      wait_all_ready_def method_inv
      intro: inv_start inv_drive inv_resume inv_state inv_wait_loop split: result.split)

lemma inv_run: "mgr_inv dinv m \<Longrightarrow> mgr_inv dinv (mgr_run drv ops m)"
  unfolding mgr_run_def by (induction ops arbitrary: m) (simp_all add: inv_exec)

end
section \<open>The manager's guarantees\<close>

text \<open>A driver used by the manager's own tests: every VM is running at the first poll and
  ready from the second on; its state is the number of polls.\<close>

definition ready_after_two_polls :: "nat VmDriver" where
  "ready_after_two_polls =
     \<lparr>drv_boot = (\<lambda>c d. (Ok (reservation c), d)),
      drv_stop = (\<lambda>h d. (Ok (), d)),
      drv_kill = (\<lambda>h d. (Ok (), d)),
      drv_state = (\<lambda>h d. (Ok (if d = 0 then Running else Ready ''10.0.0.2''), Suc d)),
      drv_pause = default_pause,
      drv_resume = default_resume\<rparr>"

definition sample_config :: VmConfig where
  "sample_config = \<lparr>cfg_name = ''vm1'', cfg_namespace = ''tests'', cfg_kernel = [Normal ''k''],
     cfg_initramfs = None, cfg_root_disk = None, cfg_data_disk = None, cfg_seed_iso = None,
     cfg_cpus = 1, cfg_memory_mb = 256, cfg_networks = [], cfg_shared_dirs = [],
     cfg_serial_log = [Normal ''serial.log''], cfg_cmdline = None, cfg_netns = None,
     cfg_vsock = False, cfg_machine_id = None, cfg_efi_variable_store = None,
     cfg_rosetta = False\<rparr>"

definition sample_manager :: "nat VmManager" where
  "sample_manager = \<lparr>mgr_driver = 0, mgr_vms = Map.empty, mgr_base_dir = [RootDir, Normal ''vms''],
     mgr_fs = quiet_fs, mgr_poisoned = False\<rparr>"

lemma sample_config_valid: "validate sample_config = Ok ()"
  by (simp add: validate_Ok_iff sample_config_def name_char_def is_ascii_alphanumeric_def
      is_ascii_alphabetic_def is_ascii_digit_def)

lemma sample_config_name [simp]: "cfg_name sample_config = ''vm1''"
  by (simp add: sample_config_def)

lemma sample_manager_sel [simp]:
  "mgr_driver sample_manager = 0" "mgr_vms sample_manager = Map.empty"
  "mgr_base_dir sample_manager = [RootDir, Normal ''vms'']"
  "mgr_fs sample_manager = quiet_fs" "\<not> mgr_poisoned sample_manager"
  by (simp_all add: sample_manager_def)

lemma sample_start:
  "mgr_start ready_after_two_polls sample_config sample_manager =
     (Ok (reservation sample_config),
      snd (mgr_start ready_after_two_polls sample_config sample_manager))"
  by (simp add: mgr_start_def sample_config_valid mgr_reserve_def boot_reserved_def mgr_commit_def
      fs_create_dir_all_def quiet_fs_def ready_after_two_polls_def)

text \<open>Whether a VM of that name may be booted: there is none, or it has stopped or failed.\<close>

definition may_start :: "'d VmManager \<Rightarrow> VmConfig \<Rightarrow> bool" where
  "may_start m c \<longleftrightarrow> (case mgr_vms m (cfg_name c) of None \<Rightarrow> True
     | Some h \<Rightarrow> h_state h = Stopped \<or> (case h_state h of Failed _ \<Rightarrow> True | _ \<Rightarrow> False))"

lemma mgr_reserve_may_start:
  "mgr_reserve c m = (Ok u, m') \<Longrightarrow> may_start m c"
  "mgr_reserve c m = (Err e, m') \<Longrightarrow> \<not> mgr_poisoned m \<Longrightarrow>
     \<exists>h. mgr_vms m (cfg_name c) = Some h \<and> \<not> may_start m c
       \<and> e = BootFailed (cfg_name c) (''VM already exists in state: '' @ vm_state_display (h_state h))"
  by (auto simp: mgr_reserve_def may_start_def elim!: restartable.elims split: option.splits if_splits VmState.splits)

text \<open>C31: the outcome of \<open>start\<close> on every branch.  It succeeds only for a valid configuration whose name is
  free or belongs to a VM that has stopped or failed; then the driver has booted it, its handle is
  filed under the name, and the VM's directory exists.  When it fails, either nothing has changed,
  and the error is that of the validation, the poisoned lock, or \<open>BootFailed\<close> with the state of the live
  VM of that name; or the name has been reserved and given up again, and the error is that of
  creating the directory, with the driver untouched, or of the driver's \<open>boot\<close>.\<close>

theorem mgr_start_outcome:
  assumes "mgr_start D c m = (r, m')"
  shows "case r of
      Ok h \<Rightarrow> \<not> mgr_poisoned m \<and> validate c = Ok () \<and> may_start m c
        \<and> drv_boot D c (mgr_driver m) = (Ok h, mgr_driver m')
        \<and> mgr_vms m' = (mgr_vms m)(cfg_name c \<mapsto> h)
        \<and> vm_dir m (cfg_name c) \<in> fs_dirs (mgr_fs m')
    | Err e \<Rightarrow>
        m' = m \<and> (validate c = Err e
           \<or> validate c = Ok () \<and> mgr_poisoned m \<and> e = lock_poisoned
           \<or> validate c = Ok () \<and> \<not> mgr_poisoned m \<and> \<not> may_start m c
             \<and> (\<exists>h. mgr_vms m (cfg_name c) = Some h
                  \<and> e = BootFailed (cfg_name c) (''VM already exists in state: '' @ vm_state_display (h_state h))))
        \<or> \<not> mgr_poisoned m \<and> validate c = Ok () \<and> may_start m c
          \<and> mgr_vms m' = (mgr_vms m)(cfg_name c := None)
          \<and> (mgr_driver m' = mgr_driver m
              \<and> (\<exists>i. fst (fs_create_dir_all (vm_dir m (cfg_name c)) (mgr_fs m)) = Err i \<and> e = Io i)
             \<or> is_ok (fst (fs_create_dir_all (vm_dir m (cfg_name c)) (mgr_fs m)))
              \<and> drv_boot D c (mgr_driver m) = (Err e, mgr_driver m'))"
proof (cases "validate c")
  case (Ok u)
  obtain r1 m1 where m1: "mgr_reserve c m = (r1, m1)" by fastforce
  show ?thesis
  proof (cases r1)
    case (Err e)
    then have "m1 = m" "r = Err e" "m' = m"
      using assms Ok m1 by (auto simp: mgr_start_def dest: mgr_reserve_Err)
    then show ?thesis
      using Ok Err m1 mgr_reserve_may_start(2) [of c m e m]
      by (cases "mgr_poisoned m") (auto simp: mgr_reserve_def)
  next
    case (Ok u')
    then have m1': "m1 = m\<lparr>mgr_vms := (mgr_vms m)(cfg_name c \<mapsto> reservation c)\<rparr>" "\<not> mgr_poisoned m"
      using m1 by (simp_all add: mgr_reserve_Ok_iff)
    have may: "may_start m c" using m1 Ok mgr_reserve_may_start(1) by blast
    obtain r2 w where w: "fs_create_dir_all (vm_dir m (cfg_name c)) (mgr_fs m) = (r2, w)" by fastforce
    obtain r3 d where b: "drv_boot D c (mgr_driver m) = (r3, d)" by fastforce
    have dir: "vm_dir m1 n = vm_dir m n" for n by (simp add: m1' vm_dir_def)
    show ?thesis
      using assms \<open>validate c = Ok u\<close> m1 Ok w b may m1'(2)
      by (cases r2; cases r3)
        (auto simp: mgr_start_def m1'(1) dir [unfolded m1'(1)] boot_reserved_def mgr_release_def
          mgr_commit_def is_ok_def dest: fs_create_dir_all_ok)
  qed
qed (use assms in \<open>auto simp: mgr_start_def\<close>)

theorem mgr_start_outcome_witness:
  "mgr_vms (snd (mgr_start ready_after_two_polls sample_config sample_manager)) ''vm1''
     = Some (reservation sample_config)"
  using mgr_start_outcome [OF sample_start]
  by (simp add: sample_config_def)

text \<open>A VM that is tracked and neither stopped nor failed is not booted again: \<open>start\<close> fails
  with \<open>BootFailed\<close> naming its state, and neither the table nor the driver is touched.\<close>

theorem mgr_start_live_refused:
  assumes "\<not> mgr_poisoned m" and "validate c = Ok ()"
    and "mgr_vms m (cfg_name c) = Some h" and "\<not> restartable (h_state h)"
  shows "mgr_start D c m =
    (Err (BootFailed (cfg_name c)
      (''VM already exists in state: '' @ vm_state_display (h_state h))), m)"
  using assms by (simp add: mgr_start_def mgr_reserve_def)

theorem mgr_start_live_refused_witness:
  "\<exists>e. mgr_start ready_after_two_polls sample_config
      (sample_manager\<lparr>mgr_vms := [''vm1'' \<mapsto> reservation sample_config]\<rparr>) =
    (Err e, sample_manager\<lparr>mgr_vms := [''vm1'' \<mapsto> reservation sample_config]\<rparr>)"
  using mgr_start_live_refused [of "sample_manager\<lparr>mgr_vms := [''vm1'' \<mapsto> reservation sample_config]\<rparr>"
      sample_config "reservation sample_config" ready_after_two_polls] sample_config_valid
  by (simp add: reservation_def sample_config_def)

text \<open>A stopped VM can be started again: after a successful \<open>stop\<close> or \<open>kill\<close> the VM is
  still tracked, its cached state is \<open>Stopped\<close>, and the reservation of a new boot of that
  name succeeds.\<close>

theorem mgr_stop_allows_restart:
  assumes "mgr_stop D n m = (Ok (), m') \<or> mgr_kill D n m = (Ok (), m')" and "cfg_name c = n"
  shows "\<exists>h. mgr_vms m n = Some h \<and> mgr_vms m' n = Some (h\<lparr>h_state := Stopped\<rparr>)
    \<and> fst (mgr_reserve c m') = Ok ()"
proof -
  obtain f h where h: "\<not> mgr_poisoned m" "mgr_vms m n = Some h"
    and d: "mgr_drive f h n Stopped m = (Ok (), m')"
    using assms(1)
    by (auto simp: mgr_stop_def mgr_kill_def get_handle_def ok_or_def split: if_splits option.splits)
  have "mgr_vms m' n = Some (h\<lparr>h_state := Stopped\<rparr>)" using d h(2) by (rule mgr_drive_Ok)
  moreover have "\<not> mgr_poisoned m'" using h(1) mgr_drive_frame [OF d] by simp
  ultimately show ?thesis using h assms(2) by (simp add: mgr_reserve_def)
qed

theorem mgr_stop_allows_restart_witness:
  "\<exists>m'. mgr_stop ready_after_two_polls ''vm1''
       (sample_manager\<lparr>mgr_vms := [''vm1'' \<mapsto> reservation sample_config]\<rparr>) = (Ok (), m')
     \<and> fst (mgr_reserve sample_config m') = Ok ()"
proof -
  define m where "m = sample_manager\<lparr>mgr_vms := [''vm1'' \<mapsto> reservation sample_config]\<rparr>"
  have "\<exists>m'. mgr_stop ready_after_two_polls ''vm1'' m = (Ok (), m')"
    by (simp add: m_def mgr_stop_def get_handle_def mgr_drive_def update_cached_state_def
        ready_after_two_polls_def)
  then obtain m' where m': "mgr_stop ready_after_two_polls ''vm1'' m = (Ok (), m')" by blast
  have "fst (mgr_reserve sample_config m') = Ok ()"
    using mgr_stop_allows_restart [OF disjI1 [OF m'], of sample_config] by auto
  then show ?thesis using m' by (auto simp: m_def)
qed

subsection \<open>Waiting\<close>

definition all_cached_ready :: "'d VmManager \<Rightarrow> string set \<Rightarrow> bool" where
  "all_cached_ready m N \<longleftrightarrow> (\<forall>n \<in> N. \<exists>h. mgr_vms m n = Some h \<and> is_ready (h_state h))"

lemma poll_round_frame:
  "poll_round D ns b m = (r, m') \<Longrightarrow>
     mgr_poisoned m' = mgr_poisoned m \<and> dom (mgr_vms m') = dom (mgr_vms m)
     \<and> (\<forall>k. k \<notin> set ns \<longrightarrow> mgr_vms m' k = mgr_vms m k)"
proof (induction ns arbitrary: b m)
  case (Cons n ns)
  obtain r1 m1 where s: "mgr_state D n m = (r1, m1)" by fastforce
  note f = mgr_state_frame [OF s]
  show ?case
  proof (cases r1)
    case (Ok st)
    then consider b' where "poll_round D ns b' m1 = (r, m')" | "m' = m1"
      using Cons.prems s by (cases st) auto
    then show ?thesis
    proof cases
      case 1
      from Cons.IH [OF this] f show ?thesis by auto
    qed (use f in auto)
  qed (use Cons.prems s f in auto)
qed simp

text \<open>A round that answers \<open>True\<close> has seen every VM ready; one that answers \<open>False\<close> has left
  some VM with a cached state that is not ready.\<close>

lemma poll_round_True:
  "poll_round D ns b m = (Ok True, m') \<Longrightarrow> distinct ns \<Longrightarrow> b \<and> all_cached_ready m' (set ns)"
proof (induction ns arbitrary: b m)
  case (Cons n ns)
  obtain s m1 where s: "mgr_state D n m = (Ok s, m1)"
    using Cons.prems by (auto split: prod.splits result.splits)
  from mgr_state_Ok [OF s] obtain h where h: "mgr_vms m1 n = Some h" "h_state h = s"
    by (metis VmHandle.select_convs(3) VmHandle.surjective VmHandle.update_convs(3) fun_upd_same)
  obtain b' where p: "poll_round D ns b' m1 = (Ok True, m')" and b': "b' \<longrightarrow> b \<and> is_ready s"
    using Cons.prems(1) s by (cases s) auto
  have "mgr_vms m' n = Some h"
    using poll_round_frame [OF p] Cons.prems(2) h(1) by auto
  then show ?case
    using Cons.IH [OF p] Cons.prems(2) b' h(2) by (auto simp: all_cached_ready_def)
qed (simp add: all_cached_ready_def)

lemma poll_round_False:
  "poll_round D ns b m = (Ok False, m') \<Longrightarrow> distinct ns \<Longrightarrow> \<not> b \<or> \<not> all_cached_ready m' (set ns)"
proof (induction ns arbitrary: b m)
  case (Cons n ns)
  obtain s m1 where s: "mgr_state D n m = (Ok s, m1)"
    using Cons.prems by (auto split: prod.splits result.splits)
  from mgr_state_Ok [OF s] obtain h where h: "mgr_vms m1 n = Some h" "h_state h = s"
    by (metis VmHandle.select_convs(3) VmHandle.surjective VmHandle.update_convs(3) fun_upd_same)
  obtain b' where p: "poll_round D ns b' m1 = (Ok False, m')" and b': "b \<longrightarrow> b' \<or> \<not> is_ready s"
    using Cons.prems(1) s by (cases s) auto
  have "mgr_vms m' n = Some h"
    using poll_round_frame [OF p] Cons.prems(2) h(1) by auto
  then show ?case
    using Cons.IH [OF p] Cons.prems(2) b' h(2) by (auto simp: all_cached_ready_def)
qed simp

text \<open>The manager after a number of state queries that the driver answered; and a query it did not
  answer.\<close>

inductive queried :: "'d VmDriver \<Rightarrow> 'd VmManager \<Rightarrow> 'd VmManager \<Rightarrow> bool" for D m where
  none: "queried D m m"
| more: "queried D m m1 \<Longrightarrow> mgr_state D n m1 = (Ok s, m2) \<Longrightarrow> queried D m m2"

definition query_failed :: "'d VmDriver \<Rightarrow> 'd VmManager \<Rightarrow> 'd VmManager \<Rightarrow> VmError \<Rightarrow> bool" where
  "query_failed D m m' e \<longleftrightarrow> (\<exists>m1 n h d. queried D m m1 \<and> mgr_vms m1 n = Some h
     \<and> drv_state D h (mgr_driver m1) = (Err e, d) \<and> m' = m1\<lparr>mgr_driver := d\<rparr>)"

definition vm_failed :: "'d VmManager \<Rightarrow> VmError \<Rightarrow> bool" where
  "vm_failed m e \<longleftrightarrow> (\<exists>n h reason. mgr_vms m n = Some h \<and> h_state h = Failed reason \<and> e = BootFailed n reason)"

lemma mgr_state_Err:
  assumes "mgr_state D n m = (Err e, m')" "\<not> mgr_poisoned m" "n \<in> dom (mgr_vms m)"
  shows "query_failed D m m' e"
proof -
  obtain h where h: "mgr_vms m n = Some h" using assms(3) by auto
  then have "\<exists>d. drv_state D h (mgr_driver m) = (Err e, d) \<and> m' = m\<lparr>mgr_driver := d\<rparr>"
    using assms(1,2)
    by (auto simp: mgr_state_def get_handle_def update_cached_state_def split: result.splits prod.splits)
  then show ?thesis using h queried.none [of D m] by (auto simp: query_failed_def)
qed

lemma poll_round_queried: "queried D m0 m \<Longrightarrow> poll_round D ns b m = (Ok b', m') \<Longrightarrow> queried D m0 m'"
proof (induction ns arbitrary: b m)
  case (Cons n ns)
  obtain s m1 where s: "mgr_state D n m = (Ok s, m1)"
    using Cons.prems by (auto split: prod.splits result.splits)
  then show ?case
    using Cons queried.more [OF Cons.prems(1) s] by (cases s) auto
qed simp

lemma query_failed_queried: "queried D m0 m \<Longrightarrow> query_failed D m m' e \<Longrightarrow> query_failed D m0 m' e"
proof -
  have "queried D m0 m1" if "queried D m m1" "queried D m0 m" for m1
    using that by (induction rule: queried.induct) (auto intro: queried.more)
  then show "queried D m0 m \<Longrightarrow> query_failed D m m' e \<Longrightarrow> query_failed D m0 m' e"
    unfolding query_failed_def by blast
qed

lemma poll_round_Err:
  "poll_round D ns b m = (Err e, m') \<Longrightarrow> queried D m0 m \<Longrightarrow> \<not> mgr_poisoned m \<Longrightarrow> set ns \<subseteq> dom (mgr_vms m) \<Longrightarrow>
     query_failed D m0 m' e \<or> queried D m0 m' \<and> vm_failed m' e"
proof (induction ns arbitrary: b m)
  case (Cons n ns)
  obtain r m1 where s: "mgr_state D n m = (r, m1)" by fastforce
  show ?case
  proof (cases r)
    case (Ok st)
    from mgr_state_Ok [OF s [unfolded Ok]] obtain h where h: "mgr_vms m1 n = Some (h\<lparr>h_state := st\<rparr>)"
      "\<not> mgr_poisoned m1" by auto
    have q: "queried D m0 m1" using Cons.prems(2) s Ok by (auto intro: queried.more)
    have "set ns \<subseteq> dom (mgr_vms m1)" using Cons.prems(4) mgr_state_frame [OF s] by auto
    then show ?thesis using Cons.IH [of _ m1] Cons.prems(1) s Ok h q by (cases st) (auto simp: vm_failed_def)
  next
    case (Err e')
    then have "query_failed D m m' e" using Cons.prems s mgr_state_Err by fastforce
    then show ?thesis using Cons.prems(2) query_failed_queried by blast
  qed
qed simp

text \<open>The iteration order of a \<open>HashMap\<close>: any order that lists each key once.\<close>

definition iterates :: "key_order \<Rightarrow> bool" where
  "iterates iter \<longleftrightarrow> (\<forall>vms. finite (dom vms) \<longrightarrow> set (iter vms) = dom vms \<and> distinct (iter vms))"

definition sorted_keys :: key_order where
  "sorted_keys vms = sorted_list_of_set (dom vms)"

lemma iterates_sorted_keys: "iterates sorted_keys"
  by (simp add: iterates_def sorted_keys_def)

text \<open>When the \<open>k\<close>-th turn of the loop starts.\<close>

definition turn_start :: "(nat \<Rightarrow> nat) \<Rightarrow> nat \<Rightarrow> nat" where
  "turn_start cost k = (\<Sum>i<k. cost i + 1000)"

definition timed_out :: "(nat \<Rightarrow> nat) \<Rightarrow> nat \<Rightarrow> 'd VmManager \<Rightarrow> VmError \<Rightarrow> bool" where
  "timed_out cost timeout m e \<longleftrightarrow> (\<exists>k. timeout < turn_start cost k)
     \<and> (\<exists>ns. ns \<noteq> [] \<and> distinct ns \<and> set ns = {n. \<exists>h. mgr_vms m n = Some h \<and> \<not> is_ready (h_state h)}
          \<and> e = wait_timeout_error ns)"

definition wait_error ::
  "'d VmDriver \<Rightarrow> (nat \<Rightarrow> nat) \<Rightarrow> nat \<Rightarrow> 'd VmManager \<Rightarrow> 'd VmManager \<Rightarrow> VmError \<Rightarrow> bool" where
  "wait_error D cost timeout m m' e \<longleftrightarrow>
     (if mgr_poisoned m then m' = m \<and> e = lock_poisoned
      else query_failed D m m' e
        \<or> queried D m m' \<and> (vm_failed m' e \<or> timed_out cost timeout m' e))"

lemma wait_loop_step:
  assumes "\<not> t < elapsed" and "\<not> mgr_poisoned m"
    and "poll_round D (iter k (mgr_vms m)) True m = (r1, m1)"
  shows "wait_loop D iter cost t k elapsed m =
    (case r1 of Err e \<Rightarrow> (Err e, m1)
     | Ok b \<Rightarrow> if b then (Ok (), m1)
             else wait_loop D iter cost t (Suc k) (elapsed + cost k + 1000) m1)"
proof -
  have "is_ok (pending_names (iter k) is_ready m1)"
    using poll_round_frame [OF assms(3)] assms(2) by (simp add: pending_names_def)
  then show ?thesis
    using assms by (subst wait_loop.simps) (auto simp: wait_turn_def vm_names_def Let_def split: result.split bool.split)
qed

lemma wait_loop_result:
  assumes "\<And>k. iterates (iter k)" and "finite (dom (mgr_vms m))"
    and "t < elapsed \<Longrightarrow> \<not> all_cached_ready m (dom (mgr_vms m))"
    and "wait_loop D iter cost t k elapsed m = (r, m')"
    and "queried D m0 m" "mgr_poisoned m0 = mgr_poisoned m" "mgr_poisoned m \<Longrightarrow> m0 = m" "elapsed = turn_start cost k"
  shows "case r of Ok u \<Rightarrow> all_cached_ready m' (dom (mgr_vms m')) | Err e \<Rightarrow> wait_error D cost t m0 m' e"
  using assms
proof (induction D iter cost t k elapsed m rule: wait_loop.induct)
  case (1 D iter cost t k elapsed m)
  have it: "set (iter k (mgr_vms m)) = dom (mgr_vms m)" "distinct (iter k (mgr_vms m))"
    using 1(2,3) by (simp_all add: iterates_def)
  note unfolded = 1(5) [unfolded wait_loop.simps [of D iter cost t k elapsed m] wait_turn_def]
  show ?case
  proof (cases "t < elapsed \<or> mgr_poisoned m")
    case True
    define ns where "ns = filter (\<lambda>n. case mgr_vms m n of None \<Rightarrow> False
      | Some h \<Rightarrow> \<not> is_ready (h_state h)) (iter k (mgr_vms m))"
    have set_ns: "set ns = {n. \<exists>h. mgr_vms m n = Some h \<and> \<not> is_ready (h_state h)}" "distinct ns"
      using it by (auto simp: ns_def split: option.splits)
    show ?thesis
    proof (cases "mgr_poisoned m")
      case True
      then show ?thesis
        using unfolded 1(7,8) by (auto simp: pending_names_def vm_names_def wait_error_def split: if_splits)
    next
      case no: False
      have ne: "ns \<noteq> []"
        using 1(4) True no set_ns by (force simp: all_cached_ready_def)
      have r: "r = Err (wait_timeout_error ns)" "m' = m"
        using unfolded True no by (auto simp: pending_names_def ns_def)
      have "timed_out cost t m (wait_timeout_error ns)"
        using ne set_ns True no 1(9) unfolding timed_out_def by blast
      then show ?thesis
        using no 1(6,7) by (simp add: r wait_error_def)
    qed
  next
    case False
    obtain r1 m1 where p: "poll_round D (iter k (mgr_vms m)) True m = (r1, m1)" by fastforce
    note f = poll_round_frame [OF p]
    have u: "(case r1 of Err e \<Rightarrow> (Err e, m1)
       | Ok b \<Rightarrow> if b then (Ok (), m1)
               else wait_loop D iter cost t (Suc k) (elapsed + cost k + 1000) m1) = (r, m')"
      using wait_loop_step [of t elapsed m D iter k r1 m1 cost] False p 1(5) by simp
    show ?thesis
    proof (cases r1)
      case (Err e)
      have "wait_error D cost t m0 m1 e"
        using poll_round_Err [OF p [unfolded Err] 1(6)] False it 1(7) unfolding wait_error_def by auto
      then show ?thesis using u Err by auto
    next
      case (Ok b)
      have q: "queried D m0 m1" using poll_round_queried [OF 1(6)] p Ok by blast
      show ?thesis
      proof (cases b)
        case True
        then show ?thesis
          using u Ok p it f poll_round_True [of D "iter k (mgr_vms m)" True m m1] by auto
      next
        case no: False
        have nr: "\<not> all_cached_ready m1 (dom (mgr_vms m1))"
          using p Ok no it f poll_round_False [of D "iter k (mgr_vms m)" True m m1] by auto
        have next_loop: "wait_loop D iter cost t (Suc k) (elapsed + cost k + 1000) m1 = (r, m')"
          using u Ok no by simp
        show ?thesis
          by (rule 1(1) [OF _ refl 1(2) _ nr next_loop q])
            (use False Ok no f p 1(3,7,9) in
              \<open>simp_all add: wait_turn_def Let_def vm_names_def pending_names_def turn_start_def\<close>)
      qed
    qed
  qed
qed

lemma wait_all_ready_result:
  assumes "\<And>k. iterates (iter k)" and "finite (dom (mgr_vms m))"
    and "wait_all_ready D iter cost t m = (r, m')"
  shows "case r of Ok u \<Rightarrow> all_cached_ready m' (dom (mgr_vms m'))
    | Err e \<Rightarrow> wait_error D cost (1000 * t) m m' e"
  by (rule wait_loop_result [OF assms(1,2) _ assms(3) [unfolded wait_all_ready_def]])
    (simp_all add: queried.none turn_start_def)

text \<open>C32: when \<open>wait_all_ready\<close> returns \<open>Ok\<close>, every VM the manager tracks has reported readiness,
  whatever the driver, the iteration order of the table and the timing.\<close>

theorem wait_all_ready_Ok:
  assumes "\<And>k. iterates (iter k)" and "finite (dom (mgr_vms m))"
    and "wait_all_ready D iter cost t m = (Ok (), m')"
  shows "all_cached_ready m' (dom (mgr_vms m'))"
  using wait_all_ready_result [OF assms] by simp


text \<open>The loop with a bound on its turns; \<open>None\<close> when they are used up.\<close>

primrec wait_turns ::
  "nat \<Rightarrow> 'd VmDriver \<Rightarrow> (nat \<Rightarrow> key_order) \<Rightarrow> (nat \<Rightarrow> nat) \<Rightarrow> nat \<Rightarrow> nat \<Rightarrow> nat \<Rightarrow> 'd VmManager
   \<Rightarrow> ((unit, VmError) result \<times> 'd VmManager) option" where
  "wait_turns 0 D iter cost timeout k elapsed m = None"
| "wait_turns (Suc n) D iter cost timeout k elapsed m =
     (case wait_turn D (iter k) (cost k) timeout elapsed m of
        Inl r \<Rightarrow> Some r
      | Inr (elapsed', m') \<Rightarrow> wait_turns n D iter cost timeout (Suc k) elapsed' m')"

lemma wait_turns_enough:
  "timeout < elapsed + 1000 * n \<Longrightarrow>
     wait_turns (Suc n) D iter cost timeout k elapsed m = Some (wait_loop D iter cost timeout k elapsed m)"
proof (induction n arbitrary: k elapsed m)
  case (Suc n)
  then show ?case
    by (subst wait_loop.simps)
      (auto simp del: wait_turns.simps(2) simp add: wait_turns.simps(2) [of "Suc n"]
        dest!: wait_turn_again intro!: Suc.IH split: sum.split)
qed (subst wait_loop.simps, auto dest!: wait_turn_again split: sum.split)

lemma wait_turns_mono:
  "wait_turns n D iter cost timeout k elapsed m = Some r \<Longrightarrow> n \<le> n' \<Longrightarrow>
     wait_turns n' D iter cost timeout k elapsed m = Some r"
proof (induction n arbitrary: k elapsed m n')
  case (Suc n)
  then show ?case by (cases n') (auto split: sum.splits)
qed simp

text \<open>A driver whose VMs run but never become ready.\<close>

definition never_ready :: "nat VmDriver" where
  "never_ready = ready_after_two_polls\<lparr>drv_state := (\<lambda>h d. (Ok Running, d))\<rparr>"

definition waiting_manager :: "nat VmManager" where
  "waiting_manager = sample_manager\<lparr>mgr_vms := [''vm1'' \<mapsto> (reservation sample_config)\<lparr>h_state := Running\<rparr>]\<rparr>"

lemma never_ready_turn:
  "elapsed \<le> timeout \<Longrightarrow>
     wait_turn never_ready sorted_keys 0 timeout elapsed waiting_manager = Inr (elapsed + 1000, waiting_manager)"
  by (simp add: wait_turn_def vm_names_def sorted_keys_def mgr_state_def get_handle_def pending_names_def
      update_cached_state_def never_ready_def waiting_manager_def)

lemma never_ready_turns:
  "elapsed + 1000 * n \<le> timeout \<Longrightarrow>
     wait_turns (Suc n) never_ready (\<lambda>_. sorted_keys) (\<lambda>_. 0) timeout k elapsed waiting_manager = None"
proof (induction n arbitrary: k elapsed)
  case (Suc n)
  then show ?case by (subst wait_turns.simps(2)) (simp add: never_ready_turn del: wait_turns.simps(2))
qed (simp add: never_ready_turn)

text \<open>C34: \<open>wait_all_ready\<close> returns, whatever the driver answers and however long each round takes: after
  one turn per second of the timeout and two more it has returned, and more turns change
  nothing.  The bound is exact: with a driver that never reports readiness and takes no time
  to say so, one turn less is not enough.\<close>

theorem wait_all_ready_terminates:
  "wait_turns (timeout_secs + 2 + n) D iter cost (1000 * timeout_secs) 0 0 m
     = Some (wait_all_ready D iter cost timeout_secs m)
   \<and> wait_turns (timeout_secs + 1) never_ready (\<lambda>_. sorted_keys) (\<lambda>_. 0) (1000 * timeout_secs) 0 0 waiting_manager
     = None"
  using wait_turns_mono [OF wait_turns_enough [of "1000 * timeout_secs" 0 "Suc timeout_secs" D iter cost 0 m],
      of "timeout_secs + 2 + n"]
    never_ready_turns [of 0 timeout_secs "1000 * timeout_secs" 0]
  by (simp add: wait_all_ready_def)

lemma booted_sample_vms:
  "mgr_vms (sample_manager\<lparr>mgr_vms := [''vm1'' \<mapsto> reservation sample_config]\<rparr>)
     = [''vm1'' \<mapsto> reservation sample_config]"
  by simp

theorem wait_all_ready_Ok_witness:
  "\<exists>m'. wait_all_ready ready_after_two_polls (\<lambda>_. sorted_keys) (\<lambda>_. 0) 2
       (sample_manager\<lparr>mgr_vms := [''vm1'' \<mapsto> reservation sample_config]\<rparr>) = (Ok (), m')
     \<and> all_cached_ready m' (dom (mgr_vms m'))"
proof -
  let ?m = "sample_manager\<lparr>mgr_vms := [''vm1'' \<mapsto> reservation sample_config]\<rparr>"
  have "\<exists>m'. wait_all_ready ready_after_two_polls (\<lambda>_. sorted_keys) (\<lambda>_. 0) 2 ?m = (Ok (), m')"
    by (simp add: wait_all_ready_def wait_loop.simps wait_turn_def vm_names_def sorted_keys_def mgr_state_def
        get_handle_def update_cached_state_def ready_after_two_polls_def)
  then obtain m' where "wait_all_ready ready_after_two_polls (\<lambda>_. sorted_keys) (\<lambda>_. 0) 2 ?m = (Ok (), m')"
    by blast
  then show ?thesis
    using wait_all_ready_Ok [OF iterates_sorted_keys, of ?m ready_after_two_polls "\<lambda>_. 0" 2 m'] by simp
qed


end
