(* ===== verification/Manager_Conc.thy ===== *)
theory Manager_Conc
  imports Manager
begin

text \<open>
  Interleavings of the manager's methods.  \<open>start\<close> holds the lock only inside its critical
  sections, so between the reservation and the commit of a boot other calls run.  The state is
  the manager together with the boots in flight (reserved, not yet committed or released).
\<close>

record 'd msys =
  ms_mgr :: "'d VmManager"
  ms_boots :: "VmConfig list"

datatype mevent =
    Reserve VmConfig
  | Finish VmConfig
  | Call mgr_op

text \<open>The second half of \<open>start\<close>, after the reservation.\<close>

definition start_finish ::
  "'d VmDriver \<Rightarrow> VmConfig \<Rightarrow> 'd VmManager \<Rightarrow> (VmHandle, VmError) result \<times> 'd VmManager" where
  "start_finish D c m =
     (case fs_create_dir_all (vm_dir m (cfg_name c)) (mgr_fs m) of
        (Err e, w) \<Rightarrow> mgr_release c (Io e) (m\<lparr>mgr_fs := w\<rparr>)
      | (Ok _, w) \<Rightarrow> boot_reserved D c (m\<lparr>mgr_fs := w\<rparr>))"

inductive msys_step :: "'d VmDriver \<Rightarrow> 'd msys \<Rightarrow> mevent \<Rightarrow> 'd msys \<Rightarrow> bool" for D where
  reserved: "validate c = Ok () \<Longrightarrow> mgr_reserve c (ms_mgr s) = (Ok (), m') \<Longrightarrow>
     msys_step D s (Reserve c) (s\<lparr>ms_mgr := m', ms_boots := c # ms_boots s\<rparr>)"
| finished: "c \<in> set (ms_boots s) \<Longrightarrow> start_finish D c (ms_mgr s) = (r, m') \<Longrightarrow>
     msys_step D s (Finish c) (s\<lparr>ms_mgr := m', ms_boots := remove1 c (ms_boots s)\<rparr>)"
| called: "(\<forall>c. op \<noteq> OpStart c) \<Longrightarrow>
     msys_step D s (Call op) (s\<lparr>ms_mgr := mgr_exec D op (ms_mgr s)\<rparr>)"

inductive_cases reserve_stepE: "msys_step D s (Reserve c) t"
inductive_cases finish_stepE: "msys_step D s (Finish c) t"
inductive_cases call_stepE: "msys_step D s (Call op) t"

text \<open>The sequential \<open>start\<close> is a reservation followed at once by its second half.\<close>

lemma mgr_start_two_steps:
  assumes "validate c = Ok ()"
  shows "mgr_start D c m =
    (case mgr_reserve c m of (Err e, m1) \<Rightarrow> (Err e, m1) | (Ok _, m1) \<Rightarrow> start_finish D c m1)"
  using assms by (simp add: mgr_start_def start_finish_def split: prod.split result.split)

text \<open>The VM names a call can change the cached state of.\<close>

fun touches :: "mgr_op \<Rightarrow> string set" where
  "touches (OpStart c) = {cfg_name c}"
| "touches (OpStop n) = {n}"
| "touches (OpKill n) = {n}"
| "touches (OpStopByHandle h) = {h_name h}"
| "touches (OpKillByHandle h) = {h_name h}"
| "touches (OpPause n) = {n}"
| "touches (OpResume n) = {n}"
| "touches (OpState n) = {n}"
| "touches (OpGetIp n) = {n}"
| "touches (OpWaitAllReady iter cost t) = UNIV"

text \<open>A call is quiet when no boot of a VM it touches is in flight.\<close>

fun quiet :: "'d msys \<Rightarrow> mevent \<Rightarrow> bool" where
  "quiet s (Call op) = (touches op \<inter> cfg_name ` set (ms_boots s) = {})"
| "quiet s _ = True"

inductive quiet_run :: "'d VmDriver \<Rightarrow> 'd msys \<Rightarrow> 'd msys \<Rightarrow> bool" for D where
  quiet_refl: "quiet_run D s s"
| quiet_step: "quiet_run D s t \<Longrightarrow> quiet t ev \<Longrightarrow> msys_step D t ev u \<Longrightarrow> quiet_run D s u"

text \<open>Every boot in flight has its own name, and that name is reserved in the table.\<close>

definition boots_inv :: "'d msys \<Rightarrow> bool" where
  "boots_inv s \<longleftrightarrow> distinct (map cfg_name (ms_boots s))
     \<and> (\<forall>c \<in> set (ms_boots s). \<exists>h. mgr_vms (ms_mgr s) (cfg_name c) = Some h \<and> h_state h = Starting)"

lemma update_cached_state_other:
  "k \<noteq> n \<Longrightarrow> mgr_vms (snd (update_cached_state n s m)) k = mgr_vms m k"
  by (simp add: update_cached_state_def split: option.split)

lemma mgr_drive_other: "k \<noteq> n \<Longrightarrow> mgr_vms (snd (mgr_drive f h n s m)) k = mgr_vms m k"
  by (metis mgr_drive_frame surjective_pairing)

lemma mgr_state_other: "k \<noteq> n \<Longrightarrow> mgr_vms (snd (mgr_state D n m)) k = mgr_vms m k"
  by (metis mgr_state_frame surjective_pairing)

lemma mgr_resume_other: "k \<noteq> n \<Longrightarrow> mgr_vms (snd (mgr_resume D n m)) k = mgr_vms m k"
  by (simp add: mgr_resume_def update_cached_state_other split: result.split prod.split)

lemma exec_untouched:
  assumes "\<forall>c. op \<noteq> OpStart c" and "k \<notin> touches op"
  shows "mgr_vms (mgr_exec D op m) k = mgr_vms m k"
proof (cases op)
  case (OpGetIp n)
  have "snd (get_ip D n m) = snd (mgr_state D n m)"
    by (simp add: get_ip_def split: prod.split result.split)
  then show ?thesis using OpGetIp assms by (simp add: mgr_state_other)
qed (use assms in \<open>auto simp: mgr_stop_def mgr_kill_def stop_by_handle_def kill_by_handle_def
  mgr_pause_def mgr_drive_other mgr_resume_other mgr_state_other split: result.split\<close>)

lemma start_finish_other:
  "k \<noteq> cfg_name c \<Longrightarrow> mgr_vms (snd (start_finish D c m)) k = mgr_vms m k"
  by (simp add: start_finish_def boot_reserved_def mgr_release_def mgr_commit_def
      split: prod.split result.split)

lemma boots_inv_step:
  assumes "msys_step D s ev t" and "quiet s ev" and "boots_inv s"
  shows "boots_inv t"
  using assms
proof (induction rule: msys_step.induct)
  case (reserved c s m')
  have m': "\<forall>h. mgr_vms (ms_mgr s) (cfg_name c) = Some h \<longrightarrow> restartable (h_state h)"
    "m' = (ms_mgr s)\<lparr>mgr_vms := (mgr_vms (ms_mgr s))(cfg_name c \<mapsto> reservation c)\<rparr>"
    using reserved(2) by (simp_all add: mgr_reserve_Ok_iff)
  then have "cfg_name c \<notin> cfg_name ` set (ms_boots s)"
    using reserved.prems(2) by (force simp: boots_inv_def)
  then show ?case
    using reserved.prems(2) by (auto simp: boots_inv_def m'(2) reservation_def)
next
  case (finished c s r m')
  have "mgr_vms m' k = mgr_vms (ms_mgr s) k" if "k \<noteq> cfg_name c" for k
    using start_finish_other [OF that, of D "ms_mgr s"] finished(2) by simp
  moreover have "cfg_name c' \<noteq> cfg_name c" if "c' \<in> set (remove1 c (ms_boots s))" for c'
    using that finished.prems(2) finished(1)
    by (auto simp: boots_inv_def distinct_map inj_on_def set_remove1_eq distinct_remove1)
  ultimately show ?case
    using finished.prems(2)
    by (auto simp: boots_inv_def distinct_map distinct_remove1 inj_on_def
        dest: notin_set_remove1 in_set_remove1 [THEN iffD1, rotated] set_remove1_subset [THEN subsetD])
next
  case (called op s)
  then have "mgr_vms (mgr_exec D op (ms_mgr s)) (cfg_name c) = mgr_vms (ms_mgr s) (cfg_name c)"
    if "c \<in> set (ms_boots s)" for c
    using that by (intro exec_untouched) auto
  then show ?case using called.prems(2) by (simp add: boots_inv_def)
qed

lemma boots_inv_run: "quiet_run D s t \<Longrightarrow> boots_inv s \<Longrightarrow> boots_inv t"
  by (induction rule: quiet_run.induct) (auto intro: boots_inv_step)

text \<open>C5: the reservation works: starting from a manager with no boot in flight, as long as nobody
  stops, queries or waits for a VM whose boot is in flight, at most one boot per VM name is in
  flight at any time, however the calls interleave.\<close>

theorem one_boot_in_flight:
  assumes "quiet_run D s t" and "ms_boots s = []"
  shows "distinct (map cfg_name (ms_boots t))
    \<and> (\<forall>c \<in> set (ms_boots t). map_option h_state (mgr_vms (ms_mgr t) (cfg_name c)) = Some Starting)"
  using boots_inv_run [OF assms(1)] assms(2) by (auto simp: boots_inv_def)

theorem one_boot_in_flight_witness:
  "\<exists>t. quiet_run ready_after_two_polls \<lparr>ms_mgr = sample_manager, ms_boots = []\<rparr> t
     \<and> ms_boots t = [sample_config]
     \<and> map_option h_state (mgr_vms (ms_mgr t) ''vm1'') = Some Starting"
proof -
  let ?s = "\<lparr>ms_mgr = sample_manager, ms_boots = []\<rparr>"
  obtain m' where "mgr_reserve sample_config sample_manager = (Ok (), m')"
    by (simp add: mgr_reserve_def)
  then have st: "msys_step ready_after_two_polls ?s (Reserve sample_config)
      \<lparr>ms_mgr = m', ms_boots = [sample_config]\<rparr>"
    using msys_step.reserved [of sample_config ?s m' ready_after_two_polls] sample_config_valid by simp
  then have r: "quiet_run ready_after_two_polls ?s \<lparr>ms_mgr = m', ms_boots = [sample_config]\<rparr>"
    by (rule quiet_step [OF quiet_refl, rotated]) simp
  show ?thesis
    using r one_boot_in_flight [OF r] by (intro exI [of _ "\<lparr>ms_mgr = m', ms_boots = [sample_config]\<rparr>"]) auto
qed

text \<open>Without that discipline the reservation is lost: when the driver answers \<open>Stopped\<close> for a VM
  it does not know yet, as every platform driver does, a \<open>state\<close> query during the boot
  overwrites the \<open>Starting\<close> mark, a second \<open>start\<close> of the same name passes the check, and two
  boots of one VM are in flight.\<close>

lemma state_query_loses_reservation:
  assumes stopped: "drv_state D (reservation c) (mgr_driver m) = (Ok Stopped, d')"
    and "validate c = Ok ()" and "\<not> mgr_poisoned m" and "mgr_vms m (cfg_name c) = None"
  shows "\<exists>s1 s2 s3. msys_step D \<lparr>ms_mgr = m, ms_boots = []\<rparr> (Reserve c) s1
    \<and> msys_step D s1 (Call (OpState (cfg_name c))) s2
    \<and> msys_step D s2 (Reserve c) s3 \<and> ms_boots s3 = [c, c]"
proof -
  define m1 where "m1 = m\<lparr>mgr_vms := (mgr_vms m)(cfg_name c \<mapsto> reservation c)\<rparr>"
  have r1: "mgr_reserve c m = (Ok (), m1)"
    using assms(3,4) by (simp add: mgr_reserve_def m1_def)
  define m2 where "m2 = mgr_exec D (OpState (cfg_name c)) m1"
  have "drv_state D (reservation c) (mgr_driver m1) = (Ok Stopped, d')"
    using stopped by (simp add: m1_def)
  then have "mgr_vms m2 (cfg_name c) = Some ((reservation c)\<lparr>h_state := Stopped\<rparr>)" "\<not> mgr_poisoned m2"
    using assms(3)
    by (simp_all add: m2_def m1_def mgr_state_def get_handle_def update_cached_state_def)
  then obtain m3 where r3: "mgr_reserve c m2 = (Ok (), m3)"
    by (simp add: mgr_reserve_def)
  show ?thesis
    using msys_step.reserved [of c "\<lparr>ms_mgr = m, ms_boots = []\<rparr>" m1 D]
      msys_step.called [of "OpState (cfg_name c)" D "\<lparr>ms_mgr = m1, ms_boots = [c]\<rparr>"]
      msys_step.reserved [of c "\<lparr>ms_mgr = m2, ms_boots = [c]\<rparr>" m3 D]
      assms(2) r1 r3
    by (intro exI [of _ "\<lparr>ms_mgr = m1, ms_boots = [c]\<rparr>"] exI [of _ "\<lparr>ms_mgr = m2, ms_boots = [c]\<rparr>"]
        exI [of _ "\<lparr>ms_mgr = m3, ms_boots = [c, c]\<rparr>"]) (simp add: m2_def)
qed

end
