(* ===== verification/Ready.thy ===== *)
theory Ready
  imports Config
begin

text \<open>
  \<open>src/driver/ready.rs\<close>: finding the readiness marker that a guest prints on its serial
  console.  \<open>ReadyMarkerCache::scan\<close> reads only what the log has grown by and keeps an overlap;
  \<open>check_ready_marker\<close> reads the whole log.  The log keeps growing while it is scanned:
  \<open>seen\<close> is what it holds when \<open>read_to_end\<close> runs, the file system what it held when it was
  opened and its length was taken.
\<close>

section \<open>The marker\<close>

definition parse_ready_marker :: "string \<Rightarrow> string option" where
  "parse_ready_marker content =
     (case str_find READY_MARKER content of None \<Rightarrow> None
      | Some pos \<Rightarrow>
        (let after = drop (pos + length READY_MARKER) content
         in case split_whitespace after of [] \<Rightarrow> None
            | w # _ \<Rightarrow> (let ip = str_trim w in if ip = [] then None else Some ip)))"

definition trailing_overlap :: "string \<Rightarrow> string" where
  "trailing_overlap content =
     (let overlap = length READY_MARKER + 64
      in concat (rev (take overlap (rev (str_chars content)))))"

definition check_ready_marker :: "path \<Rightarrow> fs \<Rightarrow> string option" where
  "check_ready_marker log_path w =
     (case fs_read log_path w of Err _ \<Rightarrow> None
      | Ok bs \<Rightarrow> (case from_utf8 bs of None \<Rightarrow> None
                 | Some content \<Rightarrow> parse_ready_marker content))"

section \<open>The incremental scanner\<close>

record ReadyMarkerCache =
  rc_ready_ip :: "string option"
  rc_scan_offset :: nat
  rc_tail :: string

definition empty_cache :: ReadyMarkerCache where
  "empty_cache = \<lparr>rc_ready_ip = None, rc_scan_offset = 0, rc_tail = []\<rparr>"

definition scan ::
  "path \<Rightarrow> fs \<Rightarrow> bytes \<Rightarrow> ReadyMarkerCache \<Rightarrow> string option \<times> ReadyMarkerCache" where
  "scan log_path w seen c =
     (case rc_ready_ip c of Some ip \<Rightarrow> (Some ip, c)
      | None \<Rightarrow>
        (case fs_open log_path w of Err _ \<Rightarrow> (None, c)
         | Ok _ \<Rightarrow>
           (case fs_len log_path w of Err _ \<Rightarrow> (None, c)
            | Ok file_len \<Rightarrow>
              (let c1 = (if file_len < rc_scan_offset c
                         then c\<lparr>rc_scan_offset := 0, rc_tail := []\<rparr> else c)
               in case fs_fault w FsSeek log_path of Some _ \<Rightarrow> (None, c1)
                  | None \<Rightarrow>
                    (case fs_fault w FsRead log_path of Some _ \<Rightarrow> (None, c1)
                     | None \<Rightarrow>
                       (let buf = drop (rc_scan_offset c1) seen;
                            c2 = c1\<lparr>rc_scan_offset := file_len\<rparr>
                        in if buf = [] \<and> rc_tail c2 = [] then (None, c2)
                           else (let combined = rc_tail c2 @ from_utf8_lossy buf
                                 in case parse_ready_marker combined of
                                      Some ip \<Rightarrow>
                                        (Some ip, c2\<lparr>rc_ready_ip := Some ip, rc_tail := []\<rparr>)
                                    | None \<Rightarrow>
                                        (None, c2\<lparr>rc_tail := trailing_overlap combined\<rparr>))))))))"

section \<open>Facts\<close>

lemma READY_MARKER_length [simp]: "length READY_MARKER = 10"
  by (simp add: READY_MARKER_def)

lemma trailing_overlap_ascii:
  assumes "ascii_str s"
  shows "trailing_overlap s = drop (length s - 74) s"
  using assms concat_map_singleton [of "\<lambda>c. c"]
  by (simp add: trailing_overlap_def str_chars_ascii rev_map take_map rev_take drop_map
      flip: rev_map)

text \<open>Cutting off a part of the log in which no marker starts does not change what is found.\<close>

lemma parse_ready_marker_drop:
  assumes "\<And>j. j < k \<Longrightarrow> \<not> prefix READY_MARKER (drop j s)" and "k \<le> length s"
  shows "parse_ready_marker (drop k s) = parse_ready_marker s"
proof -
  have "str_find READY_MARKER s = map_option ((+) k) (str_find READY_MARKER (drop k s))"
    using assms by (rule str_find_drop)
  then show ?thesis
    by (cases "str_find READY_MARKER (drop k s)")
      (simp_all add: parse_ready_marker_def ac_simps)
qed

lemma parse_ready_marker_token:
  assumes first: "\<And>j. j < length a \<Longrightarrow> \<not> prefix READY_MARKER (drop j (a @ READY_MARKER @ w @ t @ rest))"
    and w: "\<And>c. c \<in> set w \<Longrightarrow> code c < 128 \<and> ascii_ws c"
    and t: "\<And>c. c \<in> set t \<Longrightarrow> code c < 128 \<and> \<not> ascii_ws c" "t \<noteq> []"
    and rest: "rest = [] \<or> (code (hd rest) < 128 \<and> ascii_ws (hd rest))"
  shows "parse_ready_marker (a @ READY_MARKER @ w @ t @ rest) = Some t"
proof -
  have "str_find READY_MARKER (a @ READY_MARKER @ w @ t @ rest) = Some (length a)"
    using first by (rule str_find_append_eq)
  moreover obtain ws where "split_whitespace (w @ t @ rest) = t # ws"
    using split_whitespace_first [OF w t rest] by blast
  ultimately show ?thesis
    using t trim_token [of t] by (simp add: parse_ready_marker_def)
qed

section \<open>Scanning a growing log\<close>

text \<open>
  A driver polls the log.  A poll meets two contents of the file: the one whose length
  \<open>metadata\<close> reports, and the one \<open>read_to_end\<close> reads, to which the guest may have added in
  between.  \<open>poll_whole\<close> is what a reader that reads the whole file at each poll would report,
  keeping the first address it finds.
\<close>

definition with_log :: "path \<Rightarrow> bytes \<Rightarrow> fs \<Rightarrow> fs" where
  "with_log p b w = w\<lparr>fs_files := (fs_files w)(p \<mapsto> b)\<rparr>"

type_synonym poll = "bytes \<times> bytes"

fun poll_scan :: "path \<Rightarrow> fs \<Rightarrow> poll list \<Rightarrow> ReadyMarkerCache \<Rightarrow> string option list" where
  "poll_scan p w [] c = []"
| "poll_scan p w ((b, seen) # ps) c =
     (let (r, c') = scan p (with_log p b w) seen c in r # poll_scan p w ps c')"

fun poll_whole :: "bytes list \<Rightarrow> string option \<Rightarrow> string option list" where
  "poll_whole [] found = []"
| "poll_whole (b # bs) found =
     (let r = (case found of Some ip \<Rightarrow> Some ip | None \<Rightarrow> parse_ready_marker (of_bytes b))
      in r # poll_whole bs r)"

text \<open>The log only grows, between two polls and within one.\<close>

fun grows :: "bytes \<Rightarrow> poll list \<Rightarrow> bool" where
  "grows b [] = True"
| "grows b ((c, d) # ps) = (prefix b c \<and> prefix c d \<and> grows d ps)"

definition log_faultless :: "path \<Rightarrow> fs \<Rightarrow> bool" where
  "log_faultless p w \<longleftrightarrow>
     fs_fault w FsOpen p = None \<and> fs_fault w FsMetadata p = None
     \<and> fs_fault w FsSeek p = None \<and> fs_fault w FsRead p = None"

text \<open>A marker that is already in the log lies within the overlap the scanner keeps.\<close>

definition marker_recent :: "bytes \<Rightarrow> bool" where
  "marker_recent b \<longleftrightarrow>
     (case str_find READY_MARKER (of_bytes b) of None \<Rightarrow> True | Some i \<Rightarrow> length b \<le> i + 74)"

text \<open>A poll after which the scanner can go on where it stopped: it finds the address, or the log did
  not grow between its two calls and a marker that still lacks its address is recent.\<close>

definition resumable :: "poll \<Rightarrow> bool" where
  "resumable = (\<lambda>(b, seen). parse_ready_marker (of_bytes seen) = None \<longrightarrow> b = seen \<and> marker_recent seen)"

definition synced :: "bytes \<Rightarrow> ReadyMarkerCache \<Rightarrow> bool" where
  "synced b c \<longleftrightarrow> rc_ready_ip c = None \<and> rc_scan_offset c = length b
     \<and> rc_tail c = drop (length b - 74) (of_bytes b)"

lemma marker_recent_no_early:
  assumes "marker_recent b" and "j < length b - 74"
  shows "\<not> prefix READY_MARKER (drop j (of_bytes b @ t))"
proof
  assume "prefix READY_MARKER (drop j (of_bytes b @ t))"
  then have hit: "prefix READY_MARKER (drop j (of_bytes b))"
    using assms(2) by (auto intro: prefix_length_prefix)
  let ?P = "\<lambda>i. \<not> prefix READY_MARKER (drop i (of_bytes b))"
  have "str_find READY_MARKER (of_bytes b) \<noteq> None"
    using hit assms(2) str_find_None_iff [of READY_MARKER "of_bytes b"]
    by (metis diff_le_self le_trans length_of_bytes less_imp_le)
  then obtain i where i: "str_find READY_MARKER (of_bytes b) = Some i" by auto
  have "i \<le> j"
  proof (rule ccontr)
    assume "\<not> i \<le> j"
    obtain k where k: "k \<le> j" "prefix READY_MARKER (drop k (of_bytes b))" "\<forall>m < k. ?P m"
      using exists_least_iff [of "\<lambda>m. \<not> ?P m"] hit by (metis leI not_less_iff_gr_or_eq)
    have "str_find READY_MARKER (of_bytes b) = Some k"
      using str_find_drop [of k READY_MARKER "of_bytes b"] k assms(2)
      by (simp add: str_find_unfold [of READY_MARKER "drop k (of_bytes b)"])
    then show False using i k(1) \<open>\<not> i \<le> j\<close> by simp
  qed
  then show False using assms i by (simp add: marker_recent_def)
qed

lemma scan_synced:
  assumes "synced b c" "marker_recent b" "ascii_bytes (b @ t)" "log_faultless p w"
    and len: "length b \<le> length l" and r: "scan p (with_log p l w) (b @ t) c = (r, c')"
  shows "r = parse_ready_marker (of_bytes (b @ t))"
    and "r = None \<Longrightarrow> l = b @ t \<Longrightarrow> synced (b @ t) c'"
    and "r = Some ip \<Longrightarrow> rc_ready_ip c' = Some ip"
proof -
  let ?comb = "drop (length b - 74) (of_bytes (b @ t))"
  have asc: "ascii_bytes t" "ascii_str (of_bytes (b @ t))"
    using assms(3) ascii_of_bytes [of "b @ t"] by (simp_all add: ascii_bytes_def)
  then have comb: "rc_tail c @ from_utf8_lossy t = ?comb"
    using assms(1) by (simp add: synced_def from_utf8_lossy_ascii)
  have parse: "parse_ready_marker ?comb = parse_ready_marker (of_bytes (b @ t))"
    using marker_recent_no_early [OF assms(2)] by (intro parse_ready_marker_drop) auto
  have over: "trailing_overlap ?comb = drop (length (b @ t) - 74) (of_bytes (b @ t))"
    using asc(2) by (subst trailing_overlap_ascii)
      (auto simp: ascii_str_def list_all_iff dest: in_set_dropD intro!: arg_cong2 [where f = drop])
  have empty: "parse_ready_marker [] = None" by (simp add: parse_ready_marker_def READY_MARKER_def)
  have c: "rc_ready_ip c = None" "rc_scan_offset c = length b"
    using assms(1) by (simp_all add: synced_def)
  have "(r, c') =
      (if t = [] \<and> rc_tail c = [] then (None, c\<lparr>rc_scan_offset := length l\<rparr>)
       else case parse_ready_marker (rc_tail c @ from_utf8_lossy t) of
         Some ip \<Rightarrow> (Some ip, c\<lparr>rc_scan_offset := length l, rc_ready_ip := Some ip, rc_tail := []\<rparr>)
       | None \<Rightarrow> (None, c\<lparr>rc_scan_offset := length l,
           rc_tail := trailing_overlap (rc_tail c @ from_utf8_lossy t)\<rparr>))"
    using assms(4) c len unfolding r [symmetric]
    by (simp add: scan_def log_faultless_def with_log_def fs_open_def fs_len_def Let_def
        cong: option.case_cong)
  moreover have "t = [] \<and> rc_tail c = [] \<longleftrightarrow> ?comb = []"
    using assms(1) by (auto simp: synced_def)
  ultimately have step: "(r, c') =
      (if ?comb = [] then (None, c\<lparr>rc_scan_offset := length l\<rparr>)
       else case parse_ready_marker ?comb of
         Some ip \<Rightarrow> (Some ip, c\<lparr>rc_scan_offset := length l, rc_ready_ip := Some ip, rc_tail := []\<rparr>)
       | None \<Rightarrow> (None, c\<lparr>rc_scan_offset := length l, rc_tail := trailing_overlap ?comb\<rparr>))"
    by (simp only: comb)
  have "r = parse_ready_marker ?comb"
  proof (cases "?comb = []")
    case True
    then show ?thesis using step empty by (simp only: simp_thms if_True prod.inject)
  next
    case False
    then show ?thesis using step by (simp only: if_False) (simp split: option.splits)
  qed
  then show "r = parse_ready_marker (of_bytes (b @ t))" unfolding parse .
  show "synced (b @ t) c'" if "r = None" "l = b @ t"
  proof (cases "?comb = []")
    case True
    then have "length b - 74 \<ge> length b + length t" by simp
    then have "b = []" "t = []" by (cases b; simp)+
    then show ?thesis using step assms(1) that by (simp add: synced_def)
  next
    case False
    then show ?thesis
      using step c over that by (simp only: if_False) (simp add: synced_def split: option.splits)
  qed
  show "r = Some ip \<Longrightarrow> rc_ready_ip c' = Some ip"
    using step by (auto split: if_splits option.splits)
qed

lemma scan_cached: "rc_ready_ip c = Some ip \<Longrightarrow> scan p w seen c = (Some ip, c)"
  by (simp add: scan_def)

lemma poll_scan_cached:
  "rc_ready_ip c = Some ip \<Longrightarrow> poll_scan p w ps c = poll_whole (map snd ps) (Some ip)"
  by (induction ps) (auto simp: scan_cached Let_def)

lemma poll_scan_synced:
  assumes "synced b c" "marker_recent b" "grows b ps" "list_all (ascii_bytes \<circ> snd) ps"
    "list_all resumable (butlast ps)" "log_faultless p w"
  shows "poll_scan p w ps c = poll_whole (map snd ps) None"
  using assms
proof (induction ps arbitrary: b c)
  case (Cons a ps)
  obtain l d where a: "a = (l, d)" by fastforce
  with Cons.prems obtain t where d: "d = b @ t" and len: "length b \<le> length l"
    by (auto simp: prefix_def)
  obtain r c' where sc: "scan p (with_log p l w) d c = (r, c')" by fastforce
  have pre: "ascii_bytes d" using Cons.prems a by simp
  note s = scan_synced [of b c t p w l r c', folded d, OF Cons.prems(1,2) pre Cons.prems(6) len sc]
  have "poll_scan p w ps c' = poll_whole (map snd ps) r"
  proof (cases r)
    case None
    show ?thesis
    proof (cases "ps = []")
      case False
      then have "l = d" "marker_recent d"
        using Cons.prems(5) a s(1) None by (simp_all add: resumable_def)
      then show ?thesis
        using Cons.IH [of d c'] Cons.prems a None s(2) False by simp
    qed simp
  next
    case (Some ip)
    then show ?thesis using s(3) poll_scan_cached by simp
  qed
  then show ?case using sc s(1) a by (simp add: Let_def)
qed simp


definition split_polls :: "poll list" where
  "split_polls = [(as_bytes ''vmrs VMRS_RE'', as_bytes ''vmrs VMRS_RE''),
     (as_bytes ''vmrs VMRS_READY 10.'', as_bytes (''vmrs VMRS_READY 10.0.0.2'' @ newline))]"


text \<open>The length of the log is taken before the log is read.  What the guest writes in between is read
  twice, after the kept tail, so a marker that is half there is torn apart: the second poll reads
  \<open>S_READY\<close> after a tail that ends in \<open>VMRS_RE\<close>, and no later poll sees the marker either.\<close>

definition grown_polls :: "poll list" where
  "grown_polls = (let full = as_bytes (''VMRS_READY 10.0.0.2'' @ newline)
     in [(as_bytes ''VMR'', as_bytes ''VMRS_RE''), (full, full), (full, full)])"

theorem scan_misses_marker:
  "poll_scan [Normal ''serial.log''] quiet_fs grown_polls empty_cache = [None, None, None]
   \<and> poll_whole (map snd grown_polls) None = [None, Some ''10.0.0.2'', Some ''10.0.0.2'']"
  by (rule conjI; code_simp)

text \<open>A poll that falls into the middle of the address caches the part it sees for good.
  When the log ends inside the address that follows the marker, the scan answers with the part
  that is there, and every later scan answers the same whatever the log, which by then holds the
  whole address, contains.\<close>

theorem scan_caches_truncated_ip:
  fixes a t1 t2 :: string
  assumes "\<And>j. j < length a \<Longrightarrow> \<not> prefix READY_MARKER (drop j (a @ READY_MARKER @ '' '' @ t1))"
    and "ascii_str a" and "\<And>c. c \<in> set (t1 @ t2) \<Longrightarrow> code c < 128 \<and> \<not> ascii_ws c" and "t1 \<noteq> []"
    and "log_faultless p w"
  defines "early \<equiv> as_bytes (a @ READY_MARKER @ '' '' @ t1)"
  defines "late \<equiv> as_bytes (a @ READY_MARKER @ '' '' @ t1 @ t2 @ newline)"
  shows "poll_scan p w [(early, early), (late, late)] empty_cache = [Some t1, Some t1]"
proof -
  have sp: "code (CHR '' '') < 128" "ascii_ws (CHR '' '')" by (simp_all add: ascii_ws_def)
  have "list_all ascii_bytes [early, late]"
    using assms(2,3) unfolding early_def late_def
    by (auto simp: ascii_bytes_def ascii_str_def as_bytes_def list_all_iff READY_MARKER_def)
  have "parse_ready_marker (of_bytes early) = Some t1"
    unfolding early_def using parse_ready_marker_token [of a "'' ''" t1 "[]"] assms(1,3,4) sp
    by simp
  moreover obtain r c' where sc: "scan p (with_log p early w) early empty_cache = (r, c')"
    by fastforce
  moreover have "synced [] empty_cache" "marker_recent []"
    by (simp_all add: synced_def empty_cache_def marker_recent_def of_bytes_def READY_MARKER_def)
  ultimately have "r = Some t1" "rc_ready_ip c' = Some t1"
    using scan_synced [of "[]" empty_cache early p w early r c'] \<open>list_all _ _\<close> assms(5) by auto
  then show ?thesis using sc scan_cached [of c' t1] by simp
qed

theorem scan_caches_truncated_ip_witness:
  "(let early = as_bytes ([] @ READY_MARKER @ '' '' @ ''10.0.'');
        late = as_bytes ([] @ READY_MARKER @ '' '' @ ''10.0.'' @ ''0.2'' @ newline)
    in poll_scan [Normal ''serial.log''] quiet_fs [(early, early), (late, late)] empty_cache)
   = [Some ''10.0.'', Some ''10.0.'']"
  unfolding Let_def
  by (rule scan_caches_truncated_ip)
    (auto simp: ascii_str_def log_faultless_def quiet_fs_def ascii_ws_def)

text \<open>A marker without an address takes the next word of the log for one, also from the next
  line: the command that prints the marker prints no address as long as the guest has none.\<close>

theorem ready_address_from_next_line:
  assumes "\<not> str_contains READY_MARKER (a @ butlast READY_MARKER)"
    and "\<And>c. c \<in> set t \<Longrightarrow> code c < 128 \<and> \<not> ascii_ws c" "t \<noteq> []" "ascii_ws (hd rest)" "code (hd rest) < 128"
  shows "parse_ready_marker (a @ READY_MARKER @ ('' '' @ newline) @ t @ rest) = Some t"
proof (rule parse_ready_marker_token)
  fix j assume j: "j < length a"
  show "\<not> prefix READY_MARKER (drop j (a @ READY_MARKER @ ('' '' @ newline) @ t @ rest))"
  proof
    assume "prefix READY_MARKER (drop j (a @ READY_MARKER @ ('' '' @ newline) @ t @ rest))"
    then obtain zs where "drop j (a @ READY_MARKER @ ('' '' @ newline) @ t @ rest) = READY_MARKER @ zs"
      by (auto elim: prefixE)
    moreover have "take 10 (READY_MARKER @ zs) = READY_MARKER" by (simp add: READY_MARKER_def)
    ultimately have "READY_MARKER = take 10 (drop j (a @ READY_MARKER @ ('' '' @ newline) @ t @ rest))" by metis
    also have "\<dots> = take 10 (drop j (a @ butlast READY_MARKER))"
    proof -
      have "take n (READY_MARKER @ x) = take n (butlast READY_MARKER)" if "n \<le> 9" for n x
        using that by (simp add: READY_MARKER_def take_Cons' split: nat.split)
      then show ?thesis using j by simp
    qed
    finally show False using assms(1) unfolding str_contains_iff by (metis append_take_drop_id)
  qed
qed (use assms in \<open>auto simp: ascii_ws_def\<close>)

text \<open>C39: \<open>check_ready_marker\<close> and a first scan read the same log the same way when it is UTF-8;
  on a log that is not, \<open>check_ready_marker\<close> finds nothing whatever the log says, while the
  scanner replaces the ill-formed bytes and goes on.\<close>

theorem check_ready_marker_vs_scan:
  assumes "log_faultless p w" and "fs_files w p = Some b" and "b \<noteq> []"
  shows "fst (scan p w b empty_cache) = parse_ready_marker (from_utf8_lossy b)
    \<and> check_ready_marker p w =
        (if from_utf8 b = None then None else fst (scan p w b empty_cache))"
proof
  show 1: "fst (scan p w b empty_cache) = parse_ready_marker (from_utf8_lossy b)"
    using assms by (simp add: scan_def empty_cache_def log_faultless_def fs_open_def fs_len_def
        Let_def split: option.split)
  show "check_ready_marker p w =
      (if from_utf8 b = None then None else fst (scan p w b empty_cache))"
    using assms from_utf8_lossy_valid [of b] unfolding 1
    by (auto simp: check_ready_marker_def fs_read_def log_faultless_def)
qed

definition noisy_log :: bytes where
  "noisy_log = 0xFF # as_bytes (newline @ ''VMRS_READY 10.0.0.2'' @ newline)"

theorem check_ready_marker_vs_scan_witness:
  "fst (scan [Normal ''l''] (with_log [Normal ''l''] noisy_log quiet_fs) noisy_log empty_cache)
     = Some ''10.0.0.2''
   \<and> check_ready_marker [Normal ''l''] (with_log [Normal ''l''] noisy_log quiet_fs) = None
   \<and> check_ready_marker [Normal ''l'']
        (with_log [Normal ''l''] (as_bytes ''VMRS_READY 1'') quiet_fs) = Some ''1''"
proof -
  let ?w = "\<lambda>b. with_log [Normal ''l''] b quiet_fs"
  have f: "log_faultless [Normal ''l''] (?w b)" "fs_files (?w b) [Normal ''l''] = Some b" for b
    by (simp_all add: log_faultless_def with_log_def quiet_fs_def)
  have "from_utf8 noisy_log = None" "noisy_log \<noteq> []"
    "parse_ready_marker (from_utf8_lossy noisy_log) = Some ''10.0.0.2''"
    "from_utf8 (as_bytes ''VMRS_READY 1'') \<noteq> None" "as_bytes ''VMRS_READY 1'' \<noteq> []"
    "parse_ready_marker (from_utf8_lossy (as_bytes ''VMRS_READY 1'')) = Some ''1''"
    by code_simp+
  then show ?thesis
    using check_ready_marker_vs_scan [OF f, of noisy_log]
      check_ready_marker_vs_scan [OF f, of "as_bytes ''VMRS_READY 1''"] by simp
qed

end
