(* ===== verification/Linux_Host.thy ===== *)
theory Linux_Host
  imports Config
begin

text \<open>
  The operating system below the Linux driver: the calls of \<open>std::process\<close>, \<open>libc::kill\<close> and
  \<open>/proc\<close> it makes.  The kernel is an oracle: \<open>lx_calls\<close> numbers the calls, and a field of
  \<open>kernel\<close> answers the call of that number, so that a theorem about all kernels covers every
  failure, every exit and every reuse of a process id at any moment.  The state records what the
  driver did: the children it spawned and has not reaped, the signals it sent and the commands
  it ran.  Sleeping lets the answers change and has no effect of its own.
\<close>

record kernel =
  k_fs :: "nat \<Rightarrow> fs"
  k_spawn :: "nat \<Rightarrow> Command \<Rightarrow> (u32, io_error) result"
  k_status :: "nat \<Rightarrow> Command \<Rightarrow> (bool, io_error) result"
  k_try_wait :: "nat \<Rightarrow> u32 \<Rightarrow> (string option, io_error) result"
  k_wait :: "nat \<Rightarrow> u32 \<Rightarrow> (unit, io_error) result"
  k_kill :: "nat \<Rightarrow> int \<Rightarrow> nat \<Rightarrow> (unit, io_error) result"
  k_create :: "nat \<Rightarrow> path \<Rightarrow> (unit, io_error) result"
  k_dup :: "nat \<Rightarrow> (unit, io_error) result"

record linux =
  lx_kernel :: kernel
  lx_calls :: nat
  lx_children :: "u32 list"
  lx_signals :: "(int \<times> nat) list"
  lx_ran :: "Command list"

definition SIGTERM :: nat where "SIGTERM = 15"
definition SIGKILL :: nat where "SIGKILL = 9"

definition tick :: "linux \<Rightarrow> linux" where
  "tick l = l\<lparr>lx_calls := Suc (lx_calls l)\<rparr>"

definition sys_spawn :: "Command \<Rightarrow> linux \<Rightarrow> (u32, io_error) result \<times> linux" where
  "sys_spawn cmd l =
     (case k_spawn (lx_kernel l) (lx_calls l) cmd of
        Err e \<Rightarrow> (Err e, tick l)
      | Ok pid \<Rightarrow> (Ok pid, (tick l)\<lparr>lx_children := pid # lx_children l\<rparr>))"

text \<open>\<open>Command::status\<close>: run to the end; \<open>Ok True\<close> is a successful exit.\<close>

definition sys_status :: "Command \<Rightarrow> linux \<Rightarrow> (bool, io_error) result \<times> linux" where
  "sys_status cmd l =
     (k_status (lx_kernel l) (lx_calls l) cmd, (tick l)\<lparr>lx_ran := lx_ran l @ [cmd]\<rparr>)"

text \<open>\<open>Child::try_wait\<close> and \<open>Child::wait\<close> reap the child when they report its exit.\<close>

definition sys_try_wait :: "u32 \<Rightarrow> linux \<Rightarrow> (string option, io_error) result \<times> linux" where
  "sys_try_wait pid l =
     (let r = k_try_wait (lx_kernel l) (lx_calls l) pid
      in (r, case r of Ok (Some _) \<Rightarrow> (tick l)\<lparr>lx_children := remove1 pid (lx_children l)\<rparr>
             | _ \<Rightarrow> tick l))"

definition sys_wait :: "u32 \<Rightarrow> linux \<Rightarrow> (unit, io_error) result \<times> linux" where
  "sys_wait pid l =
     (let r = k_wait (lx_kernel l) (lx_calls l) pid
      in (r, case r of Ok _ \<Rightarrow> (tick l)\<lparr>lx_children := remove1 pid (lx_children l)\<rparr>
             | Err _ \<Rightarrow> tick l))"

text \<open>\<open>kill(2)\<close> with a signal, also as \<open>Child::kill\<close>; and the probe \<open>kill(pid, 0)\<close>.  The call takes
  \<open>pid as i32\<close>: a number above \<open>i32::MAX\<close> turns negative.\<close>

definition sys_kill :: "u32 \<Rightarrow> nat \<Rightarrow> linux \<Rightarrow> (unit, io_error) result \<times> linux" where
  "sys_kill pid sig l =
     (k_kill (lx_kernel l) (lx_calls l) (sint pid) sig,
      (tick l)\<lparr>lx_signals := lx_signals l @ [(sint pid, sig)]\<rparr>)"

definition sys_probe :: "u32 \<Rightarrow> linux \<Rightarrow> bool \<times> linux" where
  "sys_probe pid l = (is_ok (k_kill (lx_kernel l) (lx_calls l) (sint pid) 0), tick l)"

definition sys_exists :: "path \<Rightarrow> linux \<Rightarrow> bool \<times> linux" where
  "sys_exists p l = (fs_exists (k_fs (lx_kernel l) (lx_calls l)) p, tick l)"

definition sys_read :: "path \<Rightarrow> linux \<Rightarrow> (bytes, io_error) result \<times> linux" where
  "sys_read p l = (fs_read p (k_fs (lx_kernel l) (lx_calls l)), tick l)"

text \<open>\<open>File::create\<close>, \<open>File::try_clone\<close>.\<close>

definition sys_create :: "path \<Rightarrow> linux \<Rightarrow> (unit, io_error) result \<times> linux" where
  "sys_create p l = (k_create (lx_kernel l) (lx_calls l) p, tick l)"

definition sys_dup :: "linux \<Rightarrow> (unit, io_error) result \<times> linux" where
  "sys_dup l = (k_dup (lx_kernel l) (lx_calls l), tick l)"

lemma tick_keeps [simp, frame]:
  "lx_kernel (tick l) = lx_kernel l" "lx_children (tick l) = lx_children l"
  "lx_signals (tick l) = lx_signals l" "lx_ran (tick l) = lx_ran l"
  "lx_calls (tick l) = Suc (lx_calls l)"
  by (simp_all add: tick_def)

lemma sys_keeps_signals [simp, frame]:
  "lx_signals (snd (sys_spawn cmd l)) = lx_signals l"
  "lx_signals (snd (sys_status cmd l)) = lx_signals l"
  "lx_signals (snd (sys_try_wait pid l)) = lx_signals l"
  "lx_signals (snd (sys_wait pid l)) = lx_signals l"
  "lx_signals (snd (sys_probe pid l)) = lx_signals l"
  "lx_signals (snd (sys_exists p l)) = lx_signals l"
  "lx_signals (snd (sys_read p l)) = lx_signals l"
  by (simp_all add: sys_spawn_def sys_status_def sys_try_wait_def sys_wait_def sys_probe_def
      sys_exists_def sys_read_def Let_def split: result.split option.split)

lemma sys_keeps_children [simp, frame]:
  "lx_children (snd (sys_status cmd l)) = lx_children l"
  "lx_children (snd (sys_kill pid sig l)) = lx_children l"
  "lx_children (snd (sys_probe pid l)) = lx_children l"
  "lx_children (snd (sys_exists p l)) = lx_children l"
  "lx_children (snd (sys_read p l)) = lx_children l"
  "lx_children (snd (sys_create p l)) = lx_children l"
  "lx_children (snd (sys_dup l)) = lx_children l"
  by (simp_all add: sys_status_def sys_kill_def sys_probe_def sys_exists_def sys_read_def
      sys_create_def sys_dup_def)

lemma sys_keeps_kernel [simp, frame]:
  "lx_kernel (snd (sys_spawn cmd l)) = lx_kernel l"
  "lx_kernel (snd (sys_status cmd l)) = lx_kernel l"
  "lx_kernel (snd (sys_try_wait pid l)) = lx_kernel l"
  "lx_kernel (snd (sys_wait pid l)) = lx_kernel l"
  "lx_kernel (snd (sys_kill pid sig l)) = lx_kernel l"
  "lx_kernel (snd (sys_probe pid l)) = lx_kernel l"
  "lx_kernel (snd (sys_exists p l)) = lx_kernel l"
  "lx_kernel (snd (sys_read p l)) = lx_kernel l"
  by (simp_all add: sys_spawn_def sys_status_def sys_try_wait_def sys_wait_def sys_kill_def
      sys_probe_def sys_exists_def sys_read_def Let_def split: result.split option.split)

lemma sys_keeps_ran [simp, frame]:
  "lx_ran (snd (sys_try_wait pid l)) = lx_ran l"
  "lx_ran (snd (sys_wait pid l)) = lx_ran l"
  "lx_ran (snd (sys_kill pid sig l)) = lx_ran l"
  by (simp_all add: sys_try_wait_def sys_wait_def sys_kill_def Let_def
      split: result.split option.split)

text \<open>A kernel on which waiting and killing work: what the clean-up code hopes for.\<close>

definition cooperative :: "kernel \<Rightarrow> bool" where
  "cooperative k \<longleftrightarrow> (\<forall>i n pid sig. is_ok (k_kill k i n sig) \<and> is_ok (k_wait k i pid)
     \<and> is_ok (k_try_wait k i pid))"

end
