(* ===== verification/Cloud_Hv.thy ===== *)
theory Cloud_Hv
  imports Driver Ready Linux_Host
begin

text \<open>
  \<open>src/driver/cloud_hv.rs\<close>: the Linux driver.  It runs one \<open>cloud-hypervisor\<close> process per VM
  and one \<open>virtiofsd\<close> process per shared directory, and tracks them by VM name.  The time a
  wait loop takes is the sum of its sleeps.  \<open>ch_env\<close> holds what comes from outside: the SHA-256
  of the \<open>sha2\<close> crate and the \<open>Debug\<close> form of a path, which only occurs in a message.
\<close>

section \<open>State\<close>

record VmProcess =
  vmp_identity :: VmmProcess
  vmp_child :: u32
  vmp_tap_devices :: "string list"
  vmp_virtiofsd_children :: "u32 list"
  vmp_ready :: ReadyMarkerCache

record CloudHvDriver =
  ch_vms :: "string \<rightharpoonup> VmProcess"
  ch_poisoned :: bool
  ch_host :: linux

record ch_env =
  env_sha256 :: "bytes \<Rightarrow> bytes"
  env_path_debug :: "path \<Rightarrow> string"

definition ch_lock_error :: VmError where
  "ch_lock_error = Hypervisor (''lock poisoned: '' @ poison_text)"

section \<open>Helpers\<close>

definition version_cmd :: "string \<Rightarrow> Command" where
  "version_cmd prog = \<lparr>cmd_program = prog, cmd_args = [''--version'']\<rparr>"

definition find_ch_binary :: "linux \<Rightarrow> (string, VmError) result \<times> linux" where
  "find_ch_binary l =
     (let (status, l) = sys_status (version_cmd ''cloud-hypervisor'') l in
      if status = Ok True then (Ok ''cloud-hypervisor'', l)
      else let (found, l) = sys_exists (path_of ''/usr/bin/cloud-hypervisor'') l in
      if found then (Ok ''/usr/bin/cloud-hypervisor'', l)
      else let (found, l) = sys_exists (path_of ''/usr/local/bin/cloud-hypervisor'') l in
      if found then (Ok ''/usr/local/bin/cloud-hypervisor'', l)
      else (Err (InvalidConfig (''cloud-hypervisor binary not found on PATH or in /usr/bin, ''
              @ ''/usr/local/bin. Install from ''
              @ ''https://github.com/cloud-hypervisor/cloud-hypervisor/releases'')), l))"

definition generate_mac :: "(bytes \<Rightarrow> bytes) \<Rightarrow> string \<Rightarrow> string" where
  "generate_mac sha name =
     (let hash = sha (as_bytes name)
      in ''52:54:00:'' @ byte_hex2 (hash ! 0) @ '':'' @ byte_hex2 (hash ! 1) @ '':''
         @ byte_hex2 (hash ! 2))"

fun find_virtiofsd_in :: "string list \<Rightarrow> linux \<Rightarrow> (string, VmError) result \<times> linux" where
  "find_virtiofsd_in [] l =
     (Err (InvalidConfig (''virtiofsd not found. Required for VirtioFS shared directories on Linux. ''
        @ ''Install: apt install virtiofsd (Debian/Ubuntu) or from ''
        @ ''https://gitlab.com/virtio-fs/virtiofsd'')), l)"
| "find_virtiofsd_in (name # names) l =
     (let (found, l) = (if is_absolute (path_of name) then sys_exists (path_of name) l else (False, l)) in
      if found then (Ok name, l)
      else let (status, l) = sys_status (version_cmd name) l in
      if status = Ok True then (Ok name, l) else find_virtiofsd_in names l)"

definition find_virtiofsd :: "linux \<Rightarrow> (string, VmError) result \<times> linux" where
  "find_virtiofsd = find_virtiofsd_in [''virtiofsd'', ''/usr/libexec/virtiofsd'', ''/usr/lib/virtiofsd'']"

text \<open>The loops that poll until a deadline: \<open>n\<close> is the number of polls left before it.\<close>

fun socket_polls :: "nat \<Rightarrow> path \<Rightarrow> linux \<Rightarrow> bool \<times> linux" where
  "socket_polls 0 p l = (False, l)"
| "socket_polls (Suc n) p l =
     (let (found, l) = sys_exists p l in if found then (True, l) else socket_polls n p l)"

definition wait_for_socket :: "path \<Rightarrow> nat \<Rightarrow> linux \<Rightarrow> bool \<times> linux" where
  "wait_for_socket p timeout_ms l = socket_polls (polls timeout_ms 50) p l"

fun exit_polls :: "nat \<Rightarrow> u32 \<Rightarrow> linux \<Rightarrow> (bool, io_error) result \<times> linux" where
  "exit_polls 0 pid l = (Ok False, l)"
| "exit_polls (Suc n) pid l =
     (case sys_try_wait pid l of
        (Ok (Some status), l) \<Rightarrow> (Ok True, l)
      | (Ok None, l) \<Rightarrow> exit_polls n pid l
      | (Err e, l) \<Rightarrow> (Err e, l))"

definition timed_out_error :: "u32 \<Rightarrow> nat \<Rightarrow> io_error" where
  "timed_out_error pid timeout_ms = \<lparr>io_kind = KTimedOut,
     io_text = ''PID '' @ nat_to_str (unat pid) @ '' required SIGKILL after waiting ''
       @ nat_to_str timeout_ms @ '' ms''\<rparr>"

definition wait_for_exit :: "u32 \<Rightarrow> nat \<Rightarrow> linux \<Rightarrow> (unit, io_error) result \<times> linux" where
  "wait_for_exit pid timeout_ms l =
     (case exit_polls (polls timeout_ms 200) pid l of
        (Err e, l) \<Rightarrow> (Err e, l)
      | (Ok True, l) \<Rightarrow> (Ok (), l)
      | (Ok False, l) \<Rightarrow>
        (case sys_kill pid SIGKILL l of
           (Err e, l) \<Rightarrow> (Err e, l)
         | (Ok _, l) \<Rightarrow>
           (case sys_wait pid l of
              (Err e, l) \<Rightarrow> (Err e, l)
            | (Ok _, l) \<Rightarrow> (Err (timed_out_error pid timeout_ms), l))))"

fun cleanup_virtiofsd :: "u32 list \<Rightarrow> linux \<Rightarrow> linux" where
  "cleanup_virtiofsd [] l = l"
| "cleanup_virtiofsd (pid # pids) l = cleanup_virtiofsd pids (snd (wait_for_exit pid 1000 l))"

definition tap_del_cmd :: "string \<Rightarrow> Command" where
  "tap_del_cmd tap = \<lparr>cmd_program = ''ip'',
     cmd_args = [''tuntap'', ''del'', ''dev'', tap, ''mode'', ''tap'']\<rparr>"

fun cleanup_taps :: "string list \<Rightarrow> linux \<Rightarrow> linux" where
  "cleanup_taps [] l = l"
| "cleanup_taps (tap # taps) l = cleanup_taps taps (snd (sys_status (tap_del_cmd tap) l))"

definition proc_path :: "u32 \<Rightarrow> string \<Rightarrow> path" where
  "proc_path pid file = path_of (''/proc/'' @ nat_to_str (unat pid) @ ''/'' @ file)"

definition stat_start_time :: "string \<Rightarrow> u64 option" where
  "stat_start_time stat =
     (case rsplit_once_str '') '' stat of None \<Rightarrow> None
      | Some (_, after_comm) \<Rightarrow>
        (let fields = split_whitespace after_comm
         in if length fields \<le> 19 then None
            else map_option word_of_nat (parse_u64 (fields ! 19))))"

definition read_proc_start_time :: "u32 \<Rightarrow> linux \<Rightarrow> u64 option \<times> linux" where
  "read_proc_start_time pid l =
     (let (r, l) = sys_read (proc_path pid ''stat'') l
      in (case r of Err _ \<Rightarrow> None
          | Ok bs \<Rightarrow> (case from_utf8 bs of None \<Rightarrow> None | Some stat \<Rightarrow> stat_start_time stat), l))"

definition process_identity :: "u32 \<Rightarrow> string \<Rightarrow> linux \<Rightarrow> (VmmProcess, VmError) result \<times> linux" where
  "process_identity pid vm_name l =
     (let (start, l) = read_proc_start_time pid l
      in (case start of
            None \<Rightarrow> Err (StateFailed vm_name (''unable to read start time for PID '' @ nat_to_str (unat pid)))
          | Some t \<Rightarrow> Ok \<lparr>vp_pid = pid, vp_start_time_ticks = Some t\<rparr>, l))"

definition pid_exists :: "VmmProcess \<Rightarrow> linux \<Rightarrow> bool \<times> linux" where
  "pid_exists process l =
     (let (alive, l) = sys_probe (vp_pid process) l in
      if \<not> alive then (False, l)
      else (case vp_start_time_ticks process of
              None \<Rightarrow> (True, l)
            | Some expected_start \<Rightarrow>
              (let (start, l) = read_proc_start_time (vp_pid process) l
               in (start = Some expected_start, l))))"

definition validate_cloud_hypervisor_process ::
  "VmmProcess \<Rightarrow> string \<Rightarrow> linux \<Rightarrow> (unit, VmError) result \<times> linux" where
  "validate_cloud_hypervisor_process process vm_name l =
     (let pid = vp_pid process; pid_str = nat_to_str (unat pid);
          (r, l) = sys_read (proc_path pid ''cmdline'') l in
      case r of Err e \<Rightarrow>
        (Err (StateFailed vm_name (''unable to inspect PID '' @ pid_str @ '': '' @ io_text e)), l)
      | Ok cmdline \<Rightarrow>
        (let (reused, l) =
           (case vp_start_time_ticks process of None \<Rightarrow> (None, l)
            | Some expected_start \<Rightarrow>
              (let (start, l) = read_proc_start_time pid l
               in (case start of
                     None \<Rightarrow> Some (''unable to read start time for PID '' @ pid_str)
                   | Some actual_start \<Rightarrow>
                     if actual_start \<noteq> expected_start
                     then Some (''PID '' @ pid_str @ '' has been reused by a different process'')
                     else None, l)))
         in case reused of Some detail \<Rightarrow> (Err (StateFailed vm_name detail), l)
            | None \<Rightarrow>
              if \<not> str_contains ''cloud-hypervisor'' (from_utf8_lossy cmdline)
              then (Err (StateFailed vm_name (''PID '' @ pid_str @ '' is not a cloud-hypervisor process'')), l)
              else (Ok (), l)))"

fun gone_polls :: "nat \<Rightarrow> VmmProcess \<Rightarrow> linux \<Rightarrow> bool \<times> linux" where
  "gone_polls 0 process l = (False, l)"
| "gone_polls (Suc n) process l =
     (let (alive, l) = pid_exists process l in if \<not> alive then (True, l) else gone_polls n process l)"

definition wait_for_pid_exit ::
  "VmmProcess \<Rightarrow> string \<Rightarrow> nat \<Rightarrow> linux \<Rightarrow> (unit, VmError) result \<times> linux" where
  "wait_for_pid_exit process vm_name timeout_ms l =
     (let pid_str = nat_to_str (unat (vp_pid process));
          (gone, l) = gone_polls (polls timeout_ms 200) process l in
      if gone then (Ok (), l)
      else (case sys_kill (vp_pid process) SIGKILL l of
              (Err e, l) \<Rightarrow> (Err (StopFailed vm_name (''failed to SIGKILL restored VM PID '' @ pid_str
                 @ '': '' @ io_text e)), l)
            | (Ok _, l) \<Rightarrow>
              (let (gone, l) = gone_polls (polls 2000 100) process l in
               if gone then (Ok (), l)
               else (Err (StopFailed vm_name (''restored VM PID '' @ pid_str
                       @ '' remained alive after SIGKILL'')), l))))"

section \<open>Boot\<close>

definition default_cmdline :: "VmConfig \<Rightarrow> string" where
  "default_cmdline c =
     (if cfg_root_disk c \<noteq> None then ''console=ttyS0 root=/dev/vda1 rw ds=nocloud''
      else ''console=ttyS0'')"

definition opt_args :: "'a option \<Rightarrow> ('a \<Rightarrow> string list) \<Rightarrow> string list" where
  "opt_args x f = (case x of None \<Rightarrow> [] | Some y \<Rightarrow> f y)"

text \<open>The program and the arguments up to the disks.\<close>

definition ch_base_cmd :: "string \<Rightarrow> VmConfig \<Rightarrow> Command" where
  "ch_base_cmd ch_binary c =
     (let args = [''--kernel'', display_path (cfg_kernel c),
            ''--cmdline'', (case cfg_cmdline c of Some s \<Rightarrow> s | None \<Rightarrow> default_cmdline c)]
          @ opt_args (cfg_initramfs c) (\<lambda>p. [''--initramfs'', display_path p])
          @ [''--cpus'', ''boot='' @ nat_to_str (unat (cfg_cpus c)),
             ''--memory'', ''size='' @ nat_to_str (unat (cfg_memory_mb c))
               @ (if cfg_shared_dirs c = [] then ''M'' else ''M,shared=on'')]
          @ opt_args (cfg_root_disk c) (\<lambda>p. [''--disk'', ''path='' @ display_path p])
          @ opt_args (cfg_seed_iso c) (\<lambda>p. [''--disk'', ''path='' @ display_path p @ '',readonly=on''])
          @ opt_args (cfg_data_disk c) (\<lambda>p. [''--disk'', ''path='' @ display_path p])
      in case cfg_netns c of
           Some netns \<Rightarrow> \<lparr>cmd_program = ''ip'', cmd_args = [''netns'', ''exec'', netns, ch_binary] @ args\<rparr>
         | None \<Rightarrow> \<lparr>cmd_program = ch_binary, cmd_args = args\<rparr>)"

fun net_args ::
  "(bytes \<Rightarrow> bytes) \<Rightarrow> string \<Rightarrow> NetworkAttachment list \<Rightarrow> (string list \<times> string list, VmError) result" where
  "net_args sha name [] = Ok ([], [])"
| "net_args sha name (Tap tap mac # nets) =
     (let mac_str = (case mac of Some m \<Rightarrow> m | None \<Rightarrow> generate_mac sha name)
      in and_then (net_args sha name nets) (\<lambda>(args, taps).
           Ok ([''--net'', ''tap='' @ tap @ '',mac='' @ mac_str] @ args, tap # taps)))"
| "net_args sha name (SocketPairFd _ # nets) =
     Err (InvalidConfig ''SocketPairFd not supported on Linux; use TAP devices'')"

definition virtiofsd_cmd :: "string \<Rightarrow> path \<Rightarrow> string \<Rightarrow> Command" where
  "virtiofsd_cmd prog socket_path host_path = \<lparr>cmd_program = prog,
     cmd_args = [''--socket-path='' @ display_path socket_path, ''--shared-dir='' @ host_path,
                 ''--cache=never'', ''--sandbox=chroot'']\<rparr>"

text \<open>
  The loop over the shared directories: the sidecars started so far and the \<open>--fs\<close> arguments.
  Removing a stale socket is a call whose outcome is ignored.  An error return drops the
  \<open>Child\<close> handles in \<open>children\<close>, which neither stops nor reaps the processes.
\<close>

fun start_sidecars ::
  "ch_env \<Rightarrow> string \<Rightarrow> path \<Rightarrow> SharedDir list \<Rightarrow> u32 list \<Rightarrow> string list \<Rightarrow> linux
     \<Rightarrow> (u32 list \<times> string list, VmError) result \<times> linux" where
  "start_sidecars env name vm_dir [] children args l = (Ok (children, args), l)"
| "start_sidecars env name vm_dir (vol # vols) children args l =
     (let socket_path = path_join vm_dir (path_of (''virtiofs-'' @ sd_tag vol @ ''.sock'')) in
      case find_virtiofsd l of (Err e, l) \<Rightarrow> (Err e, l)
      | (Ok virtiofsd, l) \<Rightarrow>
        (case path_to_str (sd_host_path vol) of
           None \<Rightarrow> (Err (InvalidConfig (''non-UTF8 shared dir path: ''
                      @ env_path_debug env (sd_host_path vol))), l)
         | Some host_path \<Rightarrow>
           (case sys_spawn (virtiofsd_cmd virtiofsd socket_path host_path) (tick l) of
              (Err e, l) \<Rightarrow> (Err (BootFailed name (''failed to spawn virtiofsd for '' @ squote
                 @ sd_tag vol @ squote @ '': '' @ io_text e)), l)
            | (Ok child, l) \<Rightarrow>
              (let children = children @ [child];
                   (socket_ready, l) = wait_for_socket socket_path 5000 l in
               if \<not> socket_ready
               then (Err (BootFailed name (''virtiofsd socket did not appear for '' @ squote
                       @ sd_tag vol @ squote @ '' at '' @ display_path socket_path)),
                     cleanup_virtiofsd children l)
               else start_sidecars env name vm_dir vols children
                      (args @ [''--fs'', ''tag='' @ sd_tag vol @ '',socket='' @ display_path socket_path
                               @ '',num_queues=1,queue_size=512'']) l))))"

text \<open>From the log file to the first look at the running VMM.  The identity of the process and
  its child are returned.\<close>

definition spawn_vmm ::
  "string \<Rightarrow> path \<Rightarrow> Command \<Rightarrow> u32 list \<Rightarrow> linux \<Rightarrow> (VmmProcess \<times> u32, VmError) result \<times> linux" where
  "spawn_vmm name serial_log cmd children l =
     (let vmm_log_path = with_extension serial_log ''vmm.log'' in
      case sys_create vmm_log_path l of
        (Err e, l) \<Rightarrow> (Err (BootFailed name (''failed to create VMM log file: '' @ io_text e)),
                       cleanup_virtiofsd children l)
      | (Ok _, l) \<Rightarrow>
        (case sys_dup l of (Err e, l) \<Rightarrow> (Err (Io e), cleanup_virtiofsd children l)
         | (Ok _, l) \<Rightarrow>
           (case sys_spawn cmd l of
              (Err e, l) \<Rightarrow> (Err (BootFailed name (''failed to spawn cloud-hypervisor: '' @ io_text e)),
                             cleanup_virtiofsd children l)
            | (Ok pid, l) \<Rightarrow>
              (case process_identity pid name l of
                 (Err e, l) \<Rightarrow> (Err e, cleanup_virtiofsd children
                                  (snd (sys_wait pid (snd (sys_kill pid SIGKILL l)))))
               | (Ok identity, l) \<Rightarrow>
                 (case sys_try_wait pid l of
                    (Err e, l) \<Rightarrow> (Err (Io e), l)
                  | (Ok (Some status), l) \<Rightarrow>
                    (Err (BootFailed name (''cloud-hypervisor process (PID '' @ nat_to_str (unat pid)
                       @ '') exited immediately with '' @ status @ ''. Check ''
                       @ display_path vmm_log_path)), cleanup_virtiofsd children l)
                  | (Ok None, l) \<Rightarrow> (Ok (identity, pid), l))))))"

definition ch_boot ::
  "ch_env \<Rightarrow> VmConfig \<Rightarrow> CloudHvDriver \<Rightarrow> (VmHandle, VmError) result \<times> CloudHvDriver" where
  "ch_boot env c d =
     (let name = cfg_name c in
      case find_ch_binary (ch_host d) of (Err e, l) \<Rightarrow> (Err e, d\<lparr>ch_host := l\<rparr>)
      | (Ok ch_binary, l) \<Rightarrow>
        (let cmd = ch_base_cmd ch_binary c in
         case net_args (env_sha256 env) name (cfg_networks c) of Err e \<Rightarrow> (Err e, d\<lparr>ch_host := l\<rparr>)
         | Ok (nargs, tap_devices) \<Rightarrow>
           (let sargs = [''--serial'', ''file='' @ display_path (cfg_serial_log c), ''--console'', ''off''];
                vm_dir = (case path_parent (cfg_serial_log c) of Some p \<Rightarrow> p | None \<Rightarrow> path_of ''/tmp'') in
            case start_sidecars env name vm_dir (cfg_shared_dirs c) [] [] l of
              (Err e, l) \<Rightarrow> (Err e, d\<lparr>ch_host := l\<rparr>)
            | (Ok (children, fargs), l) \<Rightarrow>
              (case spawn_vmm name (cfg_serial_log c)
                      (cmd\<lparr>cmd_args := cmd_args cmd @ nargs @ sargs @ fargs\<rparr>) children l of
                 (Err e, l) \<Rightarrow> (Err e, d\<lparr>ch_host := l\<rparr>)
               | (Ok (identity, pid), l) \<Rightarrow>
                 if ch_poisoned d then (Err ch_lock_error, d\<lparr>ch_host := l\<rparr>)
                 else (Ok \<lparr>h_name = name, h_namespace = cfg_namespace c, h_state = Starting,
                           h_process = Some identity, h_serial_log = cfg_serial_log c,
                           h_machine_id = None\<rparr>,
                       d\<lparr>ch_host := l, ch_vms := (ch_vms d)(name \<mapsto>
                         \<lparr>vmp_identity = identity, vmp_child = pid, vmp_tap_devices = tap_devices,
                          vmp_virtiofsd_children = children, vmp_ready = empty_cache\<rparr>)\<rparr>)))))"

section \<open>Stop, kill and state\<close>

definition ch_stop :: "VmHandle \<Rightarrow> CloudHvDriver \<Rightarrow> (unit, VmError) result \<times> CloudHvDriver" where
  "ch_stop h d =
     (if ch_poisoned d then (Err ch_lock_error, d)
      else (case ch_vms d (h_name h) of
        Some process \<Rightarrow>
          (let d = d\<lparr>ch_vms := (ch_vms d)(h_name h := None)\<rparr>;
               pid_str = nat_to_str (unat (vp_pid (vmp_identity process)));
               (wait_result, l) =
                 (case sys_kill (vp_pid (vmp_identity process)) SIGTERM (ch_host d) of
                    (Err _, l) \<Rightarrow> (Ok (), l)
                  | (Ok _, l) \<Rightarrow>
                    (let (r, l) = wait_for_exit (vmp_child process) 10000 l
                     in (map_err (\<lambda>e. StopFailed (h_name h) (''cloud-hypervisor PID '' @ pid_str
                           @ '' did not exit cleanly: '' @ io_text e)) r, l)));
               l = cleanup_taps (vmp_tap_devices process) l;
               l = cleanup_virtiofsd (vmp_virtiofsd_children process) l
           in (wait_result, d\<lparr>ch_host := l\<rparr>))
      | None \<Rightarrow>
        (case h_process h of
           Some process \<Rightarrow>
             (case validate_cloud_hypervisor_process process (h_name h) (ch_host d) of
                (Err e, l) \<Rightarrow> (Err e, d\<lparr>ch_host := l\<rparr>)
              | (Ok _, l) \<Rightarrow>
                (case sys_kill (vp_pid process) SIGTERM l of
                   (Err e, l) \<Rightarrow> (Err (StopFailed (h_name h) (''failed to send SIGTERM to restored VM PID ''
                      @ nat_to_str (unat (vp_pid process)) @ '': '' @ io_text e)), d\<lparr>ch_host := l\<rparr>)
                 | (Ok _, l) \<Rightarrow>
                   (let (r, l) = wait_for_pid_exit process (h_name h) 10000 l
                    in (r, d\<lparr>ch_host := l\<rparr>))))
         | None \<Rightarrow> (Err (NotFound (h_name h)), d))))"

definition ch_kill :: "VmHandle \<Rightarrow> CloudHvDriver \<Rightarrow> (unit, VmError) result \<times> CloudHvDriver" where
  "ch_kill h d =
     (if ch_poisoned d then (Err ch_lock_error, d)
      else (case ch_vms d (h_name h) of
        Some process \<Rightarrow>
          (let d = d\<lparr>ch_vms := (ch_vms d)(h_name h := None)\<rparr>;
               pid_str = nat_to_str (unat (vp_pid (vmp_identity process)));
               (kr, l) = sys_kill (vmp_child process) SIGKILL (ch_host d);
               (wr, l) = wait_for_exit (vmp_child process) 2000 l;
               l = cleanup_taps (vmp_tap_devices process) l;
               l = cleanup_virtiofsd (vmp_virtiofsd_children process) l;
               kill_result = map_err (\<lambda>e. StopFailed (h_name h)
                 (''failed to SIGKILL child PID '' @ pid_str @ '': '' @ io_text e)) kr;
               wait_result = map_err (\<lambda>e. StopFailed (h_name h)
                 (''failed to reap killed VM PID '' @ pid_str @ '': '' @ io_text e)) wr
           in (and_then kill_result (\<lambda>_. wait_result), d\<lparr>ch_host := l\<rparr>))
      | None \<Rightarrow>
        (case h_process h of
           Some process \<Rightarrow>
             (case validate_cloud_hypervisor_process process (h_name h) (ch_host d) of
                (Err e, l) \<Rightarrow> (Err e, d\<lparr>ch_host := l\<rparr>)
              | (Ok _, l) \<Rightarrow>
                (let (kr, l) = sys_kill (vp_pid process) SIGKILL l
                 in (map_err (\<lambda>e. StopFailed (h_name h) (''failed to SIGKILL restored VM PID ''
                       @ nat_to_str (unat (vp_pid process)) @ '': '' @ io_text e)) kr,
                     d\<lparr>ch_host := l\<rparr>)))
         | None \<Rightarrow> (Err (NotFound (h_name h)), d))))"

text \<open>The serial log as the scanner meets it: the file system of the call, and what the file
  holds when it is read.\<close>

definition sys_scan ::
  "path \<Rightarrow> ReadyMarkerCache \<Rightarrow> linux \<Rightarrow> (string option \<times> ReadyMarkerCache) \<times> linux" where
  "sys_scan log_path cache l =
     (let w = k_fs (lx_kernel l) (lx_calls l); w' = k_fs (lx_kernel l) (Suc (lx_calls l));
          seen = (case fs_files w' log_path of None \<Rightarrow> [] | Some b \<Rightarrow> b)
      in (scan log_path w seen cache, tick (tick l)))"

definition ch_state :: "VmHandle \<Rightarrow> CloudHvDriver \<Rightarrow> (VmState, VmError) result \<times> CloudHvDriver" where
  "ch_state h d =
     (if ch_poisoned d then (Err ch_lock_error, d)
      else (case ch_vms d (h_name h) of
        None \<Rightarrow>
          (case h_process h of None \<Rightarrow> (Ok Stopped, d)
           | Some process \<Rightarrow>
             (case validate_cloud_hypervisor_process process (h_name h) (ch_host d) of
                (Err _, l) \<Rightarrow> (Ok Stopped, d\<lparr>ch_host := l\<rparr>)
              | (Ok _, l) \<Rightarrow>
                (let (alive, l) = pid_exists process l in
                 if \<not> alive then (Ok Stopped, d\<lparr>ch_host := l\<rparr>)
                 else (case check_ready_marker (h_serial_log h) (k_fs (lx_kernel l) (lx_calls l)) of
                         Some ip \<Rightarrow> (Ok (Ready ip), d\<lparr>ch_host := tick l\<rparr>)
                       | None \<Rightarrow> (Ok Running, d\<lparr>ch_host := tick l\<rparr>)))))
      | Some process \<Rightarrow>
        (case sys_try_wait (vmp_child process) (ch_host d) of
           (Err e, l) \<Rightarrow> (Err (Io e), d\<lparr>ch_host := l\<rparr>)
         | (Ok (Some _), l) \<Rightarrow>
           (Ok Stopped, d\<lparr>ch_host := l, ch_vms := (ch_vms d)(h_name h := None)\<rparr>)
         | (Ok None, l) \<Rightarrow>
           (let ((found, cache), l) = sys_scan (h_serial_log h) (vmp_ready process) l
            in (Ok (case found of Some ip \<Rightarrow> Ready ip | None \<Rightarrow> Running),
                d\<lparr>ch_host := l,
                   ch_vms := (ch_vms d)(h_name h \<mapsto> process\<lparr>vmp_ready := cache\<rparr>)\<rparr>)))))"

definition cloud_hv_driver :: "ch_env \<Rightarrow> CloudHvDriver VmDriver" where
  "cloud_hv_driver env = \<lparr>drv_boot = ch_boot env, drv_stop = ch_stop, drv_kill = ch_kill,
     drv_state = ch_state, drv_pause = default_pause, drv_resume = default_resume\<rparr>"

section \<open>What the helpers keep\<close>

lemma exit_polls_keeps [frame]:
  assumes "exit_polls n pid l = (r, l')"
  shows "lx_kernel l' = lx_kernel l \<and> lx_ran l' = lx_ran l
    \<and> lx_children l' = (if r = Ok True then remove1 pid (lx_children l) else lx_children l)"
  using assms
proof (induction n arbitrary: l)
  case (Suc n)
  obtain s l1 where s: "sys_try_wait pid l = (s, l1)" by fastforce
  have keep: "lx_kernel l1 = lx_kernel l" "lx_ran l1 = lx_ran l"
    using sys_keeps_kernel(3) [of pid l] sys_keeps_ran(1) [of pid l] s by simp_all
  have "lx_children l1 = (case s of Ok (Some _) \<Rightarrow> remove1 pid (lx_children l) | _ \<Rightarrow> lx_children l)"
    using s by (auto simp: sys_try_wait_def Let_def split: result.splits option.splits)
  then show ?case
    using Suc keep s by (auto split: result.splits option.splits)
qed auto

lemma wait_for_exit_keeps [frame]:
  assumes "wait_for_exit pid t l = (r, l')"
  shows "lx_kernel l' = lx_kernel l" "lx_ran l' = lx_ran l"
    "lx_children l' = remove1 pid (lx_children l) \<or> lx_children l' = lx_children l \<and> \<not> cooperative (lx_kernel l)"
proof -
  obtain s l1 where s: "exit_polls (polls t 200) pid l = (s, l1)" by fastforce
  note k = exit_polls_keeps [OF s]
  obtain u l2 where u: "sys_kill pid SIGKILL l1 = (u, l2)" by fastforce
  obtain v l3 where v: "sys_wait pid l2 = (v, l3)" by fastforce
  have l2: "lx_kernel l2 = lx_kernel l1" "lx_ran l2 = lx_ran l1" "lx_children l2 = lx_children l1"
    using u sys_keeps_kernel(5) [of pid SIGKILL l1] sys_keeps_ran(3) [of pid SIGKILL l1]
      sys_keeps_children(2) [of pid SIGKILL l1] by simp_all
  have l3: "lx_kernel l3 = lx_kernel l2" "lx_ran l3 = lx_ran l2"
    using v sys_keeps_kernel(4) [of pid l2] sys_keeps_ran(2) [of pid l2] by simp_all
  have l3c: "lx_children l3 = (case v of Ok _ \<Rightarrow> remove1 pid (lx_children l2) | Err _ \<Rightarrow> lx_children l2)"
    using v by (auto simp: sys_wait_def Let_def split: result.splits)
  note unf = assms [unfolded wait_for_exit_def s]
  show "lx_kernel l' = lx_kernel l" "lx_ran l' = lx_ran l"
    using unf k l2 l3 u v by (auto split: result.splits bool.splits)
  have coop_s: "is_ok s" if "cooperative (lx_kernel l)"
  proof -
    have "is_ok (fst (exit_polls n pid l))" if "cooperative (lx_kernel l)" for n l
      using that
    proof (induction n arbitrary: l)
      case (Suc n)
      obtain s' l' where s': "sys_try_wait pid l = (s', l')" by fastforce
      then have "is_ok s'" "lx_kernel l' = lx_kernel l"
        using Suc.prems sys_keeps_kernel(3) [of pid l] by (auto simp: cooperative_def sys_try_wait_def Let_def)
      then show ?case using s' Suc by (auto split: result.splits option.splits)
    qed simp
    then show ?thesis using that s by (metis fst_conv)
  qed
  have coop_u: "is_ok u" "is_ok v" if "cooperative (lx_kernel l)"
    using that u v k l2 by (auto simp: cooperative_def sys_kill_def sys_wait_def Let_def)
  show "lx_children l' = remove1 pid (lx_children l)
      \<or> lx_children l' = lx_children l \<and> \<not> cooperative (lx_kernel l)"
    using unf k l2 l3c u v coop_s coop_u by (auto split: result.splits bool.splits)
qed

lemma cleanup_virtiofsd_keeps [frame]:
  "lx_kernel (cleanup_virtiofsd pids l) = lx_kernel l" "lx_ran (cleanup_virtiofsd pids l) = lx_ran l"
  by (induction pids arbitrary: l) (simp_all, (metis prod.collapse wait_for_exit_keeps(1,2))+)

lemma cleanup_virtiofsd_reaps:
  "cooperative (lx_kernel l) \<Longrightarrow>
     lx_children (cleanup_virtiofsd pids l) = fold remove1 pids (lx_children l)"
proof (induction pids arbitrary: l)
  case (Cons pid pids)
  obtain r l' where w: "wait_for_exit pid 1000 l = (r, l')" by fastforce
  then have "lx_children l' = remove1 pid (lx_children l)" "cooperative (lx_kernel l')"
    using wait_for_exit_keeps [OF w] Cons.prems by simp_all
  then show ?case using Cons.IH w by simp
qed simp

lemma cleanup_taps_effect [frame]:
  "lx_ran (cleanup_taps taps l) = lx_ran l @ map tap_del_cmd taps"
  "lx_kernel (cleanup_taps taps l) = lx_kernel l"
  "lx_children (cleanup_taps taps l) = lx_children l"
  by (induction taps arbitrary: l) (simp_all, simp add: sys_status_def)

lemma read_proc_keeps [frame]:
  assumes "read_proc_start_time pid l = (r, l')"
  shows "lx_signals l' = lx_signals l" "lx_children l' = lx_children l" "lx_ran l' = lx_ran l"
  using assms by (auto simp: read_proc_start_time_def sys_read_def Let_def)

lemma validate_process_keeps [frame]:
  assumes "validate_cloud_hypervisor_process p n l = (r, l')"
  shows "lx_signals l' = lx_signals l" "lx_children l' = lx_children l" "lx_ran l' = lx_ran l"
  using assms read_proc_keeps
  by (auto simp: validate_cloud_hypervisor_process_def sys_read_def Let_def
      split: result.splits option.splits if_splits prod.splits)

lemma process_identity_keeps [frame]:
  assumes "process_identity pid n l = (r, l')"
  shows "lx_signals l' = lx_signals l" "lx_children l' = lx_children l" "lx_kernel l' = lx_kernel l"
  using assms read_proc_keeps
  by (auto simp: process_identity_def read_proc_start_time_def sys_read_def Let_def split: prod.splits)

lemma find_ch_binary_keeps [frame]:
  assumes "find_ch_binary l = (r, l')"
  shows "lx_children l' = lx_children l"
  using assms sys_keeps_children
  by (auto simp: find_ch_binary_def sys_status_def sys_exists_def Let_def split: if_splits)

lemma find_virtiofsd_keeps [frame]:
  "find_virtiofsd_in names l = (r, l') \<Longrightarrow> lx_children l' = lx_children l"
  by (induction names arbitrary: l)
    (auto simp: sys_status_def sys_exists_def Let_def split: if_splits)

lemma wait_for_socket_keeps [frame]:
  "socket_polls n p l = (r, l') \<Longrightarrow> lx_children l' = lx_children l"
  by (induction n arbitrary: l) (auto simp: sys_exists_def split: if_splits)

text \<open>A successful start of the sidecars spawned one child per shared directory.\<close>

lemma start_sidecars_children:
  assumes "start_sidecars env name dir vols cs args l = (Ok (cs', args'), l')"
  shows "\<exists>new. cs' = cs @ new \<and> length new = length vols \<and> lx_children l' = rev new @ lx_children l"
  using assms
proof (induction vols arbitrary: cs args l)
  case (Cons vol vols)
  let ?sock = "path_join dir (path_of (''virtiofs-'' @ sd_tag vol @ ''.sock''))"
  from Cons.prems obtain prog l1 where v: "find_virtiofsd l = (Ok prog, l1)"
    by (auto simp: Let_def split: prod.splits result.splits)
  with Cons.prems obtain hp where hp: "path_to_str (sd_host_path vol) = Some hp"
    by (auto simp: Let_def split: option.splits)
  with Cons.prems v obtain pid l2 where sp: "sys_spawn (virtiofsd_cmd prog ?sock hp) (tick l1) = (Ok pid, l2)"
    by (auto simp: Let_def split: prod.splits result.splits)
  obtain b l3 where ws: "wait_for_socket ?sock 5000 l2 = (b, l3)" by fastforce
  have rec: "start_sidecars env name dir vols (cs @ [pid])
      (args @ [''--fs'', ''tag='' @ sd_tag vol @ '',socket='' @ display_path ?sock
         @ '',num_queues=1,queue_size=512'']) l3 = (Ok (cs', args'), l')"
    using Cons.prems v hp sp ws by (auto simp: Let_def split: if_splits)
  have "lx_children l3 = pid # lx_children l"
    using wait_for_socket_keeps [OF ws [unfolded wait_for_socket_def]] sp
      find_virtiofsd_keeps [OF v [unfolded find_virtiofsd_def]]
    by (auto simp: sys_spawn_def split: result.splits)
  with Cons.IH [OF rec] show ?case by fastforce
qed simp

lemma spawn_vmm_Ok:
  assumes "spawn_vmm name log cmd cs l = (Ok (identity, pid), l')"
  shows "lx_children l' = pid # lx_children l" "vp_pid identity = pid" "vp_start_time_ticks identity \<noteq> None"
proof -
  from assms obtain l1 where 1: "sys_create (with_extension log ''vmm.log'') l = (Ok (), l1)"
    by (auto simp: spawn_vmm_def Let_def split: prod.splits result.splits)
  with assms obtain l2 where 2: "sys_dup l1 = (Ok (), l2)"
    by (auto simp: spawn_vmm_def Let_def split: prod.splits result.splits)
  with assms 1 obtain pid' l3 where 3: "sys_spawn cmd l2 = (Ok pid', l3)"
    by (auto simp: spawn_vmm_def Let_def split: prod.splits result.splits)
  with assms 1 2 obtain id' l4 where 4: "process_identity pid' name l3 = (Ok id', l4)"
    by (auto simp: spawn_vmm_def Let_def split: prod.splits result.splits)
  have 5: "pid' = pid" "id' = identity" "sys_try_wait pid l4 = (Ok None, l')"
    using assms 1 2 3 4 by (auto simp: spawn_vmm_def Let_def split: prod.splits result.splits option.splits)
  have "lx_children l' = lx_children l4"
    using 5(3) by (auto simp: sys_try_wait_def Let_def split: result.splits option.splits)
  moreover have "lx_children l3 = pid # lx_children l"
    using 1 2 3 5 by (auto simp: sys_create_def sys_dup_def sys_spawn_def split: result.splits)
  ultimately show "lx_children l' = pid # lx_children l"
    using process_identity_keeps(2) [OF 4] by simp
  show "vp_pid identity = pid" "vp_start_time_ticks identity \<noteq> None"
    using 4 5 by (auto simp: process_identity_def Let_def split: prod.splits option.splits)
qed

section \<open>The driver contract\<close>

text \<open>Every tracked VM has an identity with a start time, for the process that is its child.\<close>

definition ch_inv :: "CloudHvDriver \<Rightarrow> bool" where
  "ch_inv d \<longleftrightarrow> (\<forall>n p. ch_vms d n = Some p \<longrightarrow>
     vp_pid (vmp_identity p) = vmp_child p \<and> vp_start_time_ticks (vmp_identity p) \<noteq> None)"

text \<open>What a successful boot did.\<close>

lemma ch_boot_Ok:
  assumes "ch_boot env c d = (Ok h, d')"
  obtains identity taps sidecars where
    "h = \<lparr>h_name = cfg_name c, h_namespace = cfg_namespace c, h_state = Starting,
      h_process = Some identity, h_serial_log = cfg_serial_log c, h_machine_id = None\<rparr>"
    "ch_vms d' = (ch_vms d)(cfg_name c \<mapsto> \<lparr>vmp_identity = identity, vmp_child = vp_pid identity,
      vmp_tap_devices = taps, vmp_virtiofsd_children = sidecars, vmp_ready = empty_cache\<rparr>)"
    "vp_start_time_ticks identity \<noteq> None" "length sidecars = length (cfg_shared_dirs c)"
    "lx_children (ch_host d') = vp_pid identity # rev sidecars @ lx_children (ch_host d)"
    "\<exists>args. net_args (env_sha256 env) (cfg_name c) (cfg_networks c) = Ok (args, taps)" "\<not> ch_poisoned d"
proof -
  let ?dir = "case path_parent (cfg_serial_log c) of Some p \<Rightarrow> p | None \<Rightarrow> path_of ''/tmp''"
  from assms obtain bin l1 where 1: "find_ch_binary (ch_host d) = (Ok bin, l1)"
    by (auto simp: ch_boot_def Let_def split: prod.splits result.splits)
  with assms obtain nargs taps where 2: "net_args (env_sha256 env) (cfg_name c) (cfg_networks c) = Ok (nargs, taps)"
    by (auto simp: ch_boot_def Let_def split: result.splits)
  with assms 1 obtain cs fargs l2 where 3: "start_sidecars env (cfg_name c) ?dir (cfg_shared_dirs c) [] [] l1 = (Ok (cs, fargs), l2)"
    by (auto simp: ch_boot_def Let_def split: prod.splits result.splits)
  with assms 1 2 obtain identity pid l3 cmd where
    4: "spawn_vmm (cfg_name c) (cfg_serial_log c) cmd cs l2 = (Ok (identity, pid), l3)"
    and d': "h = \<lparr>h_name = cfg_name c, h_namespace = cfg_namespace c, h_state = Starting,
      h_process = Some identity, h_serial_log = cfg_serial_log c, h_machine_id = None\<rparr>"
      "d' = d\<lparr>ch_host := l3, ch_vms := (ch_vms d)(cfg_name c \<mapsto> \<lparr>vmp_identity = identity, vmp_child = pid,
        vmp_tap_devices = taps, vmp_virtiofsd_children = cs, vmp_ready = empty_cache\<rparr>)\<rparr>" "\<not> ch_poisoned d"
    by (auto simp: ch_boot_def Let_def split: prod.splits result.splits if_splits)
  note vmm = spawn_vmm_Ok [OF 4]
  have "length cs = length (cfg_shared_dirs c)" "lx_children l2 = rev cs @ lx_children (ch_host d)"
    using start_sidecars_children [OF 3] find_ch_binary_keeps [OF 1] by auto
  then show ?thesis using that [of identity taps cs] d' 2 vmm by auto
qed

lemma ch_stop_vms: "ch_stop h d = (r, d') \<Longrightarrow> ch_vms d' = ch_vms d \<or> ch_vms d' = (ch_vms d)(h_name h := None)"
  by (auto simp: ch_stop_def Let_def split: if_splits option.splits prod.splits result.splits)

lemma ch_kill_vms: "ch_kill h d = (r, d') \<Longrightarrow> ch_vms d' = ch_vms d \<or> ch_vms d' = (ch_vms d)(h_name h := None)"
  by (auto simp: ch_kill_def Let_def split: if_splits option.splits prod.splits result.splits)

lemma ch_state_vms:
  "ch_state h d = (r, d') \<Longrightarrow> ch_vms d' = ch_vms d \<or> ch_vms d' = (ch_vms d)(h_name h := None)
     \<or> (\<exists>p cache. ch_vms d (h_name h) = Some p \<and> ch_vms d' = (ch_vms d)(h_name h \<mapsto> p\<lparr>vmp_ready := cache\<rparr>))"
  by (auto simp: ch_state_def Let_def split: if_splits option.splits prod.splits result.splits)

lemma ch_inv_boot:
  assumes "ch_inv d"
  shows "ch_inv (snd (ch_boot env c d))"
proof (cases "ch_boot env c d")
  case (Pair r d')
  show ?thesis
  proof (cases r)
    case (Ok h)
    then show ?thesis
      using Pair assms by (auto simp: ch_inv_def elim!: ch_boot_Ok split: if_splits)
  next
    case (Err e)
    then have "ch_vms d' = ch_vms d"
      using Pair by (auto simp: ch_boot_def Let_def split: prod.splits result.splits if_splits)
    then show ?thesis using Pair assms by (simp add: ch_inv_def)
  qed
qed

interpretation cloud_hv: vm_driver "cloud_hv_driver env" ch_inv
proof unfold_locales
  fix c d h d'
  assume "drv_boot (cloud_hv_driver env) c d = (Ok h, d')"
  then have "ch_boot env c d = (Ok h, d')" by (simp add: cloud_hv_driver_def)
  then show "h_name h = cfg_name c \<and> h_namespace h = cfg_namespace c
      \<and> h_serial_log h = cfg_serial_log c \<and> h_state h \<in> {Starting, Running}"
    by (rule ch_boot_Ok) simp
next
  fix c d assume "ch_inv d"
  then show "ch_inv (snd (drv_boot (cloud_hv_driver env) c d))"
    by (simp add: cloud_hv_driver_def ch_inv_boot)
next
  fix d h assume inv: "ch_inv d"
  show "ch_inv (snd (drv_stop (cloud_hv_driver env) h d))"
    using inv ch_stop_vms [of h d] by (cases "ch_stop h d") (auto simp: cloud_hv_driver_def ch_inv_def split: if_splits)
  show "ch_inv (snd (drv_kill (cloud_hv_driver env) h d))"
    using inv ch_kill_vms [of h d] by (cases "ch_kill h d") (auto simp: cloud_hv_driver_def ch_inv_def split: if_splits)
  show "ch_inv (snd (drv_state (cloud_hv_driver env) h d))"
    using inv ch_state_vms [of h d] by (cases "ch_state h d") (auto simp: cloud_hv_driver_def ch_inv_def split: if_splits)
  show "ch_inv (snd (drv_pause (cloud_hv_driver env) h d))"
    "ch_inv (snd (drv_resume (cloud_hv_driver env) h d))"
    using inv by (simp_all add: cloud_hv_driver_def default_pause_def default_resume_def)
qed

section \<open>Properties\<close>

text \<open>C7: a successful boot tracks everything it started.  The VM is entered in the table under
  its name, and the processes spawned and not reaped grow by exactly its VMM and one sidecar per
  shared directory, all of which the table entry holds; the entry names every TAP device of the
  configuration.\<close>

theorem ch_boot_tracks:
  assumes "ch_boot env c d = (Ok h, d')"
  shows "\<exists>p. ch_vms d' = (ch_vms d)(cfg_name c \<mapsto> p) \<and> h_process h = Some (vmp_identity p)
    \<and> vp_pid (vmp_identity p) = vmp_child p
    \<and> length (vmp_virtiofsd_children p) = length (cfg_shared_dirs c)
    \<and> lx_children (ch_host d') = vmp_child p # rev (vmp_virtiofsd_children p) @ lx_children (ch_host d)
    \<and> (\<forall>tap mac. Tap tap mac \<in> set (cfg_networks c) \<longrightarrow> tap \<in> set (vmp_tap_devices p))"
proof -
  have taps: "tap \<in> set taps"
    if "net_args sha n nets = Ok (args, taps)" "Tap tap mac \<in> set nets" for sha n nets args taps tap mac
    using that by (induction sha n nets arbitrary: args taps rule: net_args.induct) (auto simp: ok_iff Let_def)
  show ?thesis using assms by (rule ch_boot_Ok) (use taps in \<open>fastforce\<close>)
qed

text \<open>C9: stopping or killing a tracked VM gives back what it held.  Whatever the kernel answers,
  the VM leaves the table and the deletion of each of its TAP devices is run; on a kernel where
  waiting and killing work, its VMM and all its sidecars are reaped, and no other child is.\<close>

theorem ch_stop_kill_release:
  assumes "\<not> ch_poisoned d" "ch_vms d (h_name h) = Some p"
    and "op \<in> {ch_stop, ch_kill}" "op h d = (r, d')"
  shows "ch_vms d' = (ch_vms d)(h_name h := None)
    \<and> lx_ran (ch_host d') = lx_ran (ch_host d) @ map tap_del_cmd (vmp_tap_devices p)
    \<and> (cooperative (lx_kernel (ch_host d)) \<longrightarrow>
         lx_children (ch_host d') =
           fold remove1 (vmp_child p # vmp_virtiofsd_children p) (lx_children (ch_host d)))"
proof -
  define sig where "sig = (if op = ch_stop then SIGTERM else SIGKILL)"
  define tgt where "tgt = (if op = ch_stop then vp_pid (vmp_identity p) else vmp_child p)"
  define t where "t = (if op = ch_stop then 10000 else (2000::nat))"
  obtain kr l1 where k: "sys_kill tgt sig (ch_host d) = (kr, l1)" by fastforce
  obtain wr l2 where w: "wait_for_exit (vmp_child p) t l1 = (wr, l2)" by fastforce
  let ?fin = "\<lambda>l. cleanup_virtiofsd (vmp_virtiofsd_children p) (cleanup_taps (vmp_tap_devices p) l)"
  have d': "ch_vms d' = (ch_vms d)(h_name h := None)
      \<and> (ch_host d' = ?fin l2 \<or> \<not> is_ok kr \<and> ch_host d' = ?fin l1)"
  proof (cases "op = ch_stop")
    case True
    then show ?thesis
      using assms(1,2,4) k w by (cases kr) (auto simp: ch_stop_def sig_def tgt_def t_def)
  next
    case False
    then have "op = ch_kill" using assms(3) by simp
    then show ?thesis
      using assms(1,2,4) k w False
      by (cases kr) (auto simp: ch_kill_def sig_def tgt_def t_def)
  qed
  have l1: "lx_ran l1 = lx_ran (ch_host d)" "lx_children l1 = lx_children (ch_host d)"
      "lx_kernel l1 = lx_kernel (ch_host d)"
    using k sys_keeps_ran(3) [of tgt sig "ch_host d"] sys_keeps_children(2) [of tgt sig "ch_host d"]
      sys_keeps_kernel(5) [of tgt sig "ch_host d"] by simp_all
  have ok: "is_ok kr" if "cooperative (lx_kernel (ch_host d))"
    using that k by (auto simp: cooperative_def sys_kill_def)
  note l2 = wait_for_exit_keeps [OF w]
  have "lx_ran (ch_host d') = lx_ran (ch_host d) @ map tap_del_cmd (vmp_tap_devices p)"
    using d' l1 l2 by (auto simp: cleanup_virtiofsd_keeps cleanup_taps_effect)
  moreover have "lx_children (ch_host d') =
      fold remove1 (vmp_child p # vmp_virtiofsd_children p) (lx_children (ch_host d))"
    if "cooperative (lx_kernel (ch_host d))"
  proof -
    have "ch_host d' = ?fin l2" "cooperative (lx_kernel l2)" "lx_children l2 = remove1 (vmp_child p) (lx_children l1)"
      using d' ok that l1 l2 by auto
    then show ?thesis by (simp add: cleanup_virtiofsd_reaps cleanup_taps_effect l1)
  qed
  ultimately show ?thesis using d' by blast
qed

text \<open>The clean-up of a restored VM: looking whether the process is there sends nothing, and waiting for
  it sends at most one signal, to it.\<close>

lemma gone_polls_signals: "lx_signals (snd (gone_polls n process l)) = lx_signals l"
proof (induction n arbitrary: l)
  case (Suc n)
  obtain alive l1 where p: "pid_exists process l = (alive, l1)" by fastforce
  have "lx_signals l1 = lx_signals l"
    using p read_proc_keeps(1)
    by (fastforce simp: pid_exists_def sys_probe_def split: prod.splits if_splits option.splits)
  then show ?case using Suc.IH p by simp
qed simp

lemma wait_for_pid_exit_signals:
  assumes "wait_for_pid_exit process n t l = (r, l')"
  shows "lx_signals l' = lx_signals l \<or> lx_signals l' = lx_signals l @ [(sint (vp_pid process), SIGKILL)]"
proof -
  obtain gone l1 where 1: "gone_polls (polls t 200) process l = (gone, l1)" by fastforce
  obtain kr l2 where 2: "sys_kill (vp_pid process) SIGKILL l1 = (kr, l2)" by fastforce
  obtain gone' l3 where 3: "gone_polls (polls 2000 100) process l2 = (gone', l3)" by fastforce
  have "lx_signals l1 = lx_signals l" "lx_signals l2 = lx_signals l1 @ [(sint (vp_pid process), SIGKILL)]"
    "lx_signals l3 = lx_signals l2"
    using gone_polls_signals [of "polls t 200" process l] gone_polls_signals [of "polls 2000 100" process l2] 1 2 3
    by (auto simp: sys_kill_def)
  then show ?thesis
    using assms 1 2 3 by (auto simp: wait_for_pid_exit_def Let_def split: if_splits result.splits)
qed

text \<open>The process is the one the handle means: its command line is that of the hypervisor, and it was
  started when the handle says, if it says.\<close>

definition genuine :: "VmmProcess \<Rightarrow> linux \<Rightarrow> bool" where
  "genuine process l \<longleftrightarrow>
     (case fs_read (proc_path (vp_pid process) ''cmdline'') (k_fs (lx_kernel l) (lx_calls l)) of
        Err _ \<Rightarrow> False
      | Ok cmdline \<Rightarrow> str_contains ''cloud-hypervisor'' (from_utf8_lossy cmdline))
     \<and> (case vp_start_time_ticks process of None \<Rightarrow> True
        | Some t \<Rightarrow> fst (read_proc_start_time (vp_pid process) (tick l)) = Some t)"

lemma validate_process_genuine:
  "validate_cloud_hypervisor_process process n l = (Ok u, l') \<Longrightarrow> genuine process l"
  by (auto simp: validate_cloud_hypervisor_process_def genuine_def sys_read_def Let_def
      split: result.splits option.splits if_splits prod.splits)

lemma restored_stop_signals:
  assumes "ch_vms d (h_name h) = None" "ch_stop h d = (r, d')"
    "lx_signals (ch_host d') \<noteq> lx_signals (ch_host d)"
  shows "\<exists>process sent. h_process h = Some process \<and> genuine process (ch_host d)
     \<and> sent \<noteq> [] \<and> prefix sent [SIGTERM, SIGKILL]
     \<and> lx_signals (ch_host d') = lx_signals (ch_host d) @ map (Pair (sint (vp_pid process))) sent"
proof -
  obtain process where pr: "h_process h = Some process"
    using assms by (cases "h_process h") (auto simp: ch_stop_def split: if_splits)
  obtain v l where v: "validate_cloud_hypervisor_process process (h_name h) (ch_host d) = (v, l)" by fastforce
  note l = validate_process_keeps(1) [OF v]
  obtain kr l1 where k: "sys_kill (vp_pid process) SIGTERM l = (kr, l1)" by fastforce
  have l1: "lx_signals l1 = lx_signals l @ [(sint (vp_pid process), SIGTERM)]" using k by (auto simp: sys_kill_def)
  obtain wr l2 where w: "wait_for_pid_exit process (h_name h) 10000 l1 = (wr, l2)" by fastforce
  have "\<not> ch_poisoned d \<and> is_ok v \<and> ch_host d' = (if is_ok kr then l2 else l1)"
    using assms pr v k w l
    by (cases v; cases kr) (auto simp: ch_stop_def is_ok_def split: if_splits)
  then have "genuine process (ch_host d)"
    and "lx_signals (ch_host d') = lx_signals (ch_host d) @ map (Pair (sint (vp_pid process))) [SIGTERM]
      \<or> lx_signals (ch_host d') = lx_signals (ch_host d) @ map (Pair (sint (vp_pid process))) [SIGTERM, SIGKILL]"
    using validate_process_genuine [of process "h_name h" "ch_host d"] v l l1 wait_for_pid_exit_signals [OF w]
    by (auto simp: is_ok_iff)
  then show ?thesis using pr by (metis Cons_prefix_Cons Nil_prefix list.distinct(1) prefix_order.refl)
qed

lemma restored_kill_signals:
  assumes "ch_vms d (h_name h) = None" "ch_kill h d = (r, d')"
    "lx_signals (ch_host d') \<noteq> lx_signals (ch_host d)"
  shows "\<exists>process. h_process h = Some process \<and> genuine process (ch_host d)
     \<and> lx_signals (ch_host d') = lx_signals (ch_host d) @ [(sint (vp_pid process), SIGKILL)]"
proof -
  obtain process where pr: "h_process h = Some process"
    using assms by (cases "h_process h") (auto simp: ch_kill_def split: if_splits)
  obtain v l where v: "validate_cloud_hypervisor_process process (h_name h) (ch_host d) = (v, l)" by fastforce
  note l = validate_process_keeps(1) [OF v]
  have "is_ok v \<and> ch_host d' = snd (sys_kill (vp_pid process) SIGKILL l)"
    using assms pr v l by (cases v) (auto simp: ch_kill_def is_ok_def split: if_splits prod.splits)
  then show ?thesis
    using validate_process_genuine [of process "h_name h" "ch_host d"] v l pr
    by (auto simp: is_ok_iff sys_kill_def)
qed

text \<open>C8: a handle restored from elsewhere never makes the driver signal a stranger.  When the VM is not
  in the table, \<open>stop\<close> and \<open>kill\<close> send nothing, or the handle has a process whose command line,
  read at the start of the call, contains \<open>cloud-hypervisor\<close> and whose start time, read right after
  it, is the recorded one if one is recorded; and every signal goes to exactly that process id
  (as \<open>i32\<close>): a \<open>SIGTERM\<close> that at most one \<open>SIGKILL\<close> follows for \<open>stop\<close>, one \<open>SIGKILL\<close> for \<open>kill\<close>.\<close>

theorem restored_signal_validated:
  assumes "ch_vms d (h_name h) = None" "op h d = (r, d')"
    and "(op, sigs) \<in> {(ch_stop, [SIGTERM, SIGKILL]), (ch_kill, [SIGKILL])}"
    and "lx_signals (ch_host d') \<noteq> lx_signals (ch_host d)"
  shows "\<exists>process sent. h_process h = Some process \<and> genuine process (ch_host d)
     \<and> sent \<noteq> [] \<and> prefix sent sigs
     \<and> lx_signals (ch_host d') = lx_signals (ch_host d) @ map (Pair (sint (vp_pid process))) sent"
proof -
  consider "op = ch_stop" "sigs = [SIGTERM, SIGKILL]" | "op = ch_kill" "sigs = [SIGKILL]"
    using assms(3) by auto
  then show ?thesis
  proof cases
    case 1
    then show ?thesis using assms restored_stop_signals [of d h r d'] by simp
  next
    case 2
    then obtain process where "h_process h = Some process" "genuine process (ch_host d)"
      "lx_signals (ch_host d') = lx_signals (ch_host d) @ map (Pair (sint (vp_pid process))) [SIGKILL]"
      using assms restored_kill_signals [of d h r d'] by auto
    then show ?thesis using 2 by (metis list.distinct(1) prefix_order.refl)
  qed
qed

text \<open>A VM whose VMM has exited loses its sidecars and TAP devices.  The next \<open>state\<close> query
  reports it stopped and removes the table entry, the only place that holds them, without
  running the deletion of a TAP device, and without signalling or reaping a sidecar.\<close>

theorem state_drops_sidecars:
  assumes "\<not> ch_poisoned d" "ch_vms d (h_name h) = Some p"
    and "k_try_wait (lx_kernel (ch_host d)) (lx_calls (ch_host d)) (vmp_child p) = Ok (Some status)"
    and "ch_state h d = (r, d')"
  shows "r = Ok Stopped \<and> ch_vms d' = (ch_vms d)(h_name h := None)
    \<and> lx_ran (ch_host d') = lx_ran (ch_host d) \<and> lx_signals (ch_host d') = lx_signals (ch_host d)
    \<and> (\<forall>pid \<in> set (vmp_virtiofsd_children p). pid \<noteq> vmp_child p \<and> pid \<in> set (lx_children (ch_host d))
         \<longrightarrow> pid \<in> set (lx_children (ch_host d')))"
  using assms by (auto simp: ch_state_def sys_try_wait_def Let_def)

section \<open>An example machine\<close>

text \<open>Every probe succeeds, every process is alive until it is waited for, and \<open>/proc\<close> shows a
  cloud-hypervisor started at tick 12345.\<close>

definition proc_files :: "path \<rightharpoonup> bytes" where
  "proc_files p =
     (case p of
        [_, _, _, Normal file] \<Rightarrow>
          (if file = ''stat''
           then Some (as_bytes ''7 (vmm) S 1 1 1 0 -1 0 0 0 0 0 0 0 0 0 20 0 1 0 12345'')
           else Some (as_bytes ''/usr/bin/cloud-hypervisor''))
      | _ \<Rightarrow> Some [])"

definition ok_kernel :: kernel where
  "ok_kernel = \<lparr>k_fs = (\<lambda>_. quiet_fs\<lparr>fs_files := proc_files\<rparr>),
     k_spawn = (\<lambda>i _. Ok (word_of_nat (100 + i))), k_status = (\<lambda>_ _. Ok True),
     k_try_wait = (\<lambda>_ _. Ok None), k_wait = (\<lambda>_ _. Ok ()), k_kill = (\<lambda>_ _ _. Ok ()),
     k_create = (\<lambda>_ _. Ok ()), k_dup = (\<lambda>_. Ok ())\<rparr>"

definition ch_new :: "kernel \<Rightarrow> CloudHvDriver" where
  "ch_new k = \<lparr>ch_vms = (\<lambda>_. None), ch_poisoned = False,
     ch_host = \<lparr>lx_kernel = k, lx_calls = 0, lx_children = [], lx_signals = [], lx_ran = []\<rparr>\<rparr>"

definition test_env :: ch_env where
  "test_env = \<lparr>env_sha256 = (\<lambda>_. [0x0a, 0x1b, 0x2c]), env_path_debug = display_path\<rparr>"

definition web_config :: VmConfig where
  "web_config = \<lparr>cfg_name = ''web'', cfg_namespace = ''default'', cfg_kernel = [RootDir, Normal ''k''],
     cfg_initramfs = None, cfg_root_disk = None, cfg_data_disk = None, cfg_seed_iso = None,
     cfg_cpus = 2, cfg_memory_mb = 512, cfg_networks = [Tap ''tap0'' None],
     cfg_shared_dirs = [\<lparr>sd_host_path = [RootDir, Normal ''srv''], sd_tag = ''data'', sd_read_only = False\<rparr>],
     cfg_serial_log = [RootDir, Normal ''vm'', Normal ''serial.log''], cfg_cmdline = None,
     cfg_netns = None, cfg_vsock = False, cfg_machine_id = None, cfg_efi_variable_store = None,
     cfg_rosetta = False\<rparr>"

lemma web_boots: "\<exists>h d'. ch_boot test_env web_config (ch_new ok_kernel) = (Ok h, d')"
proof -
  have "is_ok (fst (ch_boot test_env web_config (ch_new ok_kernel)))" by code_simp
  then show ?thesis by (cases "ch_boot test_env web_config (ch_new ok_kernel)") (auto simp: is_ok_iff)
qed

theorem ch_boot_tracks_witness:
  "\<exists>h d' p. ch_boot test_env web_config (ch_new ok_kernel) = (Ok h, d')
     \<and> ch_vms d' ''web'' = Some p \<and> length (vmp_virtiofsd_children p) = 1
     \<and> ''tap0'' \<in> set (vmp_tap_devices p)"
proof -
  obtain h d' where b: "ch_boot test_env web_config (ch_new ok_kernel) = (Ok h, d')"
    using web_boots by blast
  have "Tap ''tap0'' None \<in> set (cfg_networks web_config)" "cfg_name web_config = ''web''"
    "length (cfg_shared_dirs web_config) = 1"
    by (simp_all add: web_config_def)
  then show ?thesis using ch_boot_tracks [OF b] b by fastforce
qed

definition web_process :: VmProcess where
  "web_process = \<lparr>vmp_identity = \<lparr>vp_pid = 110, vp_start_time_ticks = Some 12345\<rparr>, vmp_child = 110,
     vmp_tap_devices = [''tap0''], vmp_virtiofsd_children = [105], vmp_ready = empty_cache\<rparr>"

definition web_handle :: VmHandle where
  "web_handle = \<lparr>h_name = ''web'', h_namespace = ''default'', h_state = Running,
     h_process = Some (vmp_identity web_process), h_serial_log = [RootDir, Normal ''serial.log''],
     h_machine_id = None\<rparr>"

definition running_host :: "kernel \<Rightarrow> CloudHvDriver" where
  "running_host k = (ch_new k)\<lparr>ch_vms := [''web'' \<mapsto> web_process],
     ch_host := (ch_host (ch_new k))\<lparr>lx_children := [110, 105, 42]\<rparr>\<rparr>"

theorem ch_stop_kill_release_witness:
  "let d' = snd (ch_stop web_handle (running_host ok_kernel))
   in ch_vms d' ''web'' = None \<and> lx_children (ch_host d') = [42] \<and> lx_ran (ch_host d') = [tap_del_cmd ''tap0'']"
proof -
  let ?d = "running_host ok_kernel"
  obtain r d' where s: "ch_stop web_handle ?d = (r, d')" by fastforce
  have coop: "cooperative (lx_kernel (ch_host ?d))"
    by (simp add: running_host_def ch_new_def ok_kernel_def cooperative_def)
  have p: "\<not> ch_poisoned ?d" "ch_vms ?d (h_name web_handle) = Some web_process"
    by (simp_all add: running_host_def ch_new_def web_handle_def)
  show ?thesis
    using ch_stop_kill_release [where op = ch_stop, OF p _ s] s coop
    by (simp add: running_host_def ch_new_def web_process_def web_handle_def)
qed

definition empty_host :: CloudHvDriver where
  "empty_host = ch_new ok_kernel"

theorem restored_signal_validated_witness:
  "lx_signals (ch_host (snd (ch_kill web_handle empty_host))) = [(110, SIGKILL)]
   \<and> genuine (vmp_identity web_process) (ch_host empty_host)"
proof -
  obtain r d' where k: "ch_kill web_handle empty_host = (r, d')" by fastforce
  have sig: "lx_signals (ch_host (snd (ch_kill web_handle empty_host))) = [(110, SIGKILL)]"
    by code_simp
  then have "lx_signals (ch_host d') \<noteq> lx_signals (ch_host empty_host)"
    using k by (simp add: empty_host_def ch_new_def)
  then show ?thesis
    using restored_signal_validated [where op = ch_kill and sigs = "[SIGKILL]", OF _ k] sig
    by (fastforce simp: empty_host_def ch_new_def web_handle_def)
qed

definition exited_kernel :: kernel where
  "exited_kernel = ok_kernel\<lparr>k_try_wait := (\<lambda>_ _. Ok (Some ''exit status: 1''))\<rparr>"

theorem state_drops_sidecars_witness:
  "let d' = snd (ch_state web_handle (running_host exited_kernel))
   in ch_vms d' ''web'' = None \<and> 105 \<in> set (lx_children (ch_host d')) \<and> lx_ran (ch_host d') = []"
proof -
  let ?d = "running_host exited_kernel"
  obtain r d' where s: "ch_state web_handle ?d = (r, d')" by fastforce
  have p: "\<not> ch_poisoned ?d" "ch_vms ?d (h_name web_handle) = Some web_process"
    "k_try_wait (lx_kernel (ch_host ?d)) (lx_calls (ch_host ?d)) (vmp_child web_process) = Ok (Some ''exit status: 1'')"
    by (simp_all add: running_host_def ch_new_def web_handle_def exited_kernel_def)
  show ?thesis
    using state_drops_sidecars [OF p s] s
    by (simp add: running_host_def ch_new_def web_process_def web_handle_def)
qed


end
