(* ===== verification/Boot.thy ===== *)
theory Boot
  imports Config
begin

text \<open>
  \<open>src/driver/boot.rs\<close>: the guest memory of a direct Linux boot.  Guest memory is a byte list;
  a slice operation whose range leaves it panics, which is the value \<open>None\<close> here, and so is the
  checked subtraction of the last e820 entry.  Addresses and lengths are natural numbers: they
  are at most the length of an allocated slice plus a few pages, so \<open>usize\<close> does not wrap; the
  fields written into memory are taken at their width.
\<close>

section \<open>Layout\<close>

definition BOOT_PARAMS_ADDR :: nat where "BOOT_PARAMS_ADDR = 0x7000"
definition CMDLINE_ADDR :: nat where "CMDLINE_ADDR = 0x8000"
definition CMDLINE_MAX :: nat where "CMDLINE_MAX = 4096"
definition PML4_ADDR :: nat where "PML4_ADDR = 0x9000"
definition PDPT_ADDR :: nat where "PDPT_ADDR = 0xA000"
definition PD_ADDR :: nat where "PD_ADDR = 0xB000"
definition GDT_ADDR :: nat where "GDT_ADDR = 0xC000"
definition KERNEL_ADDR :: nat where "KERNEL_ADDR = 0x100000"

definition PTE_PRESENT :: u64 where "PTE_PRESENT = 1"
definition PTE_WRITABLE :: u64 where "PTE_WRITABLE = 2"
definition PTE_PAGE_SIZE :: u64 where "PTE_PAGE_SIZE = 128"

definition GDT_NULL :: u64 where "GDT_NULL = 0"
definition GDT_CODE64 :: u64 where "GDT_CODE64 = 0x00AF9A000000FFFF"
definition GDT_DATA64 :: u64 where "GDT_DATA64 = 0x00CF92000000FFFF"
definition GDT_CODE_SELECTOR :: u16 where "GDT_CODE_SELECTOR = 0x08"
definition GDT_DATA_SELECTOR :: u16 where "GDT_DATA_SELECTOR = 0x10"

lemmas layout = BOOT_PARAMS_ADDR_def CMDLINE_ADDR_def CMDLINE_MAX_def PML4_ADDR_def PDPT_ADDR_def
  PD_ADDR_def GDT_ADDR_def KERNEL_ADDR_def

section \<open>Page tables and segments\<close>

definition pd_entry :: "nat \<Rightarrow> u64" where
  "pd_entry i =
     (let phys_addr = word_of_nat i * 2 * 1024 * 1024
      in phys_addr OR PTE_PRESENT OR PTE_WRITABLE OR PTE_PAGE_SIZE)"

fun write_pd :: "nat list \<Rightarrow> bytes \<Rightarrow> bytes option" where
  "write_pd [] memory = Some memory"
| "write_pd (i # is) memory =
     slice_copy memory (PD_ADDR + i * 8) (u64_to_le (pd_entry i)) \<bind> write_pd is"

definition setup_page_tables :: "bytes \<Rightarrow> nat \<Rightarrow> bytes option" where
  "setup_page_tables memory memory_mb = do {
     memory \<leftarrow> slice_copy memory PML4_ADDR (zeros 0x3000);
     memory \<leftarrow> slice_copy memory PML4_ADDR
       (u64_to_le (word_of_nat PDPT_ADDR OR PTE_PRESENT OR PTE_WRITABLE));
     memory \<leftarrow> slice_copy memory PDPT_ADDR
       (u64_to_le (word_of_nat PD_ADDR OR PTE_PRESENT OR PTE_WRITABLE));
     let num_pages = min ((memory_mb + 1) div 2) 512;
     write_pd [0..<num_pages] memory
   }"

definition setup_gdt :: "bytes \<Rightarrow> bytes option" where
  "setup_gdt memory = do {
     memory \<leftarrow> slice_copy memory GDT_ADDR (u64_to_le GDT_NULL);
     memory \<leftarrow> slice_copy memory (GDT_ADDR + 8) (u64_to_le GDT_CODE64);
     slice_copy memory (GDT_ADDR + 16) (u64_to_le GDT_DATA64)
   }"

section \<open>Loading a kernel\<close>

definition write_e820_entry :: "bytes \<Rightarrow> nat \<Rightarrow> u64 \<Rightarrow> u64 \<Rightarrow> u32 \<Rightarrow> bytes option" where
  "write_e820_entry memory offset addr sz entry_type = do {
     memory \<leftarrow> slice_copy memory offset (u64_to_le addr);
     memory \<leftarrow> slice_copy memory (offset + 8) (u64_to_le sz);
     slice_copy memory (offset + 16) (u32_to_le entry_type)
   }"

text \<open>The three parts of \<open>load_kernel_from_bytes\<close> after the protected-mode kernel is in place:
  the copied setup header and the fields the loader owns, the command line, the initramfs, and
  the memory map.\<close>

definition write_setup_header :: "bytes \<Rightarrow> bytes \<Rightarrow> bytes option" where
  "write_setup_header memory kernel_data = do {
     let bp = BOOT_PARAMS_ADDR;
     let header_end = min 0x290 (length kernel_data);
     memory \<leftarrow> slice_copy memory (bp + 0x1F1) (window kernel_data 0x1F1 (header_end - 0x1F1));
     memory \<leftarrow> slice_set memory (bp + 0x210) 0xFF;
     flags \<leftarrow> slice_get memory (bp + 0x211);
     memory \<leftarrow> slice_set memory (bp + 0x211) (flags OR (0x01 OR 0x80));
     slice_copy memory (bp + 0x224) (u16_to_le 0xFE00)
   }"

definition write_cmdline :: "bytes \<Rightarrow> string \<Rightarrow> bytes option" where
  "write_cmdline memory cmdline = do {
     let cmdline_bytes = as_bytes cmdline;
     let cmdline_len = min (length cmdline_bytes) (CMDLINE_MAX - 1);
     memory \<leftarrow> slice_copy memory CMDLINE_ADDR (take cmdline_len cmdline_bytes);
     memory \<leftarrow> slice_set memory (CMDLINE_ADDR + cmdline_len) 0;
     slice_copy memory (BOOT_PARAMS_ADDR + 0x228) (u32_to_le (word_of_nat CMDLINE_ADDR))
   }"

text \<open>\<open>(kernel_end + 0xFFF) & !0xFFF\<close>\<close>

definition initrd_address :: "nat \<Rightarrow> nat" where
  "initrd_address kernel_end = (kernel_end + 0xFFF) div 0x1000 * 0x1000"

definition write_initramfs ::
  "bytes \<Rightarrow> path option \<Rightarrow> nat \<Rightarrow> fs \<Rightarrow> ((unit, VmError) result \<times> bytes) option" where
  "write_initramfs memory initramfs_path kernel_end w =
     (case initramfs_path of None \<Rightarrow> Some (Ok (), memory)
      | Some p \<Rightarrow>
        (case fs_read p w of
           Err e \<Rightarrow> Some (Err (BootFailed [] (''failed to read initramfs: '' @ io_text e)), memory)
         | Ok initrd_data \<Rightarrow>
           (let initrd_addr = initrd_address kernel_end;
                initrd_end = initrd_addr + length initrd_data
            in if length memory < initrd_end
               then Some (Err (InvalidConfig ''not enough memory for kernel + initramfs''), memory)
               else do {
                 memory \<leftarrow> slice_copy memory initrd_addr initrd_data;
                 memory \<leftarrow> slice_copy memory (BOOT_PARAMS_ADDR + 0x218)
                   (u32_to_le (word_of_nat initrd_addr));
                 memory \<leftarrow> slice_copy memory (BOOT_PARAMS_ADDR + 0x21C)
                   (u32_to_le (word_of_nat (length initrd_data)));
                 Some (Ok (), memory)
               })))"

definition write_e820_map :: "bytes \<Rightarrow> nat \<Rightarrow> bytes option" where
  "write_e820_map memory memory_mb = do {
     let e820_table = BOOT_PARAMS_ADDR + 0x2D0;
     let e820_count = BOOT_PARAMS_ADDR + 0x1E8;
     memory \<leftarrow> write_e820_entry memory e820_table 0 0x9FC00 1;
     memory \<leftarrow> write_e820_entry memory (e820_table + 20) 0x9FC00 (0x100000 - 0x9FC00) 2;
     let mem_size = memory_mb * 1024 * 1024;
     sz \<leftarrow> (if mem_size < 0x100000 then None else Some (mem_size - 0x100000));
     memory \<leftarrow> write_e820_entry memory (e820_table + 40) 0x100000 (word_of_nat sz) 1;
     slice_set memory e820_count 3
   }"

definition is_bzimage :: "bytes \<Rightarrow> bool" where
  "is_bzimage kernel_data \<longleftrightarrow>
     (le_to_word [kernel_data ! 0x1FE, kernel_data ! 0x1FF] :: u16) = 0xAA55
     \<and> window kernel_data 0x202 4 = as_bytes ''HdrS''"

definition setup_sects :: "bytes \<Rightarrow> nat" where
  "setup_sects kernel_data = (let n = unat (kernel_data ! 0x1F1) in if n = 0 then 4 else n)"

definition load_kernel_from_bytes ::
  "bytes \<Rightarrow> bytes \<Rightarrow> path option \<Rightarrow> string \<Rightarrow> nat \<Rightarrow> fs
     \<Rightarrow> ((nat, VmError) result \<times> bytes) option" where
  "load_kernel_from_bytes memory kernel_data initramfs_path cmdline memory_mb w =
     (if 1024 < memory_mb then Some (Err (InvalidConfig
          (''direct boot currently supports up to 1024 MB guest memory (got ''
           @ nat_to_str memory_mb
           @ '' MB); support for larger memory will be added in a future release'')), memory)
      else if length kernel_data < 0x250
        then Some (Err (InvalidConfig ''kernel image too small for bzImage''), memory)
      else if \<not> is_bzimage kernel_data then
        (if length memory < KERNEL_ADDR + length kernel_data
         then Some (Err (InvalidConfig ''kernel too large for allocated memory''), memory)
         else do {
           memory \<leftarrow> slice_copy memory KERNEL_ADDR kernel_data;
           Some (Ok KERNEL_ADDR, memory)
         })
      else (let pm_offset = (setup_sects kernel_data + 1) * 512 in
        if length kernel_data \<le> pm_offset
        then Some (Err (InvalidConfig (''bzImage setup_sects ('' @ nat_to_str (setup_sects kernel_data)
               @ '') exceeds file size'')), memory)
        else (let pm_kernel = drop pm_offset kernel_data in
          if length memory < KERNEL_ADDR + length pm_kernel
          then Some (Err (InvalidConfig ''kernel too large for allocated memory''), memory)
          else do {
            memory \<leftarrow> slice_copy memory KERNEL_ADDR pm_kernel;
            memory \<leftarrow> write_setup_header memory kernel_data;
            memory \<leftarrow> write_cmdline memory cmdline;
            (r, memory) \<leftarrow> write_initramfs memory initramfs_path
              (KERNEL_ADDR + length pm_kernel) w;
            (case r of Err e \<Rightarrow> Some (Err e, memory)
             | Ok _ \<Rightarrow> do {
                 memory \<leftarrow> write_e820_map memory memory_mb;
                 Some (Ok KERNEL_ADDR, memory)
               })
          })))"

definition load_kernel ::
  "bytes \<Rightarrow> path \<Rightarrow> path option \<Rightarrow> string \<Rightarrow> nat \<Rightarrow> fs
     \<Rightarrow> ((nat, VmError) result \<times> bytes) option" where
  "load_kernel memory kernel_path initramfs_path cmdline memory_mb w =
     (case fs_read kernel_path w of
        Err e \<Rightarrow> Some (Err (BootFailed [] (''failed to read kernel: '' @ io_text e)), memory)
      | Ok kernel_data \<Rightarrow>
          load_kernel_from_bytes memory kernel_data initramfs_path cmdline memory_mb w)"

section \<open>What each step writes\<close>

text \<open>Memory that differs from \<open>m\<close> only in the range \<open>lo .. hi\<close>.\<close>

definition only_within :: "nat \<Rightarrow> nat \<Rightarrow> bytes \<Rightarrow> bytes \<Rightarrow> bool" where
  "only_within lo hi m m' \<longleftrightarrow>
     length m' = length m \<and> (\<forall>i < length m. i < lo \<or> hi \<le> i \<longrightarrow> m' ! i = m ! i)"

lemma only_within_overlay:
  "off + length src \<le> length m \<Longrightarrow> lo \<le> off \<Longrightarrow> off + length src \<le> hi
     \<Longrightarrow> only_within lo hi m (overlay m off src)"
  by (auto simp: only_within_def overlay_nth)

lemma only_within_refl [simp]: "only_within lo hi m m"
  by (simp add: only_within_def)

lemma only_within_trans:
  "only_within lo hi m m' \<Longrightarrow> only_within lo hi m' m'' \<Longrightarrow> only_within lo hi m m''"
  by (auto simp: only_within_def)

lemma only_within_mono:
  "only_within lo hi m m' \<Longrightarrow> lo' \<le> lo \<Longrightarrow> hi \<le> hi' \<Longrightarrow> only_within lo' hi' m m'"
  by (auto simp: only_within_def)

lemma only_within_length: "only_within lo hi m m' \<Longrightarrow> length m' = length m"
  by (simp add: only_within_def)

lemma only_within_window:
  assumes "only_within lo hi m m'" "off + n \<le> lo \<or> hi \<le> off"
  shows "window m' off n = window m off n"
  using assms by (intro window_cong) (auto simp: only_within_def)

lemma slice_copy_step:
  assumes "slice_copy m off src = Some m'" "lo \<le> off" "off + length src \<le> hi"
  shows "only_within lo hi m m'"
  using assms by (auto simp: slice_copy_overlay only_within_overlay split: if_splits)

subsection \<open>Page directory\<close>

lemma write_pd_spec:
  assumes "distinct is" "\<And>i. i \<in> set is \<Longrightarrow> i < 512" "0xC000 \<le> length m"
  shows "\<exists>m'. write_pd is m = Some m' \<and> only_within 0xB000 0xC000 m m'
    \<and> (\<forall>j < 512. window m' (0xB000 + j * 8) 8 =
         (if j \<in> set is then u64_to_le (pd_entry j) else window m (0xB000 + j * 8) 8))"
  using assms
proof (induction "is" arbitrary: m)
  case (Cons i "is")
  let ?m1 = "overlay m (0xB000 + i * 8) (u64_to_le (pd_entry i))"
  have i: "0xB000 + i * 8 + 8 \<le> 0xC000" using Cons.prems(2) [of i] by simp
  then have step: "slice_copy m (PD_ADDR + i * 8) (u64_to_le (pd_entry i)) = Some ?m1"
    using Cons.prems(3) by (simp add: slice_copy_overlay PD_ADDR_def)
  have w1: "only_within 0xB000 0xC000 m ?m1"
    using i Cons.prems(3) by (intro only_within_overlay) simp_all
  obtain m' where m': "write_pd is ?m1 = Some m'" "only_within 0xB000 0xC000 ?m1 m'"
      "\<forall>j < 512. window m' (0xB000 + j * 8) 8 =
         (if j \<in> set is then u64_to_le (pd_entry j) else window ?m1 (0xB000 + j * 8) 8)"
    using Cons.IH [of ?m1] Cons.prems i by auto
  have "window ?m1 (0xB000 + j * 8) 8 =
      (if j = i then u64_to_le (pd_entry j) else window m (0xB000 + j * 8) 8)" for j
    using i Cons.prems(3) by (auto simp: window_overlay_hit intro!: window_overlay_miss)
  then show ?case
    using step m' Cons.prems(1) only_within_trans [OF w1 m'(2)] by auto
qed simp

subsection \<open>The hardware's page walk\<close>

text \<open>
  The translation an x86-64 processor makes in long mode with four-level paging, for a
  virtual address below \<open>2 ^ 48\<close>: the reference the tables are judged by.  \<open>None\<close> is a page
  fault.
\<close>

definition table_entry :: "bytes \<Rightarrow> nat \<Rightarrow> nat \<Rightarrow> u64" where
  "table_entry m table i = le_to_word (window m (table + i * 8) 8)"

definition entry_present :: "u64 \<Rightarrow> bool" where
  "entry_present e \<longleftrightarrow> e AND 1 \<noteq> 0"

definition entry_large :: "u64 \<Rightarrow> bool" where
  "entry_large e \<longleftrightarrow> e AND 128 \<noteq> 0"

definition entry_addr :: "nat \<Rightarrow> u64 \<Rightarrow> nat" where
  "entry_addr k e = unat (e AND NOT (mask k))"

definition page_walk :: "bytes \<Rightarrow> nat \<Rightarrow> nat \<Rightarrow> nat option" where
  "page_walk m cr3 va =
     (let e4 = table_entry m cr3 (va div 2 ^ 39 mod 512) in
      if \<not> entry_present e4 then None else
      let e3 = table_entry m (entry_addr 12 e4) (va div 2 ^ 30 mod 512) in
      if \<not> entry_present e3 then None
      else if entry_large e3 then Some (entry_addr 30 e3 + va mod 2 ^ 30) else
      let e2 = table_entry m (entry_addr 12 e3) (va div 2 ^ 21 mod 512) in
      if \<not> entry_present e2 then None
      else if entry_large e2 then Some (entry_addr 21 e2 + va mod 2 ^ 21) else
      let e1 = table_entry m (entry_addr 12 e2) (va div 2 ^ 12 mod 512) in
      if \<not> entry_present e1 then None else Some (entry_addr 12 e1 + va mod 2 ^ 12))"

lemma pd_entry_push: "pd_entry i = push_bit 21 (word_of_nat i) OR 131"
  by (simp add: pd_entry_def PTE_PRESENT_def PTE_WRITABLE_def PTE_PAGE_SIZE_def push_bit_eq_mult
      or.assoc mult.commute)

lemma push_low_bits:
  "push_bit 21 w AND (1 :: u64) = 0" "push_bit 21 w AND (2 ^ 7 :: u64) = 0"
  "push_bit 21 w AND NOT (mask 21) = (push_bit 21 w :: u64)" "131 AND NOT (mask 21) = (0 :: u64)"
proof -
  show "push_bit 21 w AND (1 :: u64) = 0" "push_bit 21 w AND (2 ^ 7 :: u64) = 0"
    by (rule bit_word_eqI; auto simp: bit_simps simp del: power_numeral)+
  show "push_bit 21 w AND NOT (mask 21) = (push_bit 21 w :: u64)"
    by (rule bit_word_eqI; auto simp: bit_simps simp del: mask_numeral)
  show "131 AND NOT (mask 21) = (0 :: u64)" by (simp add: mask_numeral)
qed

lemma pd_entry_fields:
  assumes "i < 512"
  shows "entry_present (pd_entry i)" "entry_large (pd_entry i)"
    "entry_addr 21 (pd_entry i) = i * 2 ^ 21"
proof -
  show "entry_present (pd_entry i)" "entry_large (pd_entry i)"
    using push_low_bits(2) [of "word_of_nat i"]
    by (simp_all add: entry_present_def entry_large_def pd_entry_push bit.conj_disj_distrib2
        push_low_bits(1))
  have "pd_entry i AND NOT (mask 21) = push_bit 21 (word_of_nat i)"
    unfolding pd_entry_push bit.conj_disj_distrib2 push_low_bits by simp
  then have "entry_addr 21 (pd_entry i) = unat (word_of_nat (i * 2 ^ 21) :: u64)"
    by (simp add: entry_addr_def push_bit_eq_mult mult.commute)
  also have "\<dots> = i * 2 ^ 21" using assms by (subst unat_of_nat) simp
  finally show "entry_addr 21 (pd_entry i) = i * 2 ^ 21" .
qed

lemma setup_page_tables_entries:
  assumes "0xC000 \<le> length m"
  shows "\<exists>m'. setup_page_tables m mb = Some m' \<and> only_within 0x9000 0xC000 m m'
    \<and> (\<forall>j < 512. table_entry m' 0x9000 j = (if j = 0 then 0xA003 else 0))
    \<and> (\<forall>j < 512. table_entry m' 0xA000 j = (if j = 0 then 0xB003 else 0))
    \<and> (\<forall>j < 512. table_entry m' 0xB000 j =
          (if j < min ((mb + 1) div 2) 512 then pd_entry j else 0))"
proof -
  let ?z = "overlay m 0x9000 (zeros 0x3000)"
  let ?m1 = "overlay ?z 0x9000 (u64_to_le 0xA003)"
  let ?m2 = "overlay ?m1 0xA000 (u64_to_le 0xB003)"
  define n where "n = min ((mb + 1) div 2) 512"
  have len [simp]: "length ?z = length m" "length ?m1 = length m" "length ?m2 = length m"
    using assms by simp_all
  have "\<exists>m'. write_pd [0..<n] ?m2 = Some m' \<and> only_within 0xB000 0xC000 ?m2 m'
      \<and> (\<forall>j < 512. window m' (0xB000 + j * 8) 8 =
         (if j \<in> set [0..<n] then u64_to_le (pd_entry j) else window ?m2 (0xB000 + j * 8) 8))"
    using assms by (intro write_pd_spec) (simp_all add: n_def)
  then obtain m' where m': "write_pd [0..<n] ?m2 = Some m'" "only_within 0xB000 0xC000 ?m2 m'"
      "\<forall>j < 512. window m' (0xB000 + j * 8) 8 =
         (if j \<in> set [0..<n] then u64_to_le (pd_entry j) else window ?m2 (0xB000 + j * 8) 8)"
    by blast
  have e: "word_of_nat PDPT_ADDR OR PTE_PRESENT OR PTE_WRITABLE = 0xA003"
      "word_of_nat PD_ADDR OR PTE_PRESENT OR PTE_WRITABLE = 0xB003"
    by (simp_all add: layout PTE_PRESENT_def PTE_WRITABLE_def)
  have 1: "setup_page_tables m mb = Some m'"
    unfolding setup_page_tables_def e n_def [symmetric]
    using assms m'(1) by (simp add: slice_copy_overlay layout)
  have 2: "only_within 0x9000 0xC000 m m'"
    using assms m'(2)
    by (intro only_within_trans [OF only_within_overlay only_within_trans [OF only_within_overlay
          only_within_trans [OF only_within_overlay only_within_mono [OF m'(2)]]]]) simp_all
  have z: "window ?z off 8 = zeros 8" if "0x9000 \<le> off" "off + 8 \<le> 0xC000" for off
    using that assms by (intro window_overlay_zeros) simp_all
  have 3: "table_entry m' 0x9000 j = (if j = 0 then 0xA003 else 0)" if "j < 512" for j
    using that assms only_within_window [OF m'(2), of "0x9000 + j * 8" 8] z [of "0x9000 + j * 8"]
    by (simp add: table_entry_def overlay_simps)
  have 4: "table_entry m' 0xA000 j = (if j = 0 then 0xB003 else 0)" if "j < 512" for j
    using that assms only_within_window [OF m'(2), of "0xA000 + j * 8" 8] z [of "0xA000 + j * 8"]
    by (simp add: table_entry_def overlay_simps)
  have 5: "table_entry m' 0xB000 j = (if j < n then pd_entry j else 0)" if "j < 512" for j
    using that assms m'(3) z [of "0xB000 + j * 8"] by (simp add: table_entry_def overlay_simps)
  show ?thesis using 1 2 3 4 5 [unfolded n_def] by blast
qed

section \<open>Identity mapping\<close>

lemma page_walk_tables:
  assumes tables: "\<forall>j < 512. table_entry m' 0x9000 j = (if j = 0 then 0xA003 else 0)"
      "\<forall>j < 512. table_entry m' 0xA000 j = (if j = 0 then 0xB003 else 0)"
      "\<forall>j < 512. table_entry m' 0xB000 j = (if j < n then pd_entry j else 0)"
    and n: "n \<le> 512" and va: "va < 2 ^ 48"
  shows "page_walk m' PML4_ADDR va = (if va < n * 2 ^ 21 then Some va else None)"
proof -
  note e4 = tables(1) [rule_format] and e3 = tables(2) [rule_format] and e2 = tables(3) [rule_format]
  have dirs: "entry_present 0xA003" "entry_addr 12 0xA003 = 0xA000"
      "entry_present 0xB003" "\<not> entry_large 0xB003" "entry_addr 12 0xB003 = 0xB000"
      "\<not> entry_present 0"
    by (simp_all add: entry_present_def entry_large_def entry_addr_def mask_numeral)
  show ?thesis
  proof (cases "va < 2 ^ 30")
    case True
    define d where "d = va div 2 ^ 21"
    have d: "d < 512" "d mod 512 = d" "va div 2 ^ 30 = 0" "va div 2 ^ 39 = 0"
      using True by (simp_all add: d_def div_less_iff_less_mult less_mult_imp_div_less)
    have dd: "va div 2097152 = d" by (simp add: d_def)
    have "d * 2 ^ 21 + va mod 2 ^ 21 = va" by (simp add: d_def)
    moreover have "va < n * 2 ^ 21 \<longleftrightarrow> d < n"
      by (simp add: d_def div_less_iff_less_mult)
    ultimately show ?thesis
      using d e4 [of 0] e3 [of 0] e2 [OF d(1)] dirs pd_entry_fields [OF d(1)]
      by (simp add: page_walk_def PML4_ADDR_def dd Let_def)
  next
    case False
    have "n * 2 ^ 21 \<le> 2 ^ 30" using n by simp
    then have nva: "\<not> va < n * 2 ^ 21" using False by linarith
    show ?thesis
    proof (cases "va < 2 ^ 39")
      case True
      have k: "va div 2 ^ 39 = 0" "0 < va div 2 ^ 30" "va div 2 ^ 30 mod 512 = va div 2 ^ 30"
        using True False by (simp_all add: div_greater_zero_iff less_mult_imp_div_less)
      have "table_entry m' 0xA000 (va div 2 ^ 30 mod 512) = 0"
        using e3 [of "va div 2 ^ 30 mod 512"] k by simp
      then show ?thesis
        using nva k(1) e4 [of 0] dirs by (simp add: page_walk_def PML4_ADDR_def Let_def)
    next
      case False
      have k: "0 < va div 2 ^ 39" "va div 2 ^ 39 mod 512 = va div 2 ^ 39"
        using va False by (simp_all add: div_greater_zero_iff less_mult_imp_div_less)
      have "table_entry m' 0x9000 (va div 2 ^ 39 mod 512) = 0"
        using e4 [of "va div 2 ^ 39 mod 512"] k by simp
      then show ?thesis using nva dirs by (simp add: page_walk_def PML4_ADDR_def Let_def)
    qed
  qed
qed

text \<open>C2: after \<open>setup_page_tables\<close>, the processor translates every address of the mapped range
  to itself and faults on every other one.  The call never panics when the memory reaches to
  the end of the page directory, maps the guest's memory rounded up to 2 MB and capped at 1 GB,
  and writes nothing outside the three table pages.\<close>

theorem setup_page_tables_identity:
  assumes "0xC000 \<le> length m"
  shows "\<exists>m'. setup_page_tables m memory_mb = Some m' \<and> only_within 0x9000 0xC000 m m'
    \<and> (\<forall>va. va < 2 ^ 48 \<longrightarrow>
         page_walk m' PML4_ADDR va =
           (if va < min ((memory_mb + 1) div 2) 512 * 2 ^ 21 then Some va else None))"
  using setup_page_tables_entries [OF assms, of memory_mb]
    page_walk_tables [where n = "min ((memory_mb + 1) div 2) 512"] by fastforce

theorem setup_page_tables_identity_witness:
  "\<exists>m'. setup_page_tables (zeros (16 * 1024 * 1024)) 16 = Some m'
     \<and> page_walk m' PML4_ADDR 0x123456 = Some 0x123456
     \<and> page_walk m' PML4_ADDR 0x1000000 = None"
proof -
  obtain m' where m': "setup_page_tables (zeros (16 * 1024 * 1024)) 16 = Some m'"
    and w: "\<forall>va. va < 2 ^ 48 \<longrightarrow> page_walk m' PML4_ADDR va =
        (if va < min ((16 + 1) div 2) 512 * 2 ^ 21 then Some va else None)"
    using setup_page_tables_identity [where m = "zeros (16 * 1024 * 1024)" and memory_mb = 16]
    by auto
  show ?thesis using m' w [rule_format, of "0x123456"] w [rule_format, of "0x1000000"] by simp
qed

section \<open>The loaded kernel\<close>

definition e820_entry :: "u64 \<Rightarrow> u64 \<Rightarrow> u32 \<Rightarrow> bytes" where
  "e820_entry addr sz t = u64_to_le addr @ u64_to_le sz @ u32_to_le t"

lemma length_e820_entry [simp]: "length (e820_entry a s t) = 20"
  by (simp add: e820_entry_def)

lemma overlay_overlay:
  "off + length a + length b \<le> length m \<Longrightarrow>
     overlay (overlay m off a) (off + length a) b = overlay m off (a @ b)"
  by (simp add: overlay_def ac_simps)

lemma write_e820_entry_eq:
  "off + 20 \<le> length m \<Longrightarrow>
     write_e820_entry m off addr sz t = Some (overlay m off (e820_entry addr sz t))"
  using overlay_overlay [of off "u64_to_le addr" "u64_to_le sz" m]
    overlay_overlay [of off "u64_to_le addr @ u64_to_le sz" "u32_to_le t" m]
  by (simp add: write_e820_entry_def slice_copy_overlay e820_entry_def)

lemma write_e820_map_eq:
  assumes "0x8000 \<le> length m" "1 \<le> mb"
  shows "write_e820_map m mb = Some (overlay (overlay m 0x72D0
      (e820_entry 0 0x9FC00 1 @ e820_entry 0x9FC00 0x60400 2
       @ e820_entry 0x100000 (word_of_nat (mb * 1024 * 1024 - 0x100000)) 1)) 0x71E8 [3])"
  using assms
    overlay_overlay [of "0x72D0" "e820_entry 0 0x9FC00 1" "e820_entry 0x9FC00 0x60400 2" m]
    overlay_overlay [of "0x72D0" "e820_entry 0 0x9FC00 1 @ e820_entry 0x9FC00 0x60400 2"
      "e820_entry 0x100000 (word_of_nat (mb * 1024 * 1024 - 0x100000)) 1" m]
  by (simp add: write_e820_map_def write_e820_entry_eq slice_set_overlay BOOT_PARAMS_ADDR_def)

lemma write_cmdline_eq:
  assumes "0x9000 \<le> length m"
  shows "write_cmdline m cl = Some (overlay (overlay m 0x8000 (take 4095 (as_bytes cl) @ [0])) 0x7228
    (u32_to_le 0x8000))"
proof -
  have "take (min (length (as_bytes cl)) 4095) (as_bytes cl) = take 4095 (as_bytes cl)"
    by (simp add: min_def)
  then show ?thesis
    using assms overlay_overlay [of "0x8000" "take 4095 (as_bytes cl)" "[0]" m]
    by (simp add: write_cmdline_def slice_copy_overlay slice_set_overlay layout Let_def min.commute)
qed

lemma write_setup_header_eq:
  assumes "0x8000 \<le> length m" "0x250 \<le> length k"
  shows "\<exists>flags. write_setup_header m k =
    Some (overlay (overlay (overlay (overlay m 0x71F1 (window k 0x1F1 (min 0x290 (length k) - 0x1F1)))
      0x7210 [0xFF]) 0x7211 [flags OR 0x81]) 0x7224 (u16_to_le 0xFE00))"
  using assms
  by (intro exI [of _ "overlay (overlay m 0x71F1 (window k 0x1F1 (min 0x290 (length k) - 0x1F1)))
      0x7210 [0xFF] ! 0x7211"])
    (simp add: write_setup_header_def slice_copy_overlay slice_set_overlay slice_get_def
      BOOT_PARAMS_ADDR_def Let_def)

lemma initrd_address_bounds:
  "kernel_end \<le> initrd_address kernel_end"
  "initrd_address kernel_end < kernel_end + 0x1000"
  using div_mult_mod_eq [of "kernel_end + 0xFFF" "0x1000"]
    mod_less_divisor [of "0x1000" "kernel_end + 0xFFF"]
  unfolding initrd_address_def by linarith+

lemma initrd_address_aligned: "initrd_address kernel_end mod 0x1000 = 0"
  by (simp add: initrd_address_def)

lemma write_initramfs_eq:
  assumes "0x8000 \<le> length m" "0x8000 \<le> kernel_end"
  shows "write_initramfs m ip kernel_end w =
    (case ip of None \<Rightarrow> Some (Ok (), m)
     | Some p \<Rightarrow>
       (case fs_read p w of
          Err e \<Rightarrow> Some (Err (BootFailed [] (''failed to read initramfs: '' @ io_text e)), m)
        | Ok d \<Rightarrow>
          if length m < initrd_address kernel_end + length d
          then Some (Err (InvalidConfig ''not enough memory for kernel + initramfs''), m)
          else Some (Ok (), overlay (overlay m (initrd_address kernel_end) d) 0x7218
            (u32_to_le (word_of_nat (initrd_address kernel_end)) @ u32_to_le (word_of_nat (length d))))))"
proof -
  have "overlay (overlay m' 0x7218 (u32_to_le a)) 0x721C (u32_to_le b) =
      overlay m' 0x7218 (u32_to_le a @ u32_to_le b)" if "length m' = length m" for m' a b
    using overlay_overlay [of "0x7218" "u32_to_le a" "u32_to_le b" m'] that assms(1) by simp
  then show ?thesis
    using assms by (auto simp: write_initramfs_def slice_copy_overlay BOOT_PARAMS_ADDR_def Let_def
        split: option.splits result.splits)
qed


text \<open>When a kernel is accepted: what \<open>load_kernel_from_bytes\<close> demands of the sizes.\<close>

definition pm_kernel :: "bytes \<Rightarrow> bytes" where
  "pm_kernel k = (if is_bzimage k then drop ((setup_sects k + 1) * 512) k else k)"

definition initramfs_fits :: "nat \<Rightarrow> path option \<Rightarrow> nat \<Rightarrow> fs \<Rightarrow> bool" where
  "initramfs_fits len ip kernel_end w \<longleftrightarrow>
     (case ip of None \<Rightarrow> True
      | Some p \<Rightarrow> (case fs_read p w of Err _ \<Rightarrow> False
                  | Ok d \<Rightarrow> initrd_address kernel_end + length d \<le> len))"

definition kernel_accepted :: "nat \<Rightarrow> bytes \<Rightarrow> path option \<Rightarrow> nat \<Rightarrow> fs \<Rightarrow> bool" where
  "kernel_accepted len k ip mb w \<longleftrightarrow>
     mb \<le> 1024 \<and> 0x250 \<le> length k \<and> pm_kernel k \<noteq> []
     \<and> KERNEL_ADDR + length (pm_kernel k) \<le> len
     \<and> (is_bzimage k \<longrightarrow> initramfs_fits len ip (KERNEL_ADDR + length (pm_kernel k)) w)"

text \<open>The memory of a bzImage boot before the initramfs, as nested copies.\<close>

definition bz_memory :: "bytes \<Rightarrow> bytes \<Rightarrow> string \<Rightarrow> u8 \<Rightarrow> bytes" where
  "bz_memory m k cl flags =
     overlay (overlay (overlay (overlay (overlay (overlay (overlay m
       0x100000 (pm_kernel k))
       0x71F1 (window k 0x1F1 (min 0x290 (length k) - 0x1F1)))
       0x7210 [0xFF]) 0x7211 [flags OR 0x81]) 0x7224 (u16_to_le 0xFE00))
       0x8000 (take 4095 (as_bytes cl) @ [0])) 0x7228 (u32_to_le 0x8000)"

lemma load_bzimage_eq:
  assumes "0x100000 \<le> length m" "1 \<le> mb" "mb \<le> 1024" "0x250 \<le> length k" "is_bzimage k"
    "pm_kernel k \<noteq> []" "KERNEL_ADDR + length (pm_kernel k) \<le> length m"
  defines "kend \<equiv> KERNEL_ADDR + length (pm_kernel k)"
  shows "\<exists>flags. load_kernel_from_bytes m k ip cl mb w =
    write_initramfs (bz_memory m k cl flags) ip kend w \<bind> (\<lambda>(r, m').
      case r of Err e \<Rightarrow> Some (Err e, m')
      | Ok _ \<Rightarrow> write_e820_map m' mb \<bind> (\<lambda>m''. Some (Ok KERNEL_ADDR, m'')))"
proof -
  let ?m1 = "overlay m 0x100000 (pm_kernel k)"
  have off: "(setup_sects k + 1) * 512 < length k"
    using assms(5,6) by (simp add: pm_kernel_def split: if_splits)
  have len: "length ?m1 = length m" using assms(7) by (simp add: KERNEL_ADDR_def)
  obtain flags where "write_setup_header ?m1 k =
      Some (overlay (overlay (overlay (overlay ?m1 0x71F1 (window k 0x1F1 (min 0x290 (length k) - 0x1F1)))
        0x7210 [0xFF]) 0x7211 [flags OR 0x81]) 0x7224 (u16_to_le 0xFE00))" (is "_ = Some ?m2")
    using write_setup_header_eq [of ?m1 k] assms len by auto
  moreover have "write_cmdline ?m2 cl = Some (bz_memory m k cl flags)"
    unfolding bz_memory_def using assms(1,4) len by (intro write_cmdline_eq) simp
  moreover have "slice_copy m KERNEL_ADDR (drop ((setup_sects k + 1) * 512) k) = Some ?m1"
    using assms(5,7) by (simp add: slice_copy_overlay pm_kernel_def KERNEL_ADDR_def)
  ultimately show ?thesis
    using assms(3-7) off
    by (intro exI [of _ flags]) (simp add: load_kernel_from_bytes_def kend_def pm_kernel_def Let_def)
qed

lemma bz_memory_windows:
  assumes "0x100000 \<le> length m" "0x250 \<le> length k" "KERNEL_ADDR + length (pm_kernel k) \<le> length m"
  shows "length (bz_memory m k cl flags) = length m"
    "window (bz_memory m k cl flags) 0x100000 (length (pm_kernel k)) = pm_kernel k"
    "window (bz_memory m k cl flags) 0x8000 (min (length cl) 4095 + 1) = take 4095 (as_bytes cl) @ [0]"
    "window (bz_memory m k cl flags) 0x7228 4 = u32_to_le 0x8000"
    "window (bz_memory m k cl flags) 0x7210 2 = [0xFF, flags OR 0x81]"
proof -
  let ?x = "overlay (overlay m 0x100000 (pm_kernel k))
    0x71F1 (window k 0x1F1 (min 0x290 (length k) - 0x1F1))"
  have "length ?x = length m" using assms by (simp add: KERNEL_ADDR_def)
  then have two: "overlay (overlay ?x 0x7210 [0xFF]) 0x7211 [flags OR 0x81]
      = overlay ?x 0x7210 [0xFF, flags OR 0x81]"
    using overlay_overlay [of "0x7210" "[0xFF]" "[flags OR 0x81]" ?x] assms(1) by simp
  show "length (bz_memory m k cl flags) = length m"
    "window (bz_memory m k cl flags) 0x100000 (length (pm_kernel k)) = pm_kernel k"
    "window (bz_memory m k cl flags) 0x8000 (min (length cl) 4095 + 1) = take 4095 (as_bytes cl) @ [0]"
    "window (bz_memory m k cl flags) 0x7228 4 = u32_to_le 0x8000"
    "window (bz_memory m k cl flags) 0x7210 2 = [0xFF, flags OR 0x81]"
    unfolding bz_memory_def two using assms
    by (simp_all add: KERNEL_ADDR_def overlay_simps)
qed

text \<open>The guest's structures outside the pages the loader owns: the first 28 KB, and everything
  between the command line page and the kernel (page tables, GDT, BIOS area).\<close>

definition loader_frame :: "bytes \<Rightarrow> bytes \<Rightarrow> bool" where
  "loader_frame m m' \<longleftrightarrow> length m' = length m
     \<and> window m' 0 0x7000 = window m 0 0x7000 \<and> window m' 0x9000 0xF7000 = window m 0x9000 0xF7000"

lemma loader_frame_refl [simp]: "loader_frame m m"
  by (simp add: loader_frame_def)

lemma loader_frame_overlay:
  assumes "loader_frame m m'" "off + length src \<le> length m"
    "0x7000 \<le> off \<and> off + length src \<le> 0x9000 \<or> 0x100000 \<le> off"
  shows "loader_frame m (overlay m' off src)"
  using assms by (auto simp: loader_frame_def window_overlay_miss)

lemma load_bzimage_outcome:
  assumes "0x100000 \<le> length m" "1 \<le> mb" "mb \<le> 1024" "0x250 \<le> length k" "is_bzimage k"
    "pm_kernel k \<noteq> []" "KERNEL_ADDR + length (pm_kernel k) \<le> length m"
  shows "\<exists>r m'. load_kernel_from_bytes m k ip cl mb w = Some (r, m') \<and> loader_frame m m'
    \<and> (if initramfs_fits (length m) ip (KERNEL_ADDR + length (pm_kernel k)) w
       then r = Ok KERNEL_ADDR else \<not> is_ok r)"
proof -
  define kend where "kend = KERNEL_ADDR + length (pm_kernel k)"
  obtain flags where load: "load_kernel_from_bytes m k ip cl mb w =
    write_initramfs (bz_memory m k cl flags) ip kend w \<bind> (\<lambda>(r, m').
      case r of Err e \<Rightarrow> Some (Err e, m')
      | Ok _ \<Rightarrow> write_e820_map m' mb \<bind> (\<lambda>m''. Some (Ok KERNEL_ADDR, m'')))"
      (is "_ = write_initramfs ?base _ _ _ \<bind> _")
    using load_bzimage_eq [OF assms, of ip cl w] unfolding kend_def by blast
  have base: "loader_frame m ?base"
    unfolding bz_memory_def using assms(1,4,7) by (intro loader_frame_overlay) (simp_all add: KERNEL_ADDR_def)
  then have len: "length ?base = length m" by (simp add: loader_frame_def)
  have e820: "\<exists>m''. write_e820_map m' mb = Some m'' \<and> loader_frame m m''" if "loader_frame m m'" for m'
  proof -
    have "length m' = length m" using that by (simp add: loader_frame_def)
    then show ?thesis
      using that assms(1,2) by (subst write_e820_map_eq) (simp_all add: loader_frame_overlay)
  qed
  have kend: "0x8000 \<le> kend" "0x100000 \<le> initrd_address kend"
    using initrd_address_bounds(1) [of kend] by (simp_all add: kend_def KERNEL_ADDR_def)
  have "0x8000 \<le> length ?base" using len assms(1) by simp
  note wi = write_initramfs_eq [OF this kend(1), of ip w, unfolded len]
  show ?thesis
  proof (cases "initramfs_fits (length m) ip kend w")
    case True
    then obtain m' where "write_initramfs ?base ip kend w = Some (Ok (), m')" "loader_frame m m'"
      using wi base kend(2) assms(1)
      by (fastforce simp: initramfs_fits_def loader_frame_overlay split: option.splits result.splits)
    then show ?thesis using e820 [of m'] load True unfolding kend_def [symmetric] by auto
  next
    case False
    then obtain e where "write_initramfs ?base ip kend w = Some (Err e, ?base)"
      using wi by (auto simp: initramfs_fits_def split: option.splits result.splits)
    then show ?thesis using base load False unfolding kend_def [symmetric] by auto
  qed
qed

lemma load_kernel_from_bytes_outcome:
  assumes "0x100000 \<le> length m" "1 \<le> mb"
  shows "\<exists>r m'. load_kernel_from_bytes m k ip cl mb w = Some (r, m') \<and> loader_frame m m'
    \<and> (r = Ok KERNEL_ADDR \<longleftrightarrow> kernel_accepted (length m) k ip mb w)
    \<and> (is_ok r \<longleftrightarrow> kernel_accepted (length m) k ip mb w)"
proof (cases "mb \<le> 1024 \<and> 0x250 \<le> length k \<and> pm_kernel k \<noteq> []
    \<and> KERNEL_ADDR + length (pm_kernel k) \<le> length m")
  case True
  show ?thesis
  proof (cases "is_bzimage k")
    case bz: True
    then show ?thesis
      using load_bzimage_outcome [of m mb k ip cl w] assms True
      by (fastforce simp: kernel_accepted_def is_ok_def split: if_splits result.splits)
  next
    case False
    have "loader_frame m (overlay m 0x100000 k)"
      using True False by (intro loader_frame_overlay) (simp_all add: pm_kernel_def KERNEL_ADDR_def)
    then show ?thesis
      using True False
      by (simp add: load_kernel_from_bytes_def kernel_accepted_def slice_copy_overlay pm_kernel_def
          KERNEL_ADDR_def)
  qed
next
  case False
  then have "\<exists>e. load_kernel_from_bytes m k ip cl mb w = Some (Err e, m)"
    by (auto simp: load_kernel_from_bytes_def pm_kernel_def Let_def not_le not_less split: if_splits)
  then show ?thesis using False by (fastforce simp: kernel_accepted_def)
qed



text \<open>The initramfs and its two header fields over a memory that has everything else.\<close>

lemma initramfs_memory_windows:
  fixes M d :: bytes and x y :: u32
  assumes "0x100000 \<le> length M" "0x100000 + n \<le> a" "a + length d \<le> length M"
  defines "M1 \<equiv> overlay (overlay M a d) 0x7218 (u32_to_le x @ u32_to_le y)"
  shows "length M1 = length M" "window M1 0x100000 n = window M 0x100000 n"
    "c \<le> 0x1000 \<Longrightarrow> window M1 0x8000 c = window M 0x8000 c"
    "window M1 0x7228 4 = window M 0x7228 4" "window M1 0x7210 2 = window M 0x7210 2"
    "window M1 a (length d) = d" "window M1 0x7218 4 = u32_to_le x" "window M1 0x721C 4 = u32_to_le y"
proof -
  have len: "length (overlay M a d) = length M" using assms(3) by simp
  show "length M1 = length M" "window M1 0x100000 n = window M 0x100000 n"
    "c \<le> 0x1000 \<Longrightarrow> window M1 0x8000 c = window M 0x8000 c"
    "window M1 0x7228 4 = window M 0x7228 4" "window M1 0x7210 2 = window M 0x7210 2"
    "window M1 a (length d) = d"
    unfolding M1_def using assms(1-3) len by (simp_all add: overlay_simps)
  show "window M1 0x7218 4 = u32_to_le x" "window M1 0x721C 4 = u32_to_le y"
    using window_overlay_sub [of "0x7218" "[]" "u32_to_le x" "u32_to_le y" "overlay M a d"]
      window_overlay_sub [of "0x7218" "u32_to_le x" "u32_to_le y" "[]" "overlay M a d"] len assms(1)
    by (simp_all add: M1_def)
qed

text \<open>C29: what a successful bzImage boot leaves in memory.  The protected-mode kernel is at
  0x100000; the command line, cut at 4095 bytes, is NUL-terminated at 0x8000 and pointed to by
  \<open>cmd_line_ptr\<close>; the loader type and flags are set; the initramfs is page-aligned behind the
  kernel, its address and size are in the header; and the e820 map has three entries that
  cover the guest's memory, with the area from 0x9FC00 to 1 MB reserved.\<close>

theorem load_bzimage_memory:
  assumes "0x100000 \<le> length m" "1 \<le> mb" "is_bzimage k" "kernel_accepted (length m) k ip mb w"
  defines "kend \<equiv> KERNEL_ADDR + length (pm_kernel k)"
  shows "\<exists>m' flags. load_kernel_from_bytes m k ip cl mb w = Some (Ok KERNEL_ADDR, m')
    \<and> window m' KERNEL_ADDR (length (pm_kernel k)) = pm_kernel k
    \<and> window m' CMDLINE_ADDR (min (length cl) 4095 + 1) = take 4095 (as_bytes cl) @ [0]
    \<and> (le_to_word (window m' (BOOT_PARAMS_ADDR + 0x228) 4) :: u32) = word_of_nat CMDLINE_ADDR
    \<and> window m' (BOOT_PARAMS_ADDR + 0x210) 2 = [0xFF, flags OR 0x81]
    \<and> (\<forall>p d. ip = Some p \<and> fs_read p w = Ok d \<longrightarrow>
         window m' (initrd_address kend) (length d) = d
         \<and> kend \<le> initrd_address kend \<and> initrd_address kend mod 0x1000 = 0
         \<and> (le_to_word (window m' (BOOT_PARAMS_ADDR + 0x218) 4) :: u32)
             = word_of_nat (initrd_address kend)
         \<and> (le_to_word (window m' (BOOT_PARAMS_ADDR + 0x21C) 4) :: u32) = word_of_nat (length d))
    \<and> window m' (BOOT_PARAMS_ADDR + 0x2D0) 60 =
        e820_entry 0 0x9FC00 1 @ e820_entry 0x9FC00 (0x100000 - 0x9FC00) 2
        @ e820_entry 0x100000 (word_of_nat (mb * 1024 * 1024 - 0x100000)) 1
    \<and> window m' (BOOT_PARAMS_ADDR + 0x1E8) 1 = [3]"
proof -
  have acc: "mb \<le> 1024" "0x250 \<le> length k" "pm_kernel k \<noteq> []" "kend \<le> length m"
      "initramfs_fits (length m) ip kend w"
    using assms(3,4) by (simp_all add: kernel_accepted_def kend_def)
  obtain flags where load: "load_kernel_from_bytes m k ip cl mb w =
    write_initramfs (bz_memory m k cl flags) ip kend w \<bind> (\<lambda>(r, m').
      case r of Err e \<Rightarrow> Some (Err e, m')
      | Ok _ \<Rightarrow> write_e820_map m' mb \<bind> (\<lambda>m''. Some (Ok KERNEL_ADDR, m'')))"
      (is "_ = write_initramfs ?base _ _ _ \<bind> _")
    using load_bzimage_eq [OF assms(1,2) acc(1,2) assms(3) acc(3), of ip cl w] acc(4)
    unfolding kend_def by blast
  have lim: "KERNEL_ADDR + length (pm_kernel k) \<le> length m" using acc(4) by (simp add: kend_def)
  note base = bz_memory_windows [OF assms(1) acc(2) lim, of cl flags]
  have kend: "0x100000 + length (pm_kernel k) \<le> initrd_address kend" "0x8000 \<le> kend"
    using initrd_address_bounds(1) [of kend] by (simp_all add: kend_def KERNEL_ADDR_def)
  have "0x8000 \<le> length ?base" using base(1) assms(1) by simp
  note wi = write_initramfs_eq [OF this kend(2), of ip w]
  show ?thesis
  proof (cases ip)
    case None
    then show ?thesis
      using load wi base assms(1,2) lim
      by (simp add: write_e820_map_eq overlay_simps layout) blast
  next
    case (Some p)
    then obtain d where d: "fs_read p w = Ok d" "initrd_address kend + length d \<le> length m"
      using acc(5) by (auto simp: initramfs_fits_def split: result.splits)
    let ?a = "initrd_address kend"
    let ?f = "u32_to_le (word_of_nat ?a) @ u32_to_le (word_of_nat (length d))"
    let ?m1 = "overlay (overlay ?base ?a d) 0x7218 ?f"
    note m1 = initramfs_memory_windows [where M = ?base and x = "word_of_nat ?a"
        and y = "word_of_nat (length d)", unfolded base(1), OF assms(1) kend(1) d(2)]
    have "load_kernel_from_bytes m k ip cl mb w = Some (Ok KERNEL_ADDR,
        overlay (overlay ?m1 0x72D0 (e820_entry 0 0x9FC00 1 @ e820_entry 0x9FC00 0x60400 2
          @ e820_entry 0x100000 (word_of_nat (mb * 1024 * 1024 - 0x100000)) 1)) 0x71E8 [3])"
      (is "_ = Some (_, ?m2)")
      using load wi Some d base(1) m1(1) assms(1,2) by (simp add: write_e820_map_eq)
    then show ?thesis
      using Some d(1) m1 base assms(1,2) kend initrd_address_bounds(1) [of kend] lim d(2)
        initrd_address_aligned [of kend]
      by (intro exI [of _ ?m2] exI [of _ flags]) (simp add: overlay_simps layout)
  qed
qed

text \<open>A minimal bzImage (the test \<open>e820_map_structure\<close>) with an initramfs of three bytes.\<close>

definition test_bzimage :: bytes where
  "test_bzimage = overlay (overlay (zeros 3072) 0x1FE [0x55, 0xAA]) 0x202 (as_bytes ''HdrS'')"

definition initrd_fs :: fs where
  "initrd_fs = quiet_fs\<lparr>fs_files := [[Normal ''initrd''] \<mapsto> [1, 2, 3]]\<rparr>"

lemma test_bzimage_facts:
  "length test_bzimage = 3072" "is_bzimage test_bzimage" "length (pm_kernel test_bzimage) = 512"
proof -
  have h: "length (as_bytes ''HdrS'') = 4" by simp
  show len: "length test_bzimage = 3072" by (simp add: test_bzimage_def)
  have "window test_bzimage 0x202 4 = as_bytes ''HdrS''"
    by (simp add: test_bzimage_def window_overlay_hit)
  moreover have "test_bzimage ! 0x1FE = 0x55" "test_bzimage ! 0x1FF = 0xAA" "test_bzimage ! 0x1F1 = 0"
    by (simp_all add: test_bzimage_def overlay_nth)
  ultimately show bz: "is_bzimage test_bzimage" "length (pm_kernel test_bzimage) = 512"
    by (simp_all add: is_bzimage_def pm_kernel_def setup_sects_def len)
qed

theorem load_bzimage_memory_witness:
  "\<exists>m'. load_kernel_from_bytes (zeros (2 * 1024 * 1024)) test_bzimage (Some [Normal ''initrd''])
       ''quiet'' 2 initrd_fs = Some (Ok 0x100000, m')
     \<and> window m' 0x8000 6 = as_bytes ''quiet'' @ [0]
     \<and> window m' 0x101000 3 = [1, 2, 3]
     \<and> (le_to_word (window m' 0x7218 4) :: u32) = 0x101000
     \<and> window m' 0x71E8 1 = [3]"
proof -
  have rd: "fs_read [Normal ''initrd''] initrd_fs = Ok [1, 2, 3]"
    by (simp add: fs_read_def initrd_fs_def quiet_fs_def)
  have kend: "initrd_address (KERNEL_ADDR + length (pm_kernel test_bzimage)) = 0x101000"
    by (simp add: test_bzimage_facts initrd_address_def KERNEL_ADDR_def)
  have "pm_kernel test_bzimage \<noteq> []" using test_bzimage_facts(3) by auto
  then have "kernel_accepted (length (zeros (2 * 1024 * 1024))) test_bzimage
      (Some [Normal ''initrd'']) 2 initrd_fs"
    using kend rd by (simp add: kernel_accepted_def initramfs_fits_def test_bzimage_facts KERNEL_ADDR_def)
  note mem = load_bzimage_memory [where cl = "''quiet''", OF _ _ test_bzimage_facts(2) this,
      unfolded kend, simplified]
  have n: "(6::nat) = Suc (Suc (Suc (Suc (Suc (Suc 0)))))" "(3::nat) = Suc (Suc (Suc 0))"
    by simp_all
  show ?thesis using mem rd by (auto simp: layout n)
qed

end
