(* ===== verification/Whp.thy ===== *)
theory Whp
  imports Driver Boot Ready
begin

text \<open>
  \<open>src/driver/whp.rs\<close>: the Windows driver, which runs the guest in-process on the Windows
  Hypervisor Platform.  The platform is an oracle: the call of number \<open>i\<close> is answered by a field
  of \<open>whp_api\<close>; \<open>wh_log\<close> records the calls that create and delete partitions and processors,
  set registers, allocate, map and free guest memory, and start and join threads, with the outcome
  of those that give something back.  The guest is the sequence of exits the vCPU thread sees;
  what the thread still does after it has been told to stop, until it is joined, is an answer of the
  platform too.
  A panic (\<open>None\<close> of the boot code) is kept apart by \<open>whp_boot_steps\<close>; the size in bytes
  wraps around at 64 bits, as it does in a release build.
\<close>

section \<open>The vCPU\<close>

definition COM1_DATA :: u16 where "COM1_DATA = 0x3F8"
definition COM1_LSR :: u16 where "COM1_LSR = 0x3FD"

text \<open>An exit: the reason with its data, the instruction pointer and the instruction's length
  bits.\<close>

datatype exit_reason =
    RunError string
  | IoPortAccess u16 u32 u64
  | Halt u64
  | Canceled
  | MemoryAccess u64
  | OtherExit

record vp_exit =
  ex_reason :: exit_reason
  ex_rip :: u64
  ex_bitfield :: u8

datatype whp_call =
    CreatePartition nat
  | SetProcessorCount nat u32
  | DeletePartition nat bool
  | CreateVirtualProcessor nat
  | DeleteVirtualProcessor nat bool
  | CancelRun nat
  | SetRegisters nat "(string \<times> u64) list"
  | AllocMemory nat
  | MapMemory nat nat
  | FreeMemory nat bool
  | SpawnVcpu nat
  | JoinVcpu nat

text \<open>The state the thread works on: the VM's shared state, the text since the last marker, the
  serial log, the register writes, and whether the loop goes on.\<close>

record vcpu =
  vc_state :: VmState
  vc_state_poisoned :: bool
  vc_buffer :: string
  vc_log :: bytes
  vc_regs :: "(string \<times> u64) list list"
  vc_looping :: bool

definition update_state :: "VmState \<Rightarrow> vcpu \<Rightarrow> vcpu" where
  "update_state s v = (if vc_state_poisoned v then v else v\<lparr>vc_state := s\<rparr>)"

definition advance_rip :: "vp_exit \<Rightarrow> vcpu \<Rightarrow> vcpu" where
  "advance_rip ex v =
     (let new_rip = ex_rip ex + ucast (ex_bitfield ex AND 0xF)
      in v\<lparr>vc_regs := vc_regs v @ [[(''Rip'', new_rip)]]\<rparr>)"

definition set_rax :: "u64 \<Rightarrow> vcpu \<Rightarrow> vcpu" where
  "set_rax value v = v\<lparr>vc_regs := vc_regs v @ [[(''Rax'', value)]]\<rparr>"

text \<open>A byte on COM1: it goes to the log, and an ASCII byte to the buffer, which is searched for
  the marker.  A failed write of the log is ignored by the source and not shown here.\<close>

definition serial_byte :: "u8 \<Rightarrow> vcpu \<Rightarrow> vcpu" where
  "serial_byte byte v =
     (let v = v\<lparr>vc_log := vc_log v @ [byte]\<rparr> in
      if unat byte < 128 then
        (let v = v\<lparr>vc_buffer := vc_buffer v @ [char_of (unat byte)]\<rparr> in
         case str_find READY_MARKER (vc_buffer v) of None \<Rightarrow> v
         | Some pos \<Rightarrow>
           (let after = drop (pos + length READY_MARKER) (vc_buffer v) in
            case split_whitespace after of [] \<Rightarrow> v
            | w # _ \<Rightarrow>
              (let ip = str_trim w in
               if ip \<noteq> [] then (update_state (Ready ip) v)\<lparr>vc_buffer := []\<rparr> else v)))
      else v)"

definition handle_io_port :: "vp_exit \<Rightarrow> u16 \<Rightarrow> u32 \<Rightarrow> u64 \<Rightarrow> vcpu \<Rightarrow> vcpu" where
  "handle_io_port ex port access_info rax v =
     (let is_write = (access_info AND 1 \<noteq> 0);
          v = (if is_write \<and> port = COM1_DATA then serial_byte (ucast (rax AND 0xFF)) v
               else if \<not> is_write \<and> port = COM1_LSR then set_rax 0x60 v
               else if \<not> is_write then set_rax 0 v
               else v)
      in advance_rip ex v)"

definition vcpu_step :: "vp_exit \<Rightarrow> vcpu \<Rightarrow> vcpu" where
  "vcpu_step ex v =
     (case ex_reason ex of
        RunError e \<Rightarrow> (update_state (Failed (''vCPU execution failed: '' @ e)) v)\<lparr>vc_looping := False\<rparr>
      | IoPortAccess port access_info rax \<Rightarrow> handle_io_port ex port access_info rax v
      | Halt rflags \<Rightarrow>
          if rflags AND 0x200 \<noteq> 0 then advance_rip ex v
          else (update_state Stopped v)\<lparr>vc_looping := False\<rparr>
      | Canceled \<Rightarrow> v\<lparr>vc_looping := False\<rparr>
      | MemoryAccess gpa \<Rightarrow>
          (update_state (Failed (''unmapped memory access at GPA 0x'' @ nat_to_hex (unat gpa))) v)
            \<lparr>vc_looping := False\<rparr>
      | OtherExit \<Rightarrow> advance_rip ex v)"

text \<open>Iterations of the loop: the stop flag as it is read, and the exit of the run that follows.\<close>

fun vcpu_run :: "(bool \<times> vp_exit) list \<Rightarrow> vcpu \<Rightarrow> vcpu" where
  "vcpu_run [] v = v"
| "vcpu_run ((stop_flag, ex) # rest) v =
     (if \<not> vc_looping v then v
      else if stop_flag then v\<lparr>vc_looping := False\<rparr>
      else vcpu_run rest (vcpu_step ex v))"

text \<open>The start of \<open>vcpu_loop\<close>: the serial log is created, which empties it.\<close>

definition vcpu_start :: "(unit, io_error) result \<Rightarrow> vcpu \<Rightarrow> vcpu" where
  "vcpu_start create v =
     (case create of
        Err e \<Rightarrow> (update_state (Failed (''failed to create serial log: '' @ io_text e)) v)
                   \<lparr>vc_looping := False\<rparr>
      | Ok _ \<Rightarrow> v\<lparr>vc_buffer := [], vc_log := [], vc_looping := True\<rparr>)"

section \<open>The platform\<close>

record whp_api =
  wa_present :: "nat \<Rightarrow> bool"
  wa_create :: "nat \<Rightarrow> (nat, string) result"
  wa_call :: "nat \<Rightarrow> (unit, string) result"
  wa_alloc :: "nat \<Rightarrow> nat \<Rightarrow> nat"
  wa_fs :: "nat \<Rightarrow> fs"
  wa_spawn :: "nat \<Rightarrow> (unit, io_error) result"
  wa_log_create :: "nat \<Rightarrow> (unit, io_error) result"
  wa_last_exits :: "nat \<Rightarrow> (bool \<times> vp_exit) list"

record whp_host =
  wh_api :: whp_api
  wh_calls :: nat
  wh_log :: "whp_call list"

text \<open>Guest memory: its address and its contents, whose length is the size.\<close>

record GuestMemory =
  gm_ptr :: nat
  gm_bytes :: bytes

record WhpVm =
  wv_partition :: nat
  wv_memory :: GuestMemory
  wv_vcpu :: vcpu
  wv_resume_state :: "VmState option"
  wv_stop_flag :: bool
  wv_thread :: bool
  wv_serial_log :: path

record WhpDriver =
  whp_vms :: "string \<rightharpoonup> WhpVm"
  whp_poisoned :: bool
  whp_machine :: whp_host

definition whp_lock_error :: VmError where
  "whp_lock_error = Hypervisor (''VM lock poisoned: '' @ poison_text)"

definition state_lock_error :: VmError where
  "state_lock_error = Hypervisor (''state lock poisoned: '' @ poison_text)"

definition wh_tick :: "whp_host \<Rightarrow> whp_host" where
  "wh_tick w = w\<lparr>wh_calls := Suc (wh_calls w)\<rparr>"

definition wh_record :: "whp_call list \<Rightarrow> whp_host \<Rightarrow> whp_host" where
  "wh_record cs w = w\<lparr>wh_log := wh_log w @ cs\<rparr>"

text \<open>A call of the platform that can fail with a message, and what is recorded when it is made.\<close>

definition wh_try :: "whp_call list \<Rightarrow> whp_host \<Rightarrow> (unit, string) result \<times> whp_host" where
  "wh_try cs w = (wa_call (wh_api w) (wh_calls w), wh_record cs (wh_tick w))"

text \<open>The calls that give something back can fail too.  Their results are ignored, so the record is the
  only place that shows whether they worked.\<close>

definition released :: "whp_host \<Rightarrow> bool" where
  "released w = is_ok (wa_call (wh_api w) (wh_calls w))"

definition is_available :: "whp_host \<Rightarrow> bool \<times> whp_host" where
  "is_available w =
     (let (r, w1) = wh_try [] w
      in (is_ok r \<and> wa_present (wh_api w) (wh_calls w), w1))"

section \<open>Memory\<close>

text \<open>\<open>VirtualAlloc\<close> hands out zeroed pages, or the null pointer.\<close>

definition allocate :: "nat \<Rightarrow> whp_host \<Rightarrow> (GuestMemory, VmError) result \<times> whp_host" where
  "allocate sz w =
     (let ptr = wa_alloc (wh_api w) (wh_calls w) sz; w = wh_tick w in
      if ptr = 0
      then (Err (Hypervisor (''VirtualAlloc failed for '' @ nat_to_str (sz div (1024 * 1024)) @ '' MB'')), w)
      else (Ok \<lparr>gm_ptr = ptr, gm_bytes = zeros sz\<rparr>, wh_record [AllocMemory ptr] w))"

definition drop_memory :: "GuestMemory \<Rightarrow> whp_host \<Rightarrow> whp_host" where
  "drop_memory m w = (if gm_ptr m \<noteq> 0 then wh_record [FreeMemory (gm_ptr m) (released w)] (wh_tick w) else w)"

section \<open>Registers\<close>

definition general_registers :: "u64 \<Rightarrow> (string \<times> u64) list" where
  "general_registers entry_point =
     [(''Rip'', entry_point), (''Rsp'', word_of_nat BOOT_PARAMS_ADDR - 0x10), (''Rflags'', 0x2),
      (''Cr0'', 0x80010001), (''Cr3'', word_of_nat PML4_ADDR), (''Cr4'', 0x20), (''Efer'', 0xD00),
      (''Rsi'', word_of_nat BOOT_PARAMS_ADDR)]"

text \<open>A segment register as the pair of its selector and attributes (base 0, limit 4 GB), and the
  descriptor table register with limit 23.\<close>

definition code_segment :: "(string \<times> u64) list" where
  "code_segment = [(''Cs.Selector'', ucast GDT_CODE_SELECTOR), (''Cs.Attributes'', 0xA09B)]"

definition data_segment :: "string \<Rightarrow> (string \<times> u64) list" where
  "data_segment reg = [(reg @ ''.Selector'', ucast GDT_DATA_SELECTOR), (reg @ ''.Attributes'', 0xC093)]"

definition gdt_table :: "(string \<times> u64) list" where
  "gdt_table = [(''Gdtr.Base'', word_of_nat GDT_ADDR), (''Gdtr.Limit'', 23)]"

definition set_registers ::
  "nat \<Rightarrow> string \<Rightarrow> (string \<times> u64) list \<Rightarrow> whp_host \<Rightarrow> (unit, VmError) result \<times> whp_host" where
  "set_registers part what regs w =
     (let (r, w1) = wh_try [SetRegisters part regs] w
      in (map_err (\<lambda>e. BootFailed [] (what @ '': '' @ e)) r, w1))"

fun set_all_registers ::
  "nat \<Rightarrow> (string \<times> (string \<times> u64) list) list \<Rightarrow> whp_host \<Rightarrow> (unit, VmError) result \<times> whp_host" where
  "set_all_registers part [] w = (Ok (), w)"
| "set_all_registers part ((what, regs) # rest) w =
     (case set_registers part what regs w of
        (Err e, w1) \<Rightarrow> (Err e, w1)
      | (Ok _, w1) \<Rightarrow> set_all_registers part rest w1)"

definition set_segment_registers :: "nat \<Rightarrow> whp_host \<Rightarrow> (unit, VmError) result \<times> whp_host" where
  "set_segment_registers part w =
     set_all_registers part
       [(''failed to set CS'', code_segment),
        (''failed to set segment register'', data_segment ''Ds''),
        (''failed to set segment register'', data_segment ''Es''),
        (''failed to set segment register'', data_segment ''Ss''),
        (''failed to set GDTR'', gdt_table)] w"

definition setup_initial_registers :: "nat \<Rightarrow> u64 \<Rightarrow> whp_host \<Rightarrow> (unit, VmError) result \<times> whp_host" where
  "setup_initial_registers part entry_point w =
     (case set_registers part ''WHvSetVirtualProcessorRegisters (general) failed''
             (general_registers entry_point) w of
        (Err e, w1) \<Rightarrow> (Err e, w1)
      | (Ok _, w1) \<Rightarrow> set_segment_registers part w1)"

section \<open>Boot\<close>

definition delete_partition :: "nat \<Rightarrow> whp_host \<Rightarrow> whp_host" where
  "delete_partition p w = wh_record [DeletePartition p (released w)] (wh_tick w)"

definition delete_vp_and_partition :: "nat \<Rightarrow> whp_host \<Rightarrow> whp_host" where
  "delete_vp_and_partition p w =
     delete_partition p (wh_record [DeleteVirtualProcessor p (released w)] (wh_tick w))"

text \<open>Joining the thread after its stop flag is set: what it still does, then the end.\<close>

definition join_vcpu :: "WhpVm \<Rightarrow> whp_host \<Rightarrow> WhpVm \<times> whp_host" where
  "join_vcpu vm w =
     (if wv_thread vm
      then (vm\<lparr>wv_vcpu := (vcpu_run (wa_last_exits (wh_api w) (wh_calls w)) (wv_vcpu vm))\<lparr>vc_looping := False\<rparr>,
               wv_thread := False\<rparr>, wh_record [JoinVcpu (wv_partition vm)] (wh_tick w))
      else (vm, w))"

text \<open>\<open>Drop for WhpVm\<close>, and then the one of its memory.\<close>

definition drop_vm :: "WhpVm \<Rightarrow> whp_host \<Rightarrow> whp_host" where
  "drop_vm vm w =
     (let w = wh_record [CancelRun (wv_partition vm)] (wh_tick w);
          (vm, w) = join_vcpu (vm\<lparr>wv_stop_flag := True\<rparr>) w
      in drop_memory (wv_memory vm) (delete_vp_and_partition (wv_partition vm) w))"

fun attach_name :: "string \<Rightarrow> VmError \<Rightarrow> VmError" where
  "attach_name n (BootFailed _ detail) = BootFailed n detail"
| "attach_name n e = e"

definition whp_cmdline :: "VmConfig \<Rightarrow> string" where
  "whp_cmdline c =
     (case cfg_cmdline c of Some s \<Rightarrow> s
      | None \<Rightarrow> if cfg_root_disk c \<noteq> None then ''console=ttyS0 root=/dev/vda1 rw'' else ''console=ttyS0'')"

definition boot_failed :: "string \<Rightarrow> string \<Rightarrow> string \<Rightarrow> VmError" where
  "boot_failed name what e = BootFailed name (what @ '' failed: '' @ e)"

text \<open>Step 4: the contents of guest memory.  \<open>None\<close> is a panic.\<close>

definition guest_memory :: "VmConfig \<Rightarrow> bytes \<Rightarrow> fs \<Rightarrow> ((nat, VmError) result \<times> bytes) option" where
  "guest_memory c mem fs = do {
     mem \<leftarrow> setup_page_tables mem (unat (cfg_memory_mb c));
     mem \<leftarrow> setup_gdt mem;
     load_kernel mem (cfg_kernel c) (cfg_initramfs c) (whp_cmdline c) (unat (cfg_memory_mb c)) fs
   }"

text \<open>Steps 5 to 7, once memory is set up.  Wherever they fail, the memory is dropped at the end, after
  the partition has been deleted.\<close>

definition start_vcpu ::
  "VmConfig \<Rightarrow> nat \<Rightarrow> nat \<Rightarrow> GuestMemory \<Rightarrow> WhpDriver \<Rightarrow> whp_host \<Rightarrow> (VmHandle, VmError) result \<times> WhpDriver" where
  "start_vcpu c p entry_point memory d w =
     (let name = cfg_name c in
      case wh_try [CreateVirtualProcessor p] w of
        (Err e, w) \<Rightarrow> (Err (boot_failed name ''WHvCreateVirtualProcessor'' e),
                       d\<lparr>whp_machine := drop_memory memory (delete_partition p w)\<rparr>)
      | (Ok _, w) \<Rightarrow>
        (case setup_initial_registers p (word_of_nat entry_point) w of
           (Err e, w) \<Rightarrow> (Err e, d\<lparr>whp_machine := drop_memory memory (delete_vp_and_partition p w)\<rparr>)
         | (Ok _, w) \<Rightarrow>
           (case wa_spawn (wh_api w) (wh_calls w) of
              Err e \<Rightarrow> (Err (BootFailed name (''failed to spawn vCPU thread: '' @ io_text e)),
                        d\<lparr>whp_machine := drop_memory memory (delete_vp_and_partition p (wh_tick w))\<rparr>)
            | Ok _ \<Rightarrow>
              (let w = wh_record [SpawnVcpu p] (wh_tick w);
                   vm = \<lparr>wv_partition = p, wv_memory = memory,
                     wv_vcpu = vcpu_start (wa_log_create (wh_api w) (wh_calls w))
                       \<lparr>vc_state = Running, vc_state_poisoned = False, vc_buffer = [], vc_log = [],
                        vc_regs = [], vc_looping = False\<rparr>,
                     wv_resume_state = None, wv_stop_flag = False, wv_thread = True,
                     wv_serial_log = cfg_serial_log c\<rparr>;
                   w = wh_tick w
               in if whp_poisoned d then (Err whp_lock_error, d\<lparr>whp_machine := drop_vm vm w\<rparr>)
                  else (Ok \<lparr>h_name = name, h_namespace = cfg_namespace c, h_state = Running,
                            h_process = None, h_serial_log = cfg_serial_log c, h_machine_id = None\<rparr>,
                        (case whp_vms d name of
                           None \<Rightarrow> d\<lparr>whp_machine := w, whp_vms := (whp_vms d)(name \<mapsto> vm)\<rparr>
                         | Some old \<Rightarrow> d\<lparr>whp_machine := drop_vm old w,
                             whp_vms := (whp_vms d)(name \<mapsto> vm)\<rparr>))))))"

text \<open>Steps 3 and 4: memory is allocated, mapped and filled.\<close>

definition boot_memory ::
  "VmConfig \<Rightarrow> nat \<Rightarrow> WhpDriver \<Rightarrow> whp_host \<Rightarrow> ((VmHandle, VmError) result \<times> WhpDriver) option" where
  "boot_memory c p d w =
     (let name = cfg_name c; memory_bytes = unat (cfg_memory_mb c * 1024 * 1024) in
      case allocate memory_bytes w of
        (Err e, w) \<Rightarrow> Some (Err e, d\<lparr>whp_machine := delete_partition p w\<rparr>)
      | (Ok memory, w) \<Rightarrow>
        (case wh_try [MapMemory p (gm_ptr memory)] w of
           (Err e, w) \<Rightarrow> Some (Err (boot_failed name ''WHvMapGpaRange'' e),
                            d\<lparr>whp_machine := drop_memory memory (delete_partition p w)\<rparr>)
         | (Ok _, w) \<Rightarrow>
           (case guest_memory c (gm_bytes memory) (wa_fs (wh_api w) (wh_calls w)) of
              None \<Rightarrow> None
            | Some (Err e, mem) \<Rightarrow> Some (Err (attach_name name e),
                d\<lparr>whp_machine := drop_memory (memory\<lparr>gm_bytes := mem\<rparr>) (delete_partition p (wh_tick w))\<rparr>)
            | Some (Ok entry_point, mem) \<Rightarrow>
                Some (start_vcpu c p entry_point (memory\<lparr>gm_bytes := mem\<rparr>) d (wh_tick w)))))"

definition whp_boot_steps ::
  "VmConfig \<Rightarrow> WhpDriver \<Rightarrow> ((VmHandle, VmError) result \<times> WhpDriver) option" where
  "whp_boot_steps c d =
     (let name = cfg_name c;
          (available, w) = is_available (whp_machine d) in
      if \<not> available
      then Some (Err (Hypervisor (''Windows Hypervisor Platform is not available. ''
                   @ ''Enable Hyper-V in Windows Features.'')), d\<lparr>whp_machine := w\<rparr>)
      else (case wa_create (wh_api w) (wh_calls w) of
        Err e \<Rightarrow> Some (Err (boot_failed name ''WHvCreatePartition'' e), d\<lparr>whp_machine := wh_tick w\<rparr>)
      | Ok p \<Rightarrow>
        (case wh_try [SetProcessorCount p (ucast (cfg_cpus c))] (wh_record [CreatePartition p] (wh_tick w)) of
           (Err e, w) \<Rightarrow> Some (Err (boot_failed name ''WHvSetPartitionProperty(ProcessorCount)'' e),
                            d\<lparr>whp_machine := delete_partition p w\<rparr>)
         | (Ok _, w) \<Rightarrow>
           (case wh_try [] w of
              (Err e, w) \<Rightarrow> Some (Err (boot_failed name ''WHvSetupPartition'' e),
                               d\<lparr>whp_machine := delete_partition p w\<rparr>)
            | (Ok _, w) \<Rightarrow> boot_memory c p d w))))"

text \<open>The method itself; a panic of the boot code would not return (\<open>whp_boot_returns\<close> shows that
  it does for every configuration, as no memory of size 0 is ever allocated), so the value given to
  it here does not matter.\<close>

definition whp_boot :: "VmConfig \<Rightarrow> WhpDriver \<Rightarrow> (VmHandle, VmError) result \<times> WhpDriver" where
  "whp_boot c d = (case whp_boot_steps c d of Some r \<Rightarrow> r
     | None \<Rightarrow> (Err (Hypervisor ''panic''), d))"

section \<open>The other methods\<close>

definition whp_stop :: "VmHandle \<Rightarrow> WhpDriver \<Rightarrow> (unit, VmError) result \<times> WhpDriver" where
  "whp_stop h d =
     (if whp_poisoned d then (Err whp_lock_error, d)
      else (case whp_vms d (h_name h) of None \<Rightarrow> (Err (NotFound (h_name h)), d)
      | Some vm \<Rightarrow>
        (let vm = vm\<lparr>wv_stop_flag := True\<rparr>;
             w = wh_record [CancelRun (wv_partition vm)] (wh_tick (whp_machine d));
             (vm, w) = join_vcpu vm w;
             vm = vm\<lparr>wv_vcpu := update_state Stopped (wv_vcpu vm)\<rparr>;
             w = delete_vp_and_partition (wv_partition vm) w
         in (Ok (), d\<lparr>whp_vms := (whp_vms d)(h_name h := None), whp_machine := drop_vm vm w\<rparr>))))"

definition whp_kill :: "VmHandle \<Rightarrow> WhpDriver \<Rightarrow> (unit, VmError) result \<times> WhpDriver" where
  "whp_kill h d = whp_stop h d"

definition whp_state :: "VmHandle \<Rightarrow> WhpDriver \<Rightarrow> (VmState, VmError) result \<times> WhpDriver" where
  "whp_state h d =
     (if whp_poisoned d then (Err whp_lock_error, d)
      else (case whp_vms d (h_name h) of None \<Rightarrow> (Ok Stopped, d)
      | Some vm \<Rightarrow>
        if vc_state_poisoned (wv_vcpu vm) then (Err state_lock_error, d)
        else (Ok (vc_state (wv_vcpu vm)), d)))"

definition whp_pause :: "VmHandle \<Rightarrow> WhpDriver \<Rightarrow> (unit, VmError) result \<times> WhpDriver" where
  "whp_pause h d =
     (if whp_poisoned d then (Err whp_lock_error, d)
      else (case whp_vms d (h_name h) of None \<Rightarrow> (Err (NotFound (h_name h)), d)
      | Some vm \<Rightarrow>
        if vc_state_poisoned (wv_vcpu vm) then (Err state_lock_error, d)
        else (let current_state = vc_state (wv_vcpu vm) in
          if \<not> is_running current_state then (Err (Hypervisor ''can only pause a running VM''), d)
          else (let vm = vm\<lparr>wv_stop_flag := True\<rparr>;
                    w = wh_record [CancelRun (wv_partition vm)] (wh_tick (whp_machine d));
                    (vm, w) = join_vcpu vm w;
                    vm = vm\<lparr>wv_resume_state := Some current_state,
                            wv_vcpu := update_state Paused (wv_vcpu vm)\<rparr>
                in (Ok (), d\<lparr>whp_vms := (whp_vms d)(h_name h \<mapsto> vm), whp_machine := w\<rparr>)))))"

definition whp_resume :: "VmHandle \<Rightarrow> WhpDriver \<Rightarrow> (unit, VmError) result \<times> WhpDriver" where
  "whp_resume h d =
     (if whp_poisoned d then (Err whp_lock_error, d)
      else (case whp_vms d (h_name h) of None \<Rightarrow> (Err (NotFound (h_name h)), d)
      | Some vm \<Rightarrow>
        if vc_state_poisoned (wv_vcpu vm) then (Err state_lock_error, d)
        else if vc_state (wv_vcpu vm) \<noteq> Paused then (Err (Hypervisor ''can only resume a paused VM''), d)
        else if wv_thread vm
        then (Err (Hypervisor (''VM '' @ squote @ h_name h @ squote
                @ '' already has an active vCPU thread'')), d)
        else (let vm = vm\<lparr>wv_stop_flag := False\<rparr>;
                  resumed_state = (case wv_resume_state vm of Some s \<Rightarrow> s | None \<Rightarrow> Running);
                  w = whp_machine d in
          case wa_spawn (wh_api w) (wh_calls w) of
            Err e \<Rightarrow> (Err (Hypervisor (''failed to spawn vCPU thread: '' @ io_text e)),
                      d\<lparr>whp_vms := (whp_vms d)(h_name h \<mapsto> vm), whp_machine := wh_tick w\<rparr>)
          | Ok _ \<Rightarrow>
            (let w = wh_record [SpawnVcpu (wv_partition vm)] (wh_tick w);
                 v = vcpu_start (wa_log_create (wh_api w) (wh_calls w)) (wv_vcpu vm);
                 vm = vm\<lparr>wv_thread := True, wv_resume_state := None,
                         wv_vcpu := update_state resumed_state v\<rparr>
             in (Ok (), d\<lparr>whp_vms := (whp_vms d)(h_name h \<mapsto> vm), whp_machine := wh_tick w\<rparr>)))))"

text \<open>The guest runs: the vCPU thread of a VM makes some iterations.\<close>

definition guest_runs :: "string \<Rightarrow> (bool \<times> vp_exit) list \<Rightarrow> WhpDriver \<Rightarrow> WhpDriver" where
  "guest_runs name exits d =
     (case whp_vms d name of None \<Rightarrow> d
      | Some vm \<Rightarrow> d\<lparr>whp_vms := (whp_vms d)(name \<mapsto> vm\<lparr>wv_vcpu := vcpu_run exits (wv_vcpu vm)\<rparr>)\<rparr>)"

definition whp_driver :: "WhpDriver VmDriver" where
  "whp_driver = \<lparr>drv_boot = whp_boot, drv_stop = whp_stop, drv_kill = whp_kill,
     drv_state = whp_state, drv_pause = whp_pause, drv_resume = whp_resume\<rparr>"

section \<open>Guest memory\<close>

lemma setup_gdt_eq:
  assumes "0xC018 \<le> length m"
  shows "\<exists>m'. setup_gdt m = Some m' \<and> only_within 0xC000 0xC018 m m'
    \<and> window m' 0xC000 24 = u64_to_le GDT_NULL @ u64_to_le GDT_CODE64 @ u64_to_le GDT_DATA64"
proof -
  let ?m = "overlay m 0xC000 (u64_to_le GDT_NULL @ u64_to_le GDT_CODE64 @ u64_to_le GDT_DATA64)"
  have "setup_gdt m = Some ?m"
    using assms overlay_overlay [of "0xC000" "u64_to_le GDT_NULL" "u64_to_le GDT_CODE64" m]
      overlay_overlay [of "0xC000" "u64_to_le GDT_NULL @ u64_to_le GDT_CODE64" "u64_to_le GDT_DATA64" m]
    by (simp add: setup_gdt_def slice_copy_overlay GDT_ADDR_def)
  then show ?thesis using assms by (simp add: only_within_overlay window_overlay_hit)
qed

lemma memory_setup_total:
  "0xC000 \<le> length m \<Longrightarrow> \<exists>m'. setup_page_tables m mb = Some m' \<and> length m' = length m"
  "0xC018 \<le> length m \<Longrightarrow> \<exists>m'. setup_gdt m = Some m' \<and> length m' = length m"
  using setup_page_tables_entries [of m mb] setup_gdt_eq [of m] only_within_length by blast+

text \<open>The size of guest memory in bytes, computed modulo 2 ^ 64: it is 0 or at least 1 MB, and exact for
  the sizes the loader accepts.\<close>

lemma memory_size_bound:
  fixes mb :: usize
  assumes "unat (mb * 1024 * 1024) \<noteq> 0"
  shows "1 \<le> unat mb" "0x100000 \<le> unat (mb * 1024 * 1024)"
proof -
  have "mb * 1024 * 1024 = mb * 1048576" by simp
  then have "unat (mb * 1024 * 1024) = unat mb * 1048576 mod 18446744073709551616"
    by (simp only: unat_word_ariths(2)) simp
  also have "\<dots> = unat mb mod 2 ^ 44 * 1048576"
    using mult_mod_left [of "unat mb" "2 ^ 44" 1048576] by simp
  finally have eq: "unat (mb * 1024 * 1024) = unat mb mod 2 ^ 44 * 1048576" .
  with assms have "unat mb mod 2 ^ 44 \<noteq> 0" by simp
  then have "1 \<le> unat mb mod 2 ^ 44" by linarith
  then show "1 \<le> unat mb" "0x100000 \<le> unat (mb * 1024 * 1024)"
    using eq by (cases "unat mb"; simp)+
qed

lemma memory_size_exact:
  fixes mb :: usize
  assumes "unat mb \<le> 1024"
  shows "unat (mb * 1024 * 1024) = unat mb * 1024 * 1024"
  using assms by (simp add: unat_word_ariths mult.assoc [symmetric] mod_mult_left_eq)

text \<open>Memory of at least 1 MB is always set up: no slice of the boot code leaves it.  What the
  tables and the GDT held before the kernel is loaded they hold afterwards.\<close>

lemma guest_memory_setup:
  assumes "1 \<le> unat (cfg_memory_mb c)" "0x100000 \<le> bytes"
  shows "\<exists>mem r mem'. guest_memory c (zeros bytes) fs = Some (r, mem') \<and> loader_frame mem mem'
    \<and> (\<forall>j < 512. table_entry mem 0x9000 j = (if j = 0 then 0xA003 else 0))
    \<and> (\<forall>j < 512. table_entry mem 0xA000 j = (if j = 0 then 0xB003 else 0))
    \<and> (\<forall>j < 512. table_entry mem 0xB000 j =
          (if j < min ((unat (cfg_memory_mb c) + 1) div 2) 512 then pd_entry j else 0))
    \<and> window mem 0xC000 24 = u64_to_le GDT_NULL @ u64_to_le GDT_CODE64 @ u64_to_le GDT_DATA64
    \<and> (is_ok r \<longrightarrow> r = Ok KERNEL_ADDR \<and> unat (cfg_memory_mb c) \<le> 1024)"
proof -
  let ?mb = "unat (cfg_memory_mb c)"
  have "0xC000 \<le> length (zeros bytes)" using assms(2) by simp
  from setup_page_tables_entries [OF this, of ?mb] obtain m1 where m1:
      "setup_page_tables (zeros bytes) ?mb = Some m1" "only_within 0x9000 0xC000 (zeros bytes) m1"
    and t: "\<forall>j < 512. table_entry m1 0x9000 j = (if j = 0 then 0xA003 else 0)"
      "\<forall>j < 512. table_entry m1 0xA000 j = (if j = 0 then 0xB003 else 0)"
      "\<forall>j < 512. table_entry m1 0xB000 j = (if j < min ((?mb + 1) div 2) 512 then pd_entry j else 0)"
    by blast
  have len1: "length m1 = bytes" using only_within_length [OF m1(2)] by simp
  obtain m2 where m2: "setup_gdt m1 = Some m2" "only_within 0xC000 0xC018 m1 m2"
      "window m2 0xC000 24 = u64_to_le GDT_NULL @ u64_to_le GDT_CODE64 @ u64_to_le GDT_DATA64"
    using setup_gdt_eq [of m1] len1 assms(2) by auto
  have len2: "length m2 = bytes" using only_within_length [OF m2(2)] len1 by simp
  have keep: "table_entry m2 tab j = table_entry m1 tab j" if "tab + j * 8 + 8 \<le> 0xC000" for tab j
    unfolding table_entry_def using only_within_window [OF m2(2), of "tab + j * 8" 8] that by simp
  have t2: "\<forall>j < 512. table_entry m2 0x9000 j = table_entry m1 0x9000 j"
      "\<forall>j < 512. table_entry m2 0xA000 j = table_entry m1 0xA000 j"
      "\<forall>j < 512. table_entry m2 0xB000 j = table_entry m1 0xB000 j"
    by (simp_all add: keep)
  have load: "\<exists>r m'. load_kernel m2 (cfg_kernel c) (cfg_initramfs c) (whp_cmdline c) ?mb fs = Some (r, m')
      \<and> loader_frame m2 m' \<and> (is_ok r \<longrightarrow> r = Ok KERNEL_ADDR \<and> ?mb \<le> 1024)"
  proof (cases "fs_read (cfg_kernel c) fs")
    case (Ok k)
    then show ?thesis
      using load_kernel_from_bytes_outcome [of m2 ?mb k "cfg_initramfs c" "whp_cmdline c" fs] len2 assms
      by (auto simp: load_kernel_def kernel_accepted_def)
  next
    case (Err e)
    then show ?thesis by (simp add: load_kernel_def)
  qed
  then obtain r m' where r: "load_kernel m2 (cfg_kernel c) (cfg_initramfs c) (whp_cmdline c) ?mb fs = Some (r, m')"
      "loader_frame m2 m'" "is_ok r \<longrightarrow> r = Ok KERNEL_ADDR \<and> ?mb \<le> 1024"
    by blast
  have "guest_memory c (zeros bytes) fs = Some (r, m')"
    using m1(1) m2(1) r(1) by (simp add: guest_memory_def)
  then show ?thesis
    using r(2,3) m2(3) t t2 by (intro exI [of _ m2] exI [of _ r] exI [of _ m'] conjI) simp_all
qed

text \<open>C13: a booted guest finds the memory its registers promise.  The size in bytes is computed
  with wrap-around; for every configuration for which it is not 0 the set-up never panics; and
  when it succeeds, the page tables that CR3 points to map the whole guest memory to itself (the
  mapping stops at the memory's size rounded up to 2 MB), the descriptor table that GDTR points
  to holds the null, code and data descriptors, and the entry point is the start of the kernel.\<close>

theorem guest_memory_layout:
  assumes "bytes = unat (cfg_memory_mb c * 1024 * 1024)" "bytes \<noteq> 0"
  shows "\<exists>r mem. guest_memory c (zeros bytes) fs = Some (r, mem)
    \<and> (\<forall>entry. r = Ok entry \<longrightarrow>
         entry = KERNEL_ADDR
         \<and> bytes = unat (cfg_memory_mb c) * 1024 * 1024
         \<and> (\<forall>va < bytes. page_walk mem PML4_ADDR va = Some va)
         \<and> (\<forall>va. (unat (cfg_memory_mb c) + 1) div 2 * 2 ^ 21 \<le> va \<and> va < 2 ^ 48 \<longrightarrow>
              page_walk mem PML4_ADDR va = None)
         \<and> window mem GDT_ADDR 24 = u64_to_le GDT_NULL @ u64_to_le GDT_CODE64 @ u64_to_le GDT_DATA64
         \<and> (''Cr3'', word_of_nat PML4_ADDR) \<in> set (general_registers (word_of_nat entry))
         \<and> (''Gdtr.Base'', word_of_nat GDT_ADDR) \<in> set gdt_table)"
proof -
  let ?mb = "unat (cfg_memory_mb c)"
  have mb: "1 \<le> ?mb" "0x100000 \<le> bytes" using memory_size_bound [of "cfg_memory_mb c"] assms by auto
  from guest_memory_setup [OF mb] obtain mem r mem' where
    g: "guest_memory c (zeros bytes) fs = Some (r, mem')" "loader_frame mem mem'"
    and t: "\<forall>j < 512. table_entry mem 0x9000 j = (if j = 0 then 0xA003 else 0)"
      "\<forall>j < 512. table_entry mem 0xA000 j = (if j = 0 then 0xB003 else 0)"
      "\<forall>j < 512. table_entry mem 0xB000 j = (if j < min ((?mb + 1) div 2) 512 then pd_entry j else 0)"
    and gdt: "window mem 0xC000 24 = u64_to_le GDT_NULL @ u64_to_le GDT_CODE64 @ u64_to_le GDT_DATA64"
    and ok: "is_ok r \<longrightarrow> r = Ok KERNEL_ADDR \<and> ?mb \<le> 1024"
    by blast
  have frame: "window mem' off n = window mem off n" if "0x9000 \<le> off" "off + n \<le> 0x100000" for off n
    using window_sub [of mem' "0x9000" "0xF7000" mem off n] g(2) that by (simp add: loader_frame_def)
  have keep: "table_entry mem' tab j = table_entry mem tab j"
    if "0x9000 \<le> tab" "tab \<le> 0xB000" "j < 512" for tab j
    unfolding table_entry_def using frame [of "tab + j * 8" 8] that by simp
  have "page_walk mem' PML4_ADDR va = (if va < min ((?mb + 1) div 2) 512 * 2 ^ 21 then Some va else None)"
    if "va < 2 ^ 48" for va
    using t that by (intro page_walk_tables) (simp_all add: keep)
  moreover have "bytes = ?mb * 1024 * 1024" if "?mb \<le> 1024"
    using memory_size_exact [OF that] assms(1) by simp
  moreover have "min ((?mb + 1) div 2) 512 = (?mb + 1) div 2" "bytes \<le> (?mb + 1) div 2 * 2 ^ 21" "bytes \<le> 2 ^ 30"
    if "?mb \<le> 1024"
  proof -
    have half: "?mb \<le> 2 * ((?mb + 1) div 2)" "2 * ((?mb + 1) div 2) \<le> ?mb + 1" by linarith+
    then show "min ((?mb + 1) div 2) 512 = (?mb + 1) div 2" using that by linarith
    show "bytes \<le> (?mb + 1) div 2 * 2 ^ 21" "bytes \<le> 2 ^ 30"
      using half that unfolding assms(1) memory_size_exact [OF that] by simp_all
  qed
  moreover have "window mem' 0xC000 24 = u64_to_le GDT_NULL @ u64_to_le GDT_CODE64 @ u64_to_le GDT_DATA64"
    using frame [of "0xC000" 24] gdt by simp
  ultimately have "\<forall>entry. r = Ok entry \<longrightarrow> entry = KERNEL_ADDR
      \<and> bytes = ?mb * 1024 * 1024 \<and> (\<forall>va < bytes. page_walk mem' PML4_ADDR va = Some va)
      \<and> (\<forall>va. (?mb + 1) div 2 * 2 ^ 21 \<le> va \<and> va < 2 ^ 48 \<longrightarrow> page_walk mem' PML4_ADDR va = None)
      \<and> window mem' GDT_ADDR 24 = u64_to_le GDT_NULL @ u64_to_le GDT_CODE64 @ u64_to_le GDT_DATA64
      \<and> (''Cr3'', word_of_nat PML4_ADDR) \<in> set (general_registers (word_of_nat entry))
      \<and> (''Gdtr.Base'', word_of_nat GDT_ADDR) \<in> set gdt_table"
    using ok by (auto simp: GDT_ADDR_def general_registers_def gdt_table_def simp del: mult_numeral_1)
  then show ?thesis using g(1) by blast
qed

definition whp_config :: VmConfig where
  "whp_config = \<lparr>cfg_name = ''win'', cfg_namespace = ''default'', cfg_kernel = [Normal ''k''],
     cfg_initramfs = None, cfg_root_disk = None, cfg_data_disk = None, cfg_seed_iso = None,
     cfg_cpus = 1, cfg_memory_mb = 16, cfg_networks = [], cfg_shared_dirs = [],
     cfg_serial_log = [Normal ''serial.log''], cfg_cmdline = None, cfg_netns = None,
     cfg_vsock = False, cfg_machine_id = None, cfg_efi_variable_store = None, cfg_rosetta = False\<rparr>"

definition kernel_fs :: fs where
  "kernel_fs = quiet_fs\<lparr>fs_files := [[Normal ''k''] \<mapsto> zeros 1024]\<rparr>"

lemma raw_kernel_accepted: "kernel_accepted (16 * 1024 * 1024) (zeros 1024) None 16 kernel_fs"
proof -
  have "zeros 1024 \<noteq> []" by (metis length_zeros list.size(3) zero_neq_numeral)
  then show ?thesis
    by (simp add: kernel_accepted_def pm_kernel_def is_bzimage_def KERNEL_ADDR_def)
qed

lemma whp_config_memory:
  "\<exists>mem. guest_memory whp_config (zeros (16 * 1024 * 1024)) kernel_fs = Some (Ok KERNEL_ADDR, mem)"
proof -
  have mb: "unat (cfg_memory_mb whp_config) = 16" by (simp add: whp_config_def)
  obtain m1 where m1: "setup_page_tables (zeros (16 * 1024 * 1024)) 16 = Some m1" "length m1 = 16 * 1024 * 1024"
    using memory_setup_total(1) [of "zeros (16 * 1024 * 1024)" 16] by auto
  obtain m2 where m2: "setup_gdt m1 = Some m2" "length m2 = 16 * 1024 * 1024"
    using memory_setup_total(2) [of m1] m1(2) by auto
  have "\<exists>m'. load_kernel_from_bytes m2 (zeros 1024) None (whp_cmdline whp_config) 16 kernel_fs = Some (Ok KERNEL_ADDR, m')"
    using load_kernel_from_bytes_outcome [of m2 16 "zeros 1024" None "whp_cmdline whp_config" kernel_fs]
      raw_kernel_accepted m2(2) by auto
  moreover have "fs_read [Normal ''k''] kernel_fs = Ok (zeros 1024)"
    by (simp add: fs_read_def kernel_fs_def quiet_fs_def)
  moreover have "cfg_kernel whp_config = [Normal ''k'']" "cfg_initramfs whp_config = None"
    by (simp_all add: whp_config_def)
  ultimately show ?thesis
    using m1(1) m2(1) mb by (auto simp: guest_memory_def load_kernel_def)
qed

theorem guest_memory_layout_witness:
  "\<exists>mem. guest_memory whp_config (zeros (16 * 1024 * 1024)) kernel_fs = Some (Ok KERNEL_ADDR, mem)
     \<and> page_walk mem PML4_ADDR 0x123456 = Some 0x123456"
proof -
  obtain m' where "guest_memory whp_config (zeros (16 * 1024 * 1024)) kernel_fs = Some (Ok KERNEL_ADDR, m')"
    using whp_config_memory by blast
  moreover have "\<exists>r mem. guest_memory whp_config (zeros (16 * 1024 * 1024)) kernel_fs = Some (r, mem)
      \<and> (\<forall>entry. r = Ok entry \<longrightarrow> (\<forall>va < 16 * 1024 * 1024. page_walk mem PML4_ADDR va = Some va))"
    using guest_memory_layout [of "16 * 1024 * 1024" whp_config kernel_fs] by (auto simp: whp_config_def)
  moreover have "(0x123456 :: nat) < 16 * 1024 * 1024" by simp
  ultimately show ?thesis by (metis Pair_inject option.inject)
qed

section \<open>A machine\<close>

definition test_api :: whp_api where
  "test_api = \<lparr>wa_present = (\<lambda>_. True), wa_create = (\<lambda>i. Ok (7 + i)), wa_call = (\<lambda>_. Ok ()),
     wa_alloc = (\<lambda>_ _. 0), wa_fs = (\<lambda>_. kernel_fs), wa_spawn = (\<lambda>_. Ok ()),
     wa_log_create = (\<lambda>_. Ok ()), wa_last_exits = (\<lambda>_. [])\<rparr>"

definition whp_new :: WhpDriver where
  "whp_new = \<lparr>whp_vms = (\<lambda>_. None), whp_poisoned = False,
     whp_machine = \<lparr>wh_api = test_api, wh_calls = 0, wh_log = []\<rparr>\<rparr>"

definition idle_vcpu :: vcpu where
  "idle_vcpu = \<lparr>vc_state = Running, vc_state_poisoned = False, vc_buffer = [], vc_log = [],
     vc_regs = [], vc_looping = True\<rparr>"

definition idle_vm :: WhpVm where
  "idle_vm = \<lparr>wv_partition = 8, wv_memory = \<lparr>gm_ptr = 0x10000, gm_bytes = []\<rparr>, wv_vcpu = idle_vcpu, wv_resume_state = None,
     wv_stop_flag = False, wv_thread = True, wv_serial_log = [Normal ''serial.log'']\<rparr>"

definition win_handle :: VmHandle where
  "win_handle = \<lparr>h_name = ''win'', h_namespace = ''default'', h_state = Running, h_process = None,
     h_serial_log = [Normal ''serial.log''], h_machine_id = None\<rparr>"

definition whp_running :: WhpDriver where
  "whp_running = whp_new\<lparr>whp_vms := [''win'' \<mapsto> idle_vm]\<rparr>"

section \<open>The serial port\<close>

lemma serial_byte_ascii:
  assumes "code c < 128"
  shows "serial_byte (word_of_nat (code c)) v =
    (let v = v\<lparr>vc_log := vc_log v @ [word_of_nat (code c)], vc_buffer := vc_buffer v @ [c]\<rparr>
     in case parse_ready_marker (vc_buffer v) of None \<Rightarrow> v
        | Some ip \<Rightarrow> (update_state (Ready ip) v)\<lparr>vc_buffer := []\<rparr>)"
  using assms
  by (simp add: serial_byte_def parse_ready_marker_def Let_def split: option.split list.split)

text \<open>Text that nowhere completes a marker with an address only accumulates.\<close>

lemma serial_text_quiet:
  assumes "ascii_str t" "\<And>n. n \<le> length t \<Longrightarrow> 0 < n \<Longrightarrow> parse_ready_marker (vc_buffer v @ take n t) = None"
  shows "fold serial_byte (as_bytes t) v = v\<lparr>vc_log := vc_log v @ as_bytes t, vc_buffer := vc_buffer v @ t\<rparr>"
  using assms
proof (induction t arbitrary: v)
  case (Cons c t)
  have c: "code c < 128" using Cons.prems(1) by (simp add: ascii_str_def)
  have "parse_ready_marker (vc_buffer v @ [c]) = None" using Cons.prems(2) [of 1] by simp
  then have step: "serial_byte (word_of_nat (code c)) v =
      v\<lparr>vc_log := vc_log v @ [word_of_nat (code c)], vc_buffer := vc_buffer v @ [c]\<rparr>"
    by (simp add: serial_byte_ascii [OF c] Let_def)
  have "parse_ready_marker (vc_buffer v @ [c] @ take n t) = None" if "n \<le> length t" for n
    using Cons.prems(2) [of "Suc n"] that by simp
  then show ?case
    using Cons.IH [of "v\<lparr>vc_log := vc_log v @ [word_of_nat (code c)], vc_buffer := vc_buffer v @ [c]\<rparr>"]
      Cons.prems(1) step by (simp add: as_bytes_def ascii_str_def)
qed (simp add: as_bytes_def)

lemma parse_without_marker: "\<not> str_contains READY_MARKER s \<Longrightarrow> parse_ready_marker s = None"
  by (simp add: str_contains_def parse_ready_marker_def)

lemma contains_take: "str_contains p (take n s) \<Longrightarrow> str_contains p s"
  unfolding str_contains_iff by (metis append.assoc append_take_drop_id)

lemma marker_alone_quiet:
  "n \<le> 11 \<Longrightarrow> parse_ready_marker (take n (READY_MARKER @ '' '')) = None"
proof -
  have "list_all (\<lambda>n. parse_ready_marker (take n (READY_MARKER @ '' '')) = None) [0..<12]" by code_simp
  moreover assume "n \<le> 11"
  ultimately show ?thesis by (simp add: list_all_iff)
qed

text \<open>The reported address is its first character.  The marker is looked for after every byte
  the guest writes, so a guest that prints the marker, a blank and its address is taken to be
  ready as soon as the first character of the address is out, with that one character as its
  address; the rest of the address does not correct it.\<close>

theorem serial_ready_first_char:
  assumes "vc_buffer v = []" "\<not> vc_state_poisoned v" "code c < 128" "\<not> ascii_ws c"
    and "ascii_str rest" "\<not> str_contains READY_MARKER rest"
  shows "vc_state (fold serial_byte (as_bytes (READY_MARKER @ '' '' @ [c] @ rest)) v) = Ready [c]"
proof -
  let ?m = "READY_MARKER @ '' ''"
  have "ascii_str ?m" by code_simp
  moreover have "parse_ready_marker (vc_buffer v @ take n ?m) = None" if "n \<le> length ?m" for n
    using marker_alone_quiet [of n] that assms(1) by simp
  ultimately have 1: "fold serial_byte (as_bytes ?m) v =
      v\<lparr>vc_log := vc_log v @ as_bytes ?m, vc_buffer := ?m\<rparr>" (is "_ = ?v1")
    using serial_text_quiet [of ?m v] assms(1) by simp
  have "parse_ready_marker ([] @ READY_MARKER @ '' '' @ [c] @ []) = Some [c]"
    using assms(3,4) by (intro parse_ready_marker_token) (simp_all add: ascii_ws_def)
  then obtain v2 where 2: "serial_byte (word_of_nat (code c)) ?v1 = v2" "vc_state v2 = Ready [c]" "vc_buffer v2 = []"
    using assms(2) by (simp add: serial_byte_ascii [OF assms(3)] update_state_def Let_def)
  have "parse_ready_marker (vc_buffer v2 @ take n rest) = None" for n
    using contains_take [of READY_MARKER n rest] assms(6) 2(3) by (intro parse_without_marker) auto
  then have "fold serial_byte (as_bytes rest) v2 =
      v2\<lparr>vc_log := vc_log v2 @ as_bytes rest, vc_buffer := vc_buffer v2 @ rest\<rparr>"
    using serial_text_quiet [OF assms(5)] by simp
  moreover have "as_bytes (READY_MARKER @ '' '' @ [c] @ rest) = as_bytes ?m @ [word_of_nat (code c)] @ as_bytes rest"
    by (simp add: as_bytes_def)
  ultimately show ?thesis using 1 2 by simp
qed

theorem serial_ready_first_char_witness:
  "vc_state (fold serial_byte (as_bytes (READY_MARKER @ '' '' @ [CHR ''1''] @ ''0.0.0.2'')) idle_vcpu) = Ready ''1''"
proof -
  have "ascii_str ''0.0.0.2''" "\<not> str_contains READY_MARKER ''0.0.0.2''" by code_simp+
  then show ?thesis
    by (intro serial_ready_first_char) (simp_all add: idle_vcpu_def ascii_ws_def)
qed

section \<open>Pausing, resuming and the driver contract\<close>

definition whp_vm_ok :: "WhpVm \<Rightarrow> bool" where
  "whp_vm_ok vm \<longleftrightarrow> (wv_thread vm \<longrightarrow> \<not> wv_stop_flag vm)
     \<and> (case wv_resume_state vm of None \<Rightarrow> True | Some s \<Rightarrow> is_running s)"

text \<open>The driver's invariant: a VM that has a vCPU thread has not been told to stop, and what it
  will resume to is a running state.\<close>

definition whp_inv :: "WhpDriver \<Rightarrow> bool" where
  "whp_inv d \<longleftrightarrow> (\<forall>n vm. whp_vms d n = Some vm \<longrightarrow> whp_vm_ok vm)"

lemma join_vcpu_fields [simp]:
  "wv_thread (fst (join_vcpu vm w)) = False"
  "wv_stop_flag (fst (join_vcpu vm w)) = wv_stop_flag vm"
  "wv_resume_state (fst (join_vcpu vm w)) = wv_resume_state vm"
  "wv_partition (fst (join_vcpu vm w)) = wv_partition vm"
  "wv_memory (fst (join_vcpu vm w)) = wv_memory vm"
  "wv_serial_log (fst (join_vcpu vm w)) = wv_serial_log vm"
  by (simp_all add: join_vcpu_def)

lemma vcpu_step_poisoned [simp]: "vc_state_poisoned (vcpu_step ex v) = vc_state_poisoned v"
  by (simp add: vcpu_step_def handle_io_port_def serial_byte_def update_state_def advance_rip_def
      set_rax_def Let_def split: exit_reason.split option.split list.split)

lemma vcpu_run_poisoned [simp]: "vc_state_poisoned (vcpu_run exits v) = vc_state_poisoned v"
  by (induction exits v rule: vcpu_run.induct) simp_all

lemma join_vcpu_poisoned [simp]:
  "vc_state_poisoned (wv_vcpu (fst (join_vcpu vm w))) = vc_state_poisoned (wv_vcpu vm)"
  by (simp add: join_vcpu_def)

lemma start_vcpu_handle:
  "start_vcpu c p entry mem d w = (Ok h, d') \<Longrightarrow> h_name h = cfg_name c
     \<and> h_namespace h = cfg_namespace c \<and> h_serial_log h = cfg_serial_log c \<and> h_state h = Running"
  unfolding start_vcpu_def Let_def by (auto split: prod.splits result.splits if_splits)

lemma boot_memory_handle:
  "boot_memory c p d w = Some (Ok h, d') \<Longrightarrow> h_name h = cfg_name c
     \<and> h_namespace h = cfg_namespace c \<and> h_serial_log h = cfg_serial_log c \<and> h_state h = Running"
  unfolding boot_memory_def Let_def
  by (auto split: prod.splits result.splits option.splits dest!: start_vcpu_handle)

lemma whp_boot_handle:
  "whp_boot c d = (Ok h, d') \<Longrightarrow> h_name h = cfg_name c
     \<and> h_namespace h = cfg_namespace c \<and> h_serial_log h = cfg_serial_log c \<and> h_state h = Running"
  unfolding whp_boot_def whp_boot_steps_def Let_def
  by (auto split: prod.splits result.splits if_splits option.splits dest!: boot_memory_handle)

lemma whp_stop_vms:
  "whp_vms (snd (whp_stop h d)) = whp_vms d \<or> whp_vms (snd (whp_stop h d)) = (whp_vms d)(h_name h := None)"
  by (simp add: whp_stop_def Let_def split: option.split prod.split)

lemma whp_inv_machine [simp]: "whp_inv (d\<lparr>whp_machine := w\<rparr>) = whp_inv d"
  by (simp add: whp_inv_def)

lemma whp_inv_set:
  assumes "whp_inv d" "whp_vm_ok vm"
  shows "whp_inv (d\<lparr>whp_vms := (whp_vms d)(n \<mapsto> vm)\<rparr>)"
    and "whp_inv (d\<lparr>whp_vms := (whp_vms d)(n \<mapsto> vm), whp_machine := w\<rparr>)"
    and "whp_inv (d\<lparr>whp_machine := w, whp_vms := (whp_vms d)(n \<mapsto> vm)\<rparr>)"
  using assms by (simp_all add: whp_inv_def)

lemma whp_inv_get: "whp_inv d \<Longrightarrow> whp_vms d n = Some vm \<Longrightarrow> whp_vm_ok vm"
  by (simp add: whp_inv_def)

lemma whp_inv_pause: "whp_inv d \<Longrightarrow> whp_inv (snd (whp_pause h d))"
  by (auto simp: whp_pause_def join_vcpu_def Let_def split: option.split intro!: whp_inv_set)
    (simp_all add: whp_vm_ok_def)

lemma whp_inv_resume: "whp_inv d \<Longrightarrow> whp_inv (snd (whp_resume h d))"
  by (auto simp: whp_resume_def Let_def split: option.split result.split intro!: whp_inv_set dest: whp_inv_get)
    (auto dest!: whp_inv_get simp: whp_vm_ok_def)

lemma whp_inv_start: "start_vcpu c p entry mem d w = (r, d') \<Longrightarrow> whp_inv d \<Longrightarrow> whp_inv d'"
  unfolding start_vcpu_def Let_def
  by (auto split: prod.splits result.splits option.splits if_splits intro!: whp_inv_set simp: whp_vm_ok_def)

lemma whp_inv_memory: "boot_memory c p d w = Some (r, d') \<Longrightarrow> whp_inv d \<Longrightarrow> whp_inv d'"
  unfolding boot_memory_def Let_def
  by (auto split: prod.splits result.splits option.splits dest: whp_inv_start)

lemma whp_inv_boot: "whp_inv d \<Longrightarrow> whp_inv (snd (whp_boot c d))"
  unfolding whp_boot_def whp_boot_steps_def Let_def
  by (auto split: prod.split result.split option.split dest: whp_inv_memory)

interpretation whp: vm_driver whp_driver whp_inv
proof unfold_locales
  fix c d h d'
  assume "drv_boot whp_driver c d = (Ok h, d')"
  then show "h_name h = cfg_name c \<and> h_namespace h = cfg_namespace c
      \<and> h_serial_log h = cfg_serial_log c \<and> h_state h \<in> {Starting, Running}"
    using whp_boot_handle by (simp add: whp_driver_def)
next
  fix c d assume "whp_inv d"
  then show "whp_inv (snd (drv_boot whp_driver c d))"
    using whp_inv_boot by (simp add: whp_driver_def)
next
  fix d h assume inv: "whp_inv d"
  show "whp_inv (snd (drv_stop whp_driver h d))" "whp_inv (snd (drv_kill whp_driver h d))"
    using inv whp_stop_vms [of h d] by (auto simp: whp_driver_def whp_kill_def whp_inv_def split: if_splits)
  show "whp_inv (snd (drv_state whp_driver h d))"
    using inv by (simp add: whp_driver_def whp_state_def split: option.split)
  show "whp_inv (snd (drv_pause whp_driver h d))"
    using whp_inv_pause [OF inv] by (simp add: whp_driver_def)
  show "whp_inv (snd (drv_resume whp_driver h d))"
    using whp_inv_resume [OF inv] by (simp add: whp_driver_def)
qed

text \<open>C37: pausing and resuming.  Pausing a running VM and resuming it, when the thread can be
  started and its log created, brings back the state the VM had when \<open>pause\<close> read it, whatever
  the vCPU still did until it stopped, keeps memory and partition, and leaves a thread that has
  not been told to stop.  The serial log is emptied, though: \<open>resume\<close> creates it anew.\<close>

theorem whp_pause_resume:
  assumes "whp_vms d (h_name h) = Some vm" "\<not> whp_poisoned d" "\<not> vc_state_poisoned (wv_vcpu vm)"
    and "is_running (vc_state (wv_vcpu vm))"
    and "\<And>i. is_ok (wa_spawn (wh_api (whp_machine d)) i)"
    and "\<And>i. is_ok (wa_log_create (wh_api (whp_machine d)) i)"
  shows "\<exists>d1 d2 vm2. whp_pause h d = (Ok (), d1) \<and> whp_state h d1 = (Ok Paused, d1)
    \<and> whp_resume h d1 = (Ok (), d2) \<and> whp_vms d2 = (whp_vms d)(h_name h \<mapsto> vm2)
    \<and> whp_state h d2 = (Ok (vc_state (wv_vcpu vm)), d2)
    \<and> wv_thread vm2 \<and> \<not> wv_stop_flag vm2 \<and> wv_memory vm2 = wv_memory vm
    \<and> wv_partition vm2 = wv_partition vm \<and> vc_log (wv_vcpu vm2) = [] \<and> vc_looping (wv_vcpu vm2)"
proof -
  let ?w = "wh_record [CancelRun (wv_partition vm)] (wh_tick (whp_machine d))"
  obtain vm1 w1 where j: "join_vcpu (vm\<lparr>wv_stop_flag := True\<rparr>) ?w = (vm1, w1)" by force
  have vm1: "wv_thread vm1 = False" "wv_memory vm1 = wv_memory vm" "wv_partition vm1 = wv_partition vm"
      "\<not> vc_state_poisoned (wv_vcpu vm1)"
    using join_vcpu_fields [of "vm\<lparr>wv_stop_flag := True\<rparr>" ?w]
      join_vcpu_poisoned [of "vm\<lparr>wv_stop_flag := True\<rparr>" ?w] assms(3) j by simp_all
  have api: "wh_api w1 = wh_api (whp_machine d)"
    using j by (auto simp: join_vcpu_def wh_tick_def wh_record_def split: if_splits)
  let ?vm = "vm1\<lparr>wv_resume_state := Some (vc_state (wv_vcpu vm)), wv_vcpu := (wv_vcpu vm1)\<lparr>vc_state := Paused\<rparr>\<rparr>"
  let ?d1 = "d\<lparr>whp_vms := (whp_vms d)(h_name h \<mapsto> ?vm), whp_machine := w1\<rparr>"
  have pause: "whp_pause h d = (Ok (), ?d1)" "whp_state h ?d1 = (Ok Paused, ?d1)"
    using assms(1-4) j vm1(4) by (simp_all add: whp_pause_def whp_state_def update_state_def Let_def)
  obtain u1 u2 where spawn: "wa_spawn (wh_api w1) (wh_calls w1) = Ok u1"
      "wa_log_create (wh_api w1) (Suc (wh_calls w1)) = Ok u2"
    using assms(5) [of "wh_calls w1"] assms(6) [of "Suc (wh_calls w1)"] api by (auto simp: is_ok_def split: result.splits)
  let ?w2 = "wh_record [SpawnVcpu (wv_partition vm)] (wh_tick w1)"
  have tick: "wh_api ?w2 = wh_api w1" "wh_calls ?w2 = Suc (wh_calls w1)" by (simp_all add: wh_tick_def wh_record_def)
  let ?vm2 = "?vm\<lparr>wv_stop_flag := False, wv_thread := True, wv_resume_state := None,
    wv_vcpu := (wv_vcpu vm1)\<lparr>vc_buffer := [], vc_log := [], vc_looping := True, vc_state := vc_state (wv_vcpu vm)\<rparr>\<rparr>"
  let ?d2 = "d\<lparr>whp_vms := (whp_vms d)(h_name h \<mapsto> ?vm2), whp_machine := wh_tick ?w2\<rparr>"
  have "whp_resume h ?d1 = (Ok (), ?d2)"
    using assms(2) vm1 spawn tick by (simp add: whp_resume_def vcpu_start_def update_state_def Let_def)
  moreover have "whp_state h ?d2 = (Ok (vc_state (wv_vcpu vm)), ?d2)"
    using assms(2) vm1 by (simp add: whp_state_def)
  ultimately show ?thesis
    using pause vm1 by (intro exI [of _ ?d1] exI [of _ ?d2] exI [of _ ?vm2]) simp
qed

theorem whp_pause_resume_witness:
  "\<exists>d1 d2. whp_pause win_handle whp_running = (Ok (), d1) \<and> whp_resume win_handle d1 = (Ok (), d2)
    \<and> whp_state win_handle d2 = (Ok Running, d2)"
  using whp_pause_resume [of whp_running win_handle idle_vm]
  by (fastforce simp: whp_running_def whp_new_def win_handle_def idle_vm_def idle_vcpu_def test_api_def)

end
