(* ===== verification/Apple_Vz.thy ===== *)
theory Apple_Vz
  imports Driver Ready
begin

text \<open>
  \<open>src/driver/apple_vz.rs\<close> with the parts of \<open>src/ffi/apple_vz\<close> it uses: the macOS driver, which
  runs the guest in-process through Apple's Virtualization framework.  The framework and the
  machine below are an oracle: the call of number \<open>i\<close> is answered by a field of \<open>vz_api\<close>.  A block
  dispatched to the VM's queue either calls its completion handler before \<open>recv_timeout\<close> gives
  up or does not; \<open>vz_log\<close> records the machines created and what was asked of them.  The
  random MAC addresses are answers of the oracle too.
\<close>

section \<open>Framework objects\<close>

datatype VZVirtualMachineState = VZStopped | VZRunning | VZPaused | VZError | VZStarting
  | VZPausing | VZResuming | VZOther

definition native_state :: "int \<Rightarrow> VZVirtualMachineState" where
  "native_state n =
     (if n = 0 then VZStopped else if n = 1 then VZRunning else if n = 2 then VZPaused
      else if n = 3 then VZError else if n = 4 then VZStarting else if n = 5 then VZPausing
      else if n = 6 then VZResuming else VZOther)"

datatype VZDiskImageCachingMode = CacheAutomatic | Uncached | Cached
datatype VZDiskImageSynchronizationMode = SyncFull | SyncNone

record DiskAttachment =
  da_path :: string
  da_read_only :: bool
  da_caching_mode :: "VZDiskImageCachingMode option"
  da_sync_mode :: "VZDiskImageSynchronizationMode option"

text \<open>What \<open>build\<close> passes on: both modes as soon as one is set.\<close>

definition disk_modes ::
  "DiskAttachment \<Rightarrow> (VZDiskImageCachingMode \<times> VZDiskImageSynchronizationMode) option" where
  "disk_modes a =
     (if da_caching_mode a \<noteq> None \<or> da_sync_mode a \<noteq> None
      then Some (case da_caching_mode a of Some m \<Rightarrow> m | None \<Rightarrow> CacheAutomatic,
                 case da_sync_mode a of Some m \<Rightarrow> m | None \<Rightarrow> SyncFull)
      else None)"

datatype VzNic = NatNic string | FileHandleNic int string

record VzShare =
  sh_tag :: string
  sh_directory :: string
  sh_read_only :: bool

record VZVirtualMachineConfiguration =
  vc_kernel_url :: string
  vc_initial_ramdisk_url :: string
  vc_command_line :: string
  vc_cpu_count :: usize
  vc_memory_size :: usize
  vc_entropy_devices :: nat
  vc_balloon_devices :: nat
  vc_network_devices :: "VzNic list"
  vc_serial_ports :: "path list"
  vc_storage_devices :: "DiskAttachment list"
  vc_directory_sharing_devices :: "VzShare list"

section \<open>The machine below the driver\<close>

datatype completion = Completed | Errored string | NoAnswer

record vz_api =
  va_supported :: "nat \<Rightarrow> bool"
  va_fs :: "nat \<Rightarrow> fs"
  va_canonicalize :: "nat \<Rightarrow> path \<Rightarrow> (path, io_error) result"
  va_create :: "nat \<Rightarrow> path \<Rightarrow> (unit, io_error) result"
  va_open :: "nat \<Rightarrow> path \<Rightarrow> (unit, io_error) result"
  va_dup :: "nat \<Rightarrow> int \<Rightarrow> int \<times> io_error"
  va_mac :: "nat \<Rightarrow> string"
  va_attach :: "nat \<Rightarrow> DiskAttachment \<Rightarrow> int option"
  va_validate :: "nat \<Rightarrow> VZVirtualMachineConfiguration \<Rightarrow> int option"
  va_start :: "nat \<Rightarrow> nat \<Rightarrow> completion"
  va_request_stop :: "nat \<Rightarrow> nat \<Rightarrow> completion"
  va_state :: "nat \<Rightarrow> nat \<Rightarrow> int"

datatype vz_call =
    CreateVm nat VZVirtualMachineConfiguration string
  | StartVm nat
  | RequestStop nat

record vz_host =
  vz_api :: vz_api
  vz_calls :: nat
  vz_log :: "vz_call list"

record RegisteredVm =
  rv_vm :: nat
  rv_queue :: string
  rv_ready :: ReadyMarkerCache

record AppleVzDriver =
  vz_vms :: "string \<rightharpoonup> RegisteredVm"
  vz_poisoned :: bool
  vz_machine :: vz_host

type_synonym 'a vz = "vz_host \<Rightarrow> ('a, VmError) result \<times> vz_host"

definition vz_lock_error :: VmError where
  "vz_lock_error = Hypervisor (''VM registry lock poisoned: '' @ poison_text)"

definition vz_tick :: "vz_host \<Rightarrow> vz_host" where
  "vz_tick w = w\<lparr>vz_calls := Suc (vz_calls w)\<rparr>"

definition vz_record :: "vz_call list \<Rightarrow> vz_host \<Rightarrow> vz_host" where
  "vz_record cs w = w\<lparr>vz_log := vz_log w @ cs\<rparr>"

text \<open>One call of the machine: its answer, and an error built from a failed one.\<close>

definition vz_ask :: "(vz_api \<Rightarrow> nat \<Rightarrow> 'a) \<Rightarrow> vz_host \<Rightarrow> 'a \<times> vz_host" where
  "vz_ask f w = (f (vz_api w) (vz_calls w), vz_tick w)"

definition vz_try :: "(vz_api \<Rightarrow> nat \<Rightarrow> ('a, 'e) result) \<Rightarrow> ('e \<Rightarrow> VmError) \<Rightarrow> 'a vz" where
  "vz_try f err w = (let (r, w) = vz_ask f w in (map_err err r, w))"

section \<open>Mapping states\<close>

fun map_native_state :: "VZVirtualMachineState \<Rightarrow> string option \<Rightarrow> VmState" where
  "map_native_state VZRunning (Some ip) = Ready ip"
| "map_native_state VZRunning None = Running"
| "map_native_state VZPaused _ = Paused"
| "map_native_state VZPausing _ = Paused"
| "map_native_state VZResuming _ = Paused"
| "map_native_state VZStarting _ = Starting"
| "map_native_state VZStopped _ = Stopped"
| "map_native_state VZError _ =
     Failed ''Apple Virtualization.framework reported an internal error''"
| "map_native_state VZOther _ =
     Failed ''Apple Virtualization.framework reported an unknown VM state''"

definition vz_vm_state :: "nat \<Rightarrow> string option \<Rightarrow> vz_host \<Rightarrow> VmState \<times> vz_host" where
  "vz_vm_state vm ready_ip w =
     (let (n, w) = vz_ask (\<lambda>a i. va_state a i vm) w in (map_native_state (native_state n) ready_ip, w))"

section \<open>Boot\<close>

definition resolve_path :: "path \<Rightarrow> string \<Rightarrow> string vz" where
  "resolve_path p label w =
     (let (found, w) = vz_ask (\<lambda>a i. fs_exists (va_fs a i) p) w in
      if \<not> found then (Err (InvalidConfig (label @ '' not found: '' @ display_path p)), w)
      else st_then (vz_try (\<lambda>a i. va_canonicalize a i p) Io)
        (\<lambda>q. case path_to_str q of
               None \<Rightarrow> st_fail (InvalidConfig (''non-UTF8 '' @ label @ '' path''))
             | Some s \<Rightarrow> st_ok s) w)"

definition resolve_opt :: "path option \<Rightarrow> string \<Rightarrow> string option vz" where
  "resolve_opt p label = (case p of None \<Rightarrow> st_ok None
     | Some q \<Rightarrow> st_then (resolve_path q label) (\<lambda>s. st_ok (Some s)))"

definition vz_cmdline :: "VmConfig \<Rightarrow> string option \<Rightarrow> string" where
  "vz_cmdline c disk_abs =
     (case cfg_cmdline c of Some s \<Rightarrow> s
      | None \<Rightarrow> if disk_abs \<noteq> None then ''console=hvc0 root=/dev/vda1 rw ds=nocloud''
                else ''console=hvc0'')"

text \<open>The loop over the networks, one device each.\<close>

fun vz_network :: "NetworkAttachment \<Rightarrow> VzNic vz" where
  "vz_network (SocketPairFd ep) =
     st_then (vz_try (\<lambda>a i. try_clone_owned (va_dup a i) ep) Io)
       (\<lambda>fd w. let (mac, w) = vz_ask va_mac w in (Ok (FileHandleNic fd mac), w))"
| "vz_network (Tap _ _) =
     st_fail (InvalidConfig ''TAP devices are not supported on macOS; use SocketPairFd'')"

definition int_to_str :: "int \<Rightarrow> string" where
  "int_to_str n = (if n < 0 then ''-'' @ nat_to_str (nat (- n)) else nat_to_str (nat n))"

definition attach_disk :: "string \<Rightarrow> string \<Rightarrow> DiskAttachment \<Rightarrow> DiskAttachment vz" where
  "attach_disk name what a =
     vz_try (\<lambda>api i. case va_attach api i a of None \<Rightarrow> Ok a | Some n \<Rightarrow> Err n)
       (\<lambda>n. BootFailed name (''failed to attach '' @ what @ '': code '' @ int_to_str n))"

definition vz_storage :: "string \<Rightarrow> string option \<Rightarrow> string option \<Rightarrow> DiskAttachment list vz" where
  "vz_storage name disk_abs seed_abs =
     st_then (case disk_abs of None \<Rightarrow> st_ok []
       | Some p \<Rightarrow> st_then (attach_disk name ''root disk'' \<lparr>da_path = p, da_read_only = False,
             da_caching_mode = Some CacheAutomatic, da_sync_mode = Some SyncFull\<rparr>)
           (\<lambda>a. st_ok [a]))
       (\<lambda>roots. st_then (case seed_abs of None \<Rightarrow> st_ok []
          | Some p \<Rightarrow> st_then (attach_disk name ''seed ISO'' \<lparr>da_path = p, da_read_only = True,
                da_caching_mode = None, da_sync_mode = None\<rparr>)
              (\<lambda>a. st_ok [a]))
          (\<lambda>seeds. st_ok (roots @ seeds)))"

definition vz_share :: "SharedDir \<Rightarrow> VzShare vz" where
  "vz_share vol = (case path_to_str (sd_host_path vol) of
     None \<Rightarrow> st_fail (InvalidConfig ''non-UTF8 shared dir path'')
   | Some host_str \<Rightarrow> st_ok \<lparr>sh_tag = sd_tag vol, sh_directory = host_str, sh_read_only = sd_read_only vol\<rparr>)"

text \<open>From the paths to the validated configuration.  \<open>memory_mb * 1024 * 1024\<close> wraps, as it does in
  a release build.\<close>

definition vz_configure :: "VmConfig \<Rightarrow> VZVirtualMachineConfiguration vz" where
  "vz_configure c =
     st_then (resolve_path (cfg_kernel c) ''kernel'') (\<lambda>kernel_abs.
     st_then (resolve_opt (cfg_initramfs c) ''initramfs'') (\<lambda>initrd_abs.
     st_then (resolve_opt (cfg_root_disk c) ''root disk'') (\<lambda>disk_abs.
     st_then (resolve_opt (cfg_seed_iso c) ''seed ISO'') (\<lambda>seed_abs.
     case initrd_abs of
       None \<Rightarrow> st_fail (InvalidConfig ''initramfs is required for Apple VZ boot'')
     | Some initrd \<Rightarrow>
       st_then (vz_try (\<lambda>a i. va_create a i (cfg_serial_log c)) Io) (\<lambda>_.
       st_then (vz_try (\<lambda>a i. va_open a i (path_of ''/dev/null'')) Io) (\<lambda>_.
       st_then (\<lambda>w. let (mac, w) = vz_ask va_mac w in (Ok (NatNic mac), w)) (\<lambda>nat_nic.
       st_then (st_traverse vz_network (cfg_networks c)) (\<lambda>nics.
       st_then (vz_storage (cfg_name c) disk_abs seed_abs) (\<lambda>storage_devices.
       st_then (st_traverse vz_share (cfg_shared_dirs c)) (\<lambda>shared_dirs.
       let conf = \<lparr>vc_kernel_url = kernel_abs, vc_initial_ramdisk_url = initrd,
             vc_command_line = vz_cmdline c disk_abs, vc_cpu_count = cfg_cpus c,
             vc_memory_size = cfg_memory_mb c * 1024 * 1024, vc_entropy_devices = 1,
             vc_balloon_devices = 1, vc_network_devices = nat_nic # nics,
             vc_serial_ports = [cfg_serial_log c], vc_storage_devices = storage_devices,
             vc_directory_sharing_devices = shared_dirs\<rparr>
       in vz_try (\<lambda>a i. case va_validate a i conf of None \<Rightarrow> Ok conf | Some n \<Rightarrow> Err n)
            (\<lambda>n. BootFailed (cfg_name c) (''VZ configuration validation failed: code '' @ int_to_str n
               @ ''. Hint: the binary must be signed with virtualization entitlement''))))))))))))"

text \<open>\<open>CString::new\<close> fails at the first zero byte of the label.\<close>

definition queue_label :: "string \<Rightarrow> (string, VmError) result" where
  "queue_label name =
     (let label = ''rs.vm.'' @ name; pos = length (takeWhile (\<lambda>ch. ch \<noteq> CHR 0x00) label) in
      if pos < length label
      then Err (BootFailed name (''invalid VM name for queue label: nul byte found in provided ''
             @ ''data at position: '' @ nat_to_str pos))
      else Ok label)"

definition vz_start ::
  "VmConfig \<Rightarrow> VZVirtualMachineConfiguration \<Rightarrow> string \<Rightarrow> AppleVzDriver \<Rightarrow> vz_host
     \<Rightarrow> (VmHandle, VmError) result \<times> AppleVzDriver" where
  "vz_start c conf label d w =
     (let name = cfg_name c; vm = vz_calls w;
          w = vz_record [CreateVm vm conf label] (vz_tick w) in
      if vz_poisoned d then (Err vz_lock_error, d\<lparr>vz_machine := w\<rparr>)
      else (let vms = (vz_vms d)(name \<mapsto> \<lparr>rv_vm = vm, rv_queue = label, rv_ready = empty_cache\<rparr>);
                (answer, w) = vz_ask (\<lambda>a i. va_start a i vm) (vz_record [StartVm vm] w) in
        case answer of
          Completed \<Rightarrow>
            (Ok \<lparr>h_name = name, h_namespace = cfg_namespace c, h_state = Starting, h_process = None,
                 h_serial_log = cfg_serial_log c, h_machine_id = None\<rparr>,
             d\<lparr>vz_vms := vms, vz_machine := w\<rparr>)
        | Errored msg \<Rightarrow>
            (Err (BootFailed name (''Apple VZ start failed: '' @ msg)),
             d\<lparr>vz_vms := vms(name := None), vz_machine := w\<rparr>)
        | NoAnswer \<Rightarrow>
            (Err (BootFailed name ''Apple VZ start completion handler did not fire within 10 seconds''),
             d\<lparr>vz_vms := vms(name := None), vz_machine := w\<rparr>)))"

definition vz_boot :: "VmConfig \<Rightarrow> AppleVzDriver \<Rightarrow> (VmHandle, VmError) result \<times> AppleVzDriver" where
  "vz_boot c d =
     (let (supported, w) = vz_ask va_supported (vz_machine d) in
      if \<not> supported
      then (Err (Hypervisor ''Apple Virtualization.framework is not supported on this machine''),
            d\<lparr>vz_machine := w\<rparr>)
      else (case vz_configure c w of
        (Err e, w) \<Rightarrow> (Err e, d\<lparr>vz_machine := w\<rparr>)
      | (Ok conf, w) \<Rightarrow>
        (case queue_label (cfg_name c) of
           Err e \<Rightarrow> (Err e, d\<lparr>vz_machine := w\<rparr>)
         | Ok label \<Rightarrow> vz_start c conf label d w)))"

section \<open>Stop, kill and state\<close>

text \<open>The wait of \<open>stop\<close>: polls until the deadline; the answer is the final state, if one is seen.\<close>

fun stop_polls :: "nat \<Rightarrow> nat \<Rightarrow> path \<Rightarrow> vz_host \<Rightarrow> VmState option \<times> vz_host" where
  "stop_polls 0 vm log w = (None, w)"
| "stop_polls (Suc n) vm log w =
     (let (ready_ip, w) = vz_ask (\<lambda>a i. check_ready_marker log (va_fs a i)) w;
          (s, w) = vz_vm_state vm ready_ip w in
      case s of Stopped \<Rightarrow> (Some Stopped, w)
      | Failed reason \<Rightarrow> (Some (Failed reason), w)
      | _ \<Rightarrow> stop_polls n vm log w)"

definition vz_stop :: "VmHandle \<Rightarrow> AppleVzDriver \<Rightarrow> (unit, VmError) result \<times> AppleVzDriver" where
  "vz_stop h d =
     (if vz_poisoned d then (Err vz_lock_error, d)
      else (case vz_vms d (h_name h) of None \<Rightarrow> (Err (NotFound (h_name h)), d)
      | Some entry \<Rightarrow>
        (let (answer, w) = vz_ask (\<lambda>a i. va_request_stop a i (rv_vm entry))
               (vz_record [RequestStop (rv_vm entry)] (vz_machine d)) in
         case answer of
           Errored msg \<Rightarrow> (Err (StopFailed (h_name h) msg), d\<lparr>vz_machine := w\<rparr>)
         | NoAnswer \<Rightarrow> (Err (StopFailed (h_name h) ''timed out sending stop request to dispatch queue''),
                        d\<lparr>vz_machine := w\<rparr>)
         | Completed \<Rightarrow>
           (let (final, w) = stop_polls (polls 10000 200) (rv_vm entry) (h_serial_log h) w in
            case final of
              Some (Failed reason) \<Rightarrow>
                (Err (StopFailed (h_name h) reason),
                 d\<lparr>vz_machine := w, vz_vms := (vz_vms d)(h_name h := None)\<rparr>)
            | Some _ \<Rightarrow> (Ok (), d\<lparr>vz_machine := w, vz_vms := (vz_vms d)(h_name h := None)\<rparr>)
            | None \<Rightarrow> (Err (StopFailed (h_name h) ''timed out waiting for Apple VZ VM to stop''),
                       d\<lparr>vz_machine := w\<rparr>)))))"

definition vz_kill :: "VmHandle \<Rightarrow> AppleVzDriver \<Rightarrow> (unit, VmError) result \<times> AppleVzDriver" where
  "vz_kill h d = vz_stop h d"

text \<open>The log grows between the open and the read of \<open>scan\<close>.\<close>

definition vz_scan :: "path \<Rightarrow> ReadyMarkerCache \<Rightarrow> vz_host \<Rightarrow> (string option \<times> ReadyMarkerCache) \<times> vz_host" where
  "vz_scan log cache w =
     (let (fs, w) = vz_ask va_fs w; (fs', w) = vz_ask va_fs w;
          seen = (case fs_files fs' log of None \<Rightarrow> [] | Some b \<Rightarrow> b)
      in (scan log fs seen cache, w))"

definition vz_state :: "VmHandle \<Rightarrow> AppleVzDriver \<Rightarrow> (VmState, VmError) result \<times> AppleVzDriver" where
  "vz_state h d =
     (if vz_poisoned d then (Err vz_lock_error, d)
      else (case vz_vms d (h_name h) of None \<Rightarrow> (Ok Stopped, d)
      | Some entry \<Rightarrow>
        (let ((ready_ip, cache), w) = vz_scan (h_serial_log h) (rv_ready entry) (vz_machine d);
             (s, w) = vz_vm_state (rv_vm entry) ready_ip w
         in (Ok s, d\<lparr>vz_machine := w,
               vz_vms := (vz_vms d)(h_name h \<mapsto> entry\<lparr>rv_ready := cache\<rparr>)\<rparr>))))"

definition apple_vz_driver :: "AppleVzDriver VmDriver" where
  "apple_vz_driver = \<lparr>drv_boot = vz_boot, drv_stop = vz_stop, drv_kill = vz_kill,
     drv_state = vz_state, drv_pause = default_pause, drv_resume = default_resume\<rparr>"

section \<open>What configuring does\<close>

text \<open>Asking the machine moves its call number on and leaves the record of calls alone.\<close>

definition vz_since :: "vz_host \<Rightarrow> vz_host \<Rightarrow> bool" where
  "vz_since w w' \<longleftrightarrow> vz_log w' = vz_log w \<and> vz_api w' = vz_api w \<and> vz_calls w \<le> vz_calls w'"

lemma vz_since_ask [simp]: "vz_since w w1 \<Longrightarrow> vz_since w (snd (vz_ask f w1))"
  by (simp add: vz_since_def vz_ask_def vz_tick_def)

lemma vz_since_refl [simp]: "vz_since w w"
  by (simp add: vz_since_def)

lemma keeps_vz_try [intro!]: "keeps (vz_since w) (vz_try f err)"
  by (simp add: keeps_def vz_try_def split_beta Let_def)

lemma keeps_vz_mac [intro!]: "keeps (vz_since w) (\<lambda>w. case vz_ask f w of (x, w') \<Rightarrow> (g x, w'))"
  by (simp add: keeps_def split_beta)

lemma keeps_resolve_path [intro!]: "keeps (vz_since w) (resolve_path p label)"
proof (rule keepsI)
  fix s assume "vz_since w s"
  then have s: "vz_since w (snd (vz_ask (\<lambda>a i. fs_exists (va_fs a i) p) s))" by simp
  have "keeps (vz_since w) (st_then (vz_try (\<lambda>a i. va_canonicalize a i p) Io)
      (\<lambda>q. case path_to_str q of
             None \<Rightarrow> st_fail (InvalidConfig (''non-UTF8 '' @ label @ '' path''))
           | Some t \<Rightarrow> st_ok t))"
    by (auto split: option.split)
  from s this show "vz_since w (snd (resolve_path p label s))"
    by (auto simp: resolve_path_def split_beta Let_def keeps_def)
qed

lemma keeps_resolve_opt [intro!]: "keeps (vz_since w) (resolve_opt p label)"
  by (auto simp: resolve_opt_def split: option.split)

lemma keeps_vz_network [intro!]: "keeps (vz_since w) (vz_network n)"
  by (cases n) auto

lemma keeps_vz_share [intro!]: "keeps (vz_since w) (vz_share v)"
  by (auto simp: vz_share_def split: option.split)

lemma keeps_vz_storage [intro!]: "keeps (vz_since w) (vz_storage name disk seed)"
  by (auto simp: vz_storage_def attach_disk_def split: option.split)

lemma keeps_vz_configure: "keeps (vz_since w) (vz_configure c)"
  unfolding vz_configure_def Let_def by (auto split: option.split)

text \<open>What the machine answered during a run of calls: the name a path resolves to, and the network
  device for an attachment, on a duplicate of its own descriptor.\<close>

definition resolved :: "vz_api \<Rightarrow> nat set \<Rightarrow> path \<Rightarrow> string \<Rightarrow> bool" where
  "resolved api calls p s \<longleftrightarrow> (\<exists>i\<in>calls. \<exists>q. va_canonicalize api i p = Ok q \<and> path_to_str q = Some s)"

definition card_for :: "vz_api \<Rightarrow> nat set \<Rightarrow> NetworkAttachment \<Rightarrow> VzNic \<Rightarrow> bool" where
  "card_for api calls net nic \<longleftrightarrow> (\<exists>ep fd. \<exists>i\<in>calls. \<exists>j\<in>calls. net = SocketPairFd ep
     \<and> try_clone_owned (va_dup api i) ep = Ok fd \<and> nic = FileHandleNic fd (va_mac api j))"

text \<open>The disks a VM asks for: path, read-only, modes.  A data disk is not among them.\<close>

definition wanted_disks ::
  "VmConfig \<Rightarrow> (path \<times> bool \<times> (VZDiskImageCachingMode \<times> VZDiskImageSynchronizationMode) option) list" where
  "wanted_disks c =
     (case cfg_root_disk c of Some p \<Rightarrow> [(p, False, Some (CacheAutomatic, SyncFull))] | None \<Rightarrow> [])
     @ (case cfg_seed_iso c of Some p \<Rightarrow> [(p, True, None)] | None \<Rightarrow> [])"

definition disk_for ::
  "vz_api \<Rightarrow> nat set \<Rightarrow> path \<times> bool \<times> (VZDiskImageCachingMode \<times> VZDiskImageSynchronizationMode) option
     \<Rightarrow> DiskAttachment \<Rightarrow> bool" where
  "disk_for api calls = (\<lambda>(p, read_only, modes) a.
     resolved api calls p (da_path a) \<and> da_read_only a = read_only \<and> disk_modes a = modes)"

text \<open>The configuration a VM gets.\<close>

definition configured :: "vz_api \<Rightarrow> nat set \<Rightarrow> VmConfig \<Rightarrow> VZVirtualMachineConfiguration \<Rightarrow> bool" where
  "configured api calls c conf \<longleftrightarrow>
     resolved api calls (cfg_kernel c) (vc_kernel_url conf)
     \<and> (\<exists>p. cfg_initramfs c = Some p \<and> resolved api calls p (vc_initial_ramdisk_url conf))
     \<and> vc_command_line conf = vz_cmdline c (map_option (\<lambda>_. []) (cfg_root_disk c))
     \<and> vc_cpu_count conf = cfg_cpus c \<and> vc_memory_size conf = cfg_memory_mb c * 1024 * 1024
     \<and> vc_entropy_devices conf = 1 \<and> vc_balloon_devices conf = 1
     \<and> vc_serial_ports conf = [cfg_serial_log c]
     \<and> (\<exists>i\<in>calls. \<exists>nics. vc_network_devices conf = NatNic (va_mac api i) # nics
          \<and> list_all2 (card_for api calls) (cfg_networks c) nics)
     \<and> list_all2 (disk_for api calls) (wanted_disks c) (vc_storage_devices conf)
     \<and> map (\<lambda>s. (sh_tag s, Some (sh_directory s), sh_read_only s)) (vc_directory_sharing_devices conf) =
         map (\<lambda>v. (sd_tag v, path_to_str (sd_host_path v), sd_read_only v)) (cfg_shared_dirs c)"

abbreviation asked :: "vz_host \<Rightarrow> vz_host \<Rightarrow> nat set" where
  "asked w w' \<equiv> {vz_calls w ..< vz_calls w'}"

lemma resolved_mono: "resolved api A p s \<Longrightarrow> A \<subseteq> B \<Longrightarrow> resolved api B p s"
  by (auto simp: resolved_def)

lemma card_for_mono: "card_for api A net nic \<Longrightarrow> A \<subseteq> B \<Longrightarrow> card_for api B net nic"
  unfolding card_for_def by blast

lemma disk_for_mono: "disk_for api A d a \<Longrightarrow> A \<subseteq> B \<Longrightarrow> disk_for api B d a"
  by (auto simp: disk_for_def intro: resolved_mono)

lemma configured_mono:
  assumes "configured api A c conf" "A \<subseteq> B"
  shows "configured api B c conf"
proof -
  have "list_all2 (card_for api B) nets nics" if "list_all2 (card_for api A) nets nics" for nets nics
    using that card_for_mono [OF _ assms(2)] by (rule list_all2_mono)
  moreover have "list_all2 (disk_for api B) xs ys" if "list_all2 (disk_for api A) xs ys" for xs ys
    using that disk_for_mono [OF _ assms(2)] by (rule list_all2_mono)
  ultimately show ?thesis
    using assms resolved_mono [OF _ assms(2)] unfolding configured_def by blast
qed

lemma vz_since_trans [trans]: "vz_since w w1 \<Longrightarrow> vz_since w1 w2 \<Longrightarrow> vz_since w w2"
  by (simp add: vz_since_def)

lemma asked_mono: "vz_since w a \<Longrightarrow> vz_since b w' \<Longrightarrow> asked a b \<subseteq> asked w w'"
  by (auto simp: vz_since_def)

lemma st_traverse_Ok:
  assumes "\<And>x w. keeps (vz_since w) (f x)" "st_traverse f xs s = (Ok ys, s')"
  shows "list_all2 (\<lambda>x y. \<exists>a b. vz_since s a \<and> vz_since b s' \<and> f x a = (Ok y, b)) xs ys"
  using assms(2)
proof (induction xs arbitrary: ys s)
  case (Cons x xs)
  then obtain y ys' s1 where r: "f x s = (Ok y, s1)" "st_traverse f xs s1 = (Ok ys', s')" "ys = y # ys'"
    by (auto simp: st_then_Ok_iff)
  have s1: "vz_since s s1" using keepsD [OF assms(1) r(1) vz_since_refl] .
  have "vz_since s1 s'" using keepsD [of "vz_since s1", OF keeps_traverse r(2) vz_since_refl] assms(1) by blast
  moreover have "list_all2 (\<lambda>x y. \<exists>a b. vz_since s a \<and> vz_since b s' \<and> f x a = (Ok y, b)) xs ys'"
    using Cons.IH [OF r(2)] by (rule list_all2_mono) (blast intro: vz_since_trans [OF s1])
  ultimately show ?case using r(1,3) vz_since_refl [of s] by (simp, blast)
qed simp

lemma resolve_path_Ok:
  "resolve_path p label w = (Ok s, w') \<Longrightarrow> resolved (vz_api w) (asked w w') p s"
  by (auto simp: resolve_path_def st_then_Ok_iff vz_try_def vz_ask_def vz_tick_def resolved_def Let_def
      split: if_splits option.splits)
    (metis atLeastLessThan_iff le_SucI lessI order_refl)

lemma resolve_opt_Ok:
  "resolve_opt p label w = (Ok r, w') \<Longrightarrow>
     (case p of None \<Rightarrow> r = None | Some q \<Rightarrow> \<exists>s. r = Some s \<and> resolved (vz_api w) (asked w w') q s)"
  by (auto simp: resolve_opt_def st_then_Ok_iff dest: resolve_path_Ok split: option.splits)

lemma vz_network_Ok:
  "vz_network n w = (Ok nic, w') \<Longrightarrow> card_for (vz_api w) (asked w w') n nic"
  by (cases n) (auto simp: st_then_Ok_iff vz_try_def vz_ask_def vz_tick_def card_for_def Let_def
      split: prod.splits, (metis atLeastLessThan_iff le_SucI lessI less_SucI order_refl)+)

lemma vz_storage_Ok:
  assumes "vz_storage name disk seed w = (Ok ds, w')"
    and "case cfg_root_disk c of None \<Rightarrow> disk = None | Some q \<Rightarrow> \<exists>s. disk = Some s \<and> resolved api A q s"
    and "case cfg_seed_iso c of None \<Rightarrow> seed = None | Some q \<Rightarrow> \<exists>s. seed = Some s \<and> resolved api A q s"
  shows "list_all2 (disk_for api A) (wanted_disks c) ds"
  using assms
  by (auto simp: vz_storage_def attach_disk_def st_then_Ok_iff vz_try_def vz_ask_def Let_def disk_modes_def
      wanted_disks_def disk_for_def split: option.splits)

lemma vz_share_Ok:
  "vz_share v w = (Ok s, w') \<Longrightarrow> (sh_tag s, Some (sh_directory s), sh_read_only s) =
     (sd_tag v, path_to_str (sd_host_path v), sd_read_only v)"
  by (auto simp: vz_share_def split: option.splits)

text \<open>The calls of \<open>vz_configure\<close> in order.\<close>

lemma vz_configure_steps:
  assumes "vz_configure c w = (Ok conf, w')"
  obtains kernel_abs initrd disk_abs seed_abs i nics ds shares w1 w2 w3 w4 w5 w6 w7 w8 w9
    where "resolve_path (cfg_kernel c) ''kernel'' w = (Ok kernel_abs, w1)"
      "resolve_opt (cfg_initramfs c) ''initramfs'' w1 = (Ok (Some initrd), w2)"
      "resolve_opt (cfg_root_disk c) ''root disk'' w2 = (Ok disk_abs, w3)"
      "resolve_opt (cfg_seed_iso c) ''seed ISO'' w3 = (Ok seed_abs, w4)"
      "vz_since w4 w5" "i \<in> asked w4 w5"
      "st_traverse vz_network (cfg_networks c) w5 = (Ok nics, w6)"
      "vz_storage (cfg_name c) disk_abs seed_abs w6 = (Ok ds, w7)"
      "st_traverse vz_share (cfg_shared_dirs c) w7 = (Ok shares, w8)" "vz_since w8 w'"
      "conf = \<lparr>vc_kernel_url = kernel_abs, vc_initial_ramdisk_url = initrd,
             vc_command_line = vz_cmdline c disk_abs, vc_cpu_count = cfg_cpus c,
             vc_memory_size = cfg_memory_mb c * 1024 * 1024, vc_entropy_devices = 1,
             vc_balloon_devices = 1, vc_network_devices = NatNic (va_mac (vz_api w4) i) # nics,
             vc_serial_ports = [cfg_serial_log c], vc_storage_devices = ds,
             vc_directory_sharing_devices = shares\<rparr>"
proof -
  note defs = st_then_Ok_iff vz_try_def vz_ask_def vz_tick_def Let_def
  obtain kernel_abs initrd disk_abs seed_abs w1 w2 w3 w4 nics ds shares w6 w7 w8
    where r: "resolve_path (cfg_kernel c) ''kernel'' w = (Ok kernel_abs, w1)"
      "resolve_opt (cfg_initramfs c) ''initramfs'' w1 = (Ok (Some initrd), w2)"
      "resolve_opt (cfg_root_disk c) ''root disk'' w2 = (Ok disk_abs, w3)"
      "resolve_opt (cfg_seed_iso c) ''seed ISO'' w3 = (Ok seed_abs, w4)"
      "st_traverse vz_network (cfg_networks c) (vz_tick (vz_tick (vz_tick w4))) = (Ok nics, w6)"
      "vz_storage (cfg_name c) disk_abs seed_abs w6 = (Ok ds, w7)"
      "st_traverse vz_share (cfg_shared_dirs c) w7 = (Ok shares, w8)" "w' = vz_tick w8"
      "conf = \<lparr>vc_kernel_url = kernel_abs, vc_initial_ramdisk_url = initrd,
             vc_command_line = vz_cmdline c disk_abs, vc_cpu_count = cfg_cpus c,
             vc_memory_size = cfg_memory_mb c * 1024 * 1024, vc_entropy_devices = 1,
             vc_balloon_devices = 1,
             vc_network_devices = NatNic (va_mac (vz_api w4) (Suc (Suc (vz_calls w4)))) # nics,
             vc_serial_ports = [cfg_serial_log c], vc_storage_devices = ds,
             vc_directory_sharing_devices = shares\<rparr>"
    using assms unfolding vz_configure_def Let_def
    by (auto simp: st_then_Ok_iff vz_try_def vz_ask_def Let_def vz_tick_def split: option.splits)
  show thesis
    by (rule that [OF r(1-4) _ _ r(5-7) _ r(9)]) (simp_all add: vz_since_def vz_tick_def r(8))
qed

lemma vz_configure_Ok:
  assumes "vz_configure c w = (Ok conf, w')"
  shows "configured (vz_api w) (asked w w') c conf"
  using assms
proof (rule vz_configure_steps)
  fix kernel_abs initrd disk_abs seed_abs i nics ds shares w1 w2 w3 w4 w5 w6 w7 w8
  assume r: "resolve_path (cfg_kernel c) ''kernel'' w = (Ok kernel_abs, w1)"
      "resolve_opt (cfg_initramfs c) ''initramfs'' w1 = (Ok (Some initrd), w2)"
      "resolve_opt (cfg_root_disk c) ''root disk'' w2 = (Ok disk_abs, w3)"
      "resolve_opt (cfg_seed_iso c) ''seed ISO'' w3 = (Ok seed_abs, w4)"
      "vz_since w4 w5" "i \<in> asked w4 w5"
      "st_traverse vz_network (cfg_networks c) w5 = (Ok nics, w6)"
      "vz_storage (cfg_name c) disk_abs seed_abs w6 = (Ok ds, w7)"
      "st_traverse vz_share (cfg_shared_dirs c) w7 = (Ok shares, w8)" "vz_since w8 w'"
    and conf: "conf = \<lparr>vc_kernel_url = kernel_abs, vc_initial_ramdisk_url = initrd,
             vc_command_line = vz_cmdline c disk_abs, vc_cpu_count = cfg_cpus c,
             vc_memory_size = cfg_memory_mb c * 1024 * 1024, vc_entropy_devices = 1,
             vc_balloon_devices = 1, vc_network_devices = NatNic (va_mac (vz_api w4) i) # nics,
             vc_serial_ports = [cfg_serial_log c], vc_storage_devices = ds,
             vc_directory_sharing_devices = shares\<rparr>"
  have before: "vz_since w w1" "vz_since w w2" "vz_since w w3" "vz_since w w4" "vz_since w w5"
    using r(1-5) by (meson keepsD keeps_resolve_path keeps_resolve_opt vz_since_refl vz_since_trans)+
  have "vz_since w7 w8" using keepsD [of "vz_since w7", OF keeps_traverse r(9) vz_since_refl] keeps_vz_share by blast
  moreover have "vz_since w6 w7" using keepsD [OF keeps_vz_storage r(8) vz_since_refl] .
  moreover have "vz_since w5 w6" using keepsD [of "vz_since w5", OF keeps_traverse r(7) vz_since_refl] keeps_vz_network by blast
  ultimately have after: "vz_since w6 w'" "vz_since w5 w'" using r(10) vz_since_trans by blast+
  then have mid: "vz_since w4 w'" "vz_since w3 w'" "vz_since w2 w'" "vz_since w1 w'"
    using r(2-5) by (meson keepsD keeps_resolve_opt vz_since_refl vz_since_trans)+
  have api: "vz_api w1 = vz_api w" "vz_api w2 = vz_api w" "vz_api w3 = vz_api w" "vz_api w4 = vz_api w"
    using before by (simp_all add: vz_since_def)
  let ?ok = "\<lambda>p r. case p of None \<Rightarrow> r = None | Some q \<Rightarrow> \<exists>s. r = Some s \<and> resolved (vz_api w) (asked w w') q s"
  have opt: "?ok p r" if "resolve_opt p l a = (Ok r, b)" "vz_since w a" "vz_since b w'" for p r l a b
    using resolve_opt_Ok [OF that(1)] resolved_mono [OF _ asked_mono [OF that(2,3)]] that(2)
    by (auto simp: vz_since_def split: option.splits)
  note paths = opt [OF r(2) before(1) mid(3)] opt [OF r(3) before(2) mid(2)] opt [OF r(4) before(3) mid(1)]
  have "resolved (vz_api w) (asked w w') (cfg_kernel c) kernel_abs"
    using resolved_mono [OF resolve_path_Ok [OF r(1)] asked_mono [OF vz_since_refl mid(4)]] .
  moreover have "list_all2 (card_for (vz_api w) (asked w w')) (cfg_networks c) nics"
    using st_traverse_Ok [OF keeps_vz_network r(7)]
  proof (rule list_all2_mono, elim exE conjE)
    fix n nic a b assume s: "vz_since w5 a" "vz_since b w6" "vz_network n a = (Ok nic, b)"
    then have "vz_since w a" "vz_since b w'" using before(5) after(1) vz_since_trans by blast+
    then show "card_for (vz_api w) (asked w w') n nic"
      using card_for_mono [OF vz_network_Ok [OF s(3)] asked_mono] by (simp add: vz_since_def)
  qed
  moreover have "map (\<lambda>s. (sh_tag s, Some (sh_directory s), sh_read_only s)) shares =
      map (\<lambda>v. (sd_tag v, path_to_str (sd_host_path v), sd_read_only v)) (cfg_shared_dirs c)"
    using st_traverse_Ok [OF keeps_vz_share r(9)] by (induction rule: list_all2_induct) (auto dest: vz_share_Ok)
  moreover have "vz_cmdline c disk_abs = vz_cmdline c (map_option (\<lambda>_. []) (cfg_root_disk c))"
    using paths(2) by (auto simp: vz_cmdline_def split: option.splits)
  moreover have "i \<in> asked w w'" using r(6) asked_mono [OF before(4) after(2)] by blast
  ultimately show ?thesis
    using vz_storage_Ok [OF r(8) paths(2,3)] paths(1)
    by (auto simp: configured_def conf api split: option.splits)
qed


section \<open>The driver contract\<close>

definition vz_entry_ok :: "vz_host \<Rightarrow> string \<Rightarrow> RegisteredVm \<Rightarrow> bool" where
  "vz_entry_ok w n entry \<longleftrightarrow> rv_vm entry < vz_calls w \<and> StartVm (rv_vm entry) \<in> set (vz_log w)
     \<and> rv_queue entry = ''rs.vm.'' @ n
     \<and> (\<exists>conf. CreateVm (rv_vm entry) conf (rv_queue entry) \<in> set (vz_log w))"

text \<open>The driver's invariant: what is registered under a name is a machine the driver created on
  the queue of that name and asked to start, and no two names share a machine.\<close>

definition vz_inv :: "AppleVzDriver \<Rightarrow> bool" where
  "vz_inv d \<longleftrightarrow> (\<forall>n entry. vz_vms d n = Some entry \<longrightarrow> vz_entry_ok (vz_machine d) n entry)
     \<and> (\<forall>n n' e e'. vz_vms d n = Some e \<and> vz_vms d n' = Some e' \<and> rv_vm e = rv_vm e' \<longrightarrow> n = n')"

definition vz_after :: "vz_host \<Rightarrow> vz_host \<Rightarrow> bool" where
  "vz_after w w' \<longleftrightarrow> vz_calls w \<le> vz_calls w' \<and> set (vz_log w) \<subseteq> set (vz_log w')"

lemma vz_entry_after: "vz_entry_ok w n e \<Longrightarrow> vz_after w w' \<Longrightarrow> vz_entry_ok w' n e"
  by (auto simp: vz_entry_ok_def vz_after_def)

lemma vz_after_refl [simp]: "vz_after w w"
  by (simp add: vz_after_def)

lemma vz_after_trans [trans]: "vz_after w w1 \<Longrightarrow> vz_after w1 w2 \<Longrightarrow> vz_after w w2"
  by (auto simp: vz_after_def)

lemma vz_after_ask [simp]: "vz_after w w1 \<Longrightarrow> vz_after w (snd (vz_ask f w1))"
  by (simp add: vz_after_def vz_ask_def vz_tick_def)

lemma vz_after_record [simp]: "vz_after w w1 \<Longrightarrow> vz_after w (vz_record cs w1)"
  by (auto simp: vz_after_def vz_record_def)

lemma vz_after_since: "vz_since w w' \<Longrightarrow> vz_after w w'"
  by (simp add: vz_after_def vz_since_def)

lemma vz_after_vm_state [simp]: "vz_after w w1 \<Longrightarrow> vz_after w (snd (vz_vm_state vm ip w1))"
  by (simp add: vz_vm_state_def split_beta Let_def)

lemma vz_after_stop_polls [simp]: "vz_after w w1 \<Longrightarrow> vz_after w (snd (stop_polls n vm log w1))"
proof (induction n arbitrary: w1)
  case (Suc n)
  then show ?case
    by (simp add: split_beta Let_def split: VmState.split)
qed simp

lemma vz_inv_fewer:
  assumes "vz_inv d" "vz_vms d' \<subseteq>\<^sub>m vz_vms d" "vz_after (vz_machine d) (vz_machine d')"
  shows "vz_inv d'"
proof -
  have sub: "vz_vms d n = Some e" if "vz_vms d' n = Some e" for n e
    using assms(2) that by (auto simp: map_le_def dom_def)
  show ?thesis
    using assms(1,3) unfolding vz_inv_def by (blast dest: sub vz_entry_after)
qed

lemma map_le_delete [simp]: "m(n := None) \<subseteq>\<^sub>m m"
  by (simp add: map_le_def)

lemma vz_stop_frame:
  "vz_vms (snd (vz_stop h d)) \<subseteq>\<^sub>m vz_vms d \<and> vz_after (vz_machine d) (vz_machine (snd (vz_stop h d)))"
  unfolding vz_stop_def Let_def split_beta
  by (simp split: option.split completion.split VmState.split)

lemma vz_inv_stop: "vz_inv d \<Longrightarrow> vz_inv (snd (vz_stop h d))"
  using vz_inv_fewer vz_stop_frame by blast

lemma vz_inv_state:
  assumes "vz_inv d"
  shows "vz_inv (snd (vz_state h d))"
proof (cases "vz_poisoned d \<or> vz_vms d (h_name h) = None")
  case False
  then obtain e where e: "vz_vms d (h_name h) = Some e" "\<not> vz_poisoned d" by auto
  have after: "vz_after (vz_machine d) (vz_machine (snd (vz_state h d)))"
    by (simp add: vz_state_def e vz_scan_def split_beta Let_def)
  obtain cache where vms: "vz_vms (snd (vz_state h d)) = (vz_vms d)(h_name h \<mapsto> e\<lparr>rv_ready := cache\<rparr>)"
    by (simp add: vz_state_def e split_beta Let_def)
  have "vz_entry_ok w n (e\<lparr>rv_ready := cache\<rparr>) = vz_entry_ok w n e" for w n
    by (simp add: vz_entry_ok_def)
  note same = this
  show ?thesis unfolding vz_inv_def
  proof (intro conjI allI impI)
    fix n e' assume "vz_vms (snd (vz_state h d)) n = Some e'"
    then have "vz_entry_ok (vz_machine d) n e'"
      using assms e(1) same by (auto simp: vms vz_inv_def split: if_splits)
    then show "vz_entry_ok (vz_machine (snd (vz_state h d))) n e'" using after by (rule vz_entry_after)
  next
    fix n n' e1 e2
    assume a: "vz_vms (snd (vz_state h d)) n = Some e1 \<and> vz_vms (snd (vz_state h d)) n' = Some e2
      \<and> rv_vm e1 = rv_vm e2"
    then obtain f1 f2 where "vz_vms d n = Some f1" "vz_vms d n' = Some f2" "rv_vm f1 = rv_vm f2"
      using e(1) by (auto simp: vms split: if_splits)
    then show "n = n'" using assms unfolding vz_inv_def by blast
  qed
qed (use assms in \<open>auto simp: vz_state_def\<close>)


lemma queue_label_Ok: "queue_label n = Ok l \<Longrightarrow> l = ''rs.vm.'' @ n"
  by (auto simp: queue_label_def Let_def split: if_splits)

lemma vz_boot_cases:
  assumes "vz_boot c d = (r, d')"
  obtains (early) e w where "r = Err e" "d' = d\<lparr>vz_machine := w\<rparr>" "vz_since (vz_machine d) w"
  | (started) conf w where "vz_start c conf (''rs.vm.'' @ cfg_name c) d w = (r, d')"
      "vz_since (vz_machine d) w"
      "configured (vz_api (vz_machine d)) (asked (vz_machine d) w) c conf"
proof -
  obtain b w0 where a: "vz_ask va_supported (vz_machine d) = (b, w0)" by force
  have w0: "vz_since (vz_machine d) w0" using vz_since_ask [of "vz_machine d" "vz_machine d" va_supported] a by simp
  obtain x w1 where x: "vz_configure c w0 = (x, w1)" by force
  have w1: "vz_since (vz_machine d) w1" using keepsD [OF keeps_vz_configure x w0] .
  show thesis
  proof (cases "b \<and> is_ok x \<and> is_ok (queue_label (cfg_name c))")
    case True
    then obtain conf label where "b" "x = Ok conf" "queue_label (cfg_name c) = Ok label"
      by (auto simp: is_ok_iff)
    moreover have "configured (vz_api (vz_machine d)) (asked (vz_machine d) w1) c conf"
      using vz_configure_Ok [of c w0 conf w1] configured_mono [OF _ asked_mono [OF w0 vz_since_refl]] x w0
        \<open>x = Ok conf\<close> by (simp add: vz_since_def)
    ultimately show thesis
      using started w1 x assms a queue_label_Ok by (auto simp: vz_boot_def)
  next
    case False
    then show thesis
      using early w0 w1 assms a x by (auto simp: vz_boot_def not_is_ok_iff split: if_splits result.splits)
  qed
qed

text \<open>What starting a machine does on each answer; \<open>vm\<close> is its new identity.\<close>

lemma vz_start_cases:
  assumes "vz_start c conf label d w = (r, d')"
  obtains (locked) "vz_poisoned d" "r = Err vz_lock_error" "vz_vms d' = vz_vms d"
      "vz_log (vz_machine d') = vz_log w @ [CreateVm (vz_calls w) conf label]"
  | (booted) "\<not> vz_poisoned d" "va_start (vz_api w) (Suc (vz_calls w)) (vz_calls w) = Completed"
      "r = Ok \<lparr>h_name = cfg_name c, h_namespace = cfg_namespace c, h_state = Starting,
         h_process = None, h_serial_log = cfg_serial_log c, h_machine_id = None\<rparr>"
      "vz_vms d' = (vz_vms d)(cfg_name c \<mapsto> \<lparr>rv_vm = vz_calls w, rv_queue = label, rv_ready = empty_cache\<rparr>)"
      "vz_log (vz_machine d') = vz_log w @ [CreateVm (vz_calls w) conf label, StartVm (vz_calls w)]"
  | (failed) e where "\<not> vz_poisoned d" "va_start (vz_api w) (Suc (vz_calls w)) (vz_calls w) \<noteq> Completed"
      "r = Err e" "vz_vms d' = (vz_vms d)(cfg_name c := None)"
      "vz_log (vz_machine d') = vz_log w @ [CreateVm (vz_calls w) conf label, StartVm (vz_calls w)]"
proof (cases "vz_poisoned d")
  case True
  then show thesis
    using locked assms by (auto simp: vz_start_def Let_def vz_record_def vz_tick_def)
next
  case False
  have ask: "vz_ask (\<lambda>a i. va_start a i (vz_calls w)) (vz_record [StartVm (vz_calls w)] (vz_record [CreateVm (vz_calls w) conf label] (vz_tick w)))
      = (va_start (vz_api w) (Suc (vz_calls w)) (vz_calls w),
         vz_tick (vz_record [StartVm (vz_calls w)] (vz_record [CreateVm (vz_calls w) conf label] (vz_tick w))))"
    by (simp add: vz_ask_def vz_record_def vz_tick_def)
  show thesis
    using assms(1) False unfolding vz_start_def Let_def ask
    by (cases "va_start (vz_api w) (Suc (vz_calls w)) (vz_calls w)")
      (auto simp: vz_record_def vz_tick_def intro: booted failed)
qed

lemma vz_start_calls:
  "vz_start c conf label d w = (r, d') \<Longrightarrow>
     vz_calls w < vz_calls (vz_machine d') \<and> vz_api (vz_machine d') = vz_api w \<and> vz_poisoned d' = vz_poisoned d"
  by (auto simp: vz_start_def Let_def vz_ask_def vz_record_def vz_tick_def split: if_splits completion.splits)

lemma vz_inv_boot:
  assumes "vz_inv d"
  shows "vz_inv (snd (vz_boot c d))"
proof (cases "vz_boot c d")
  case (Pair r d')
  then show ?thesis
  proof (cases rule: vz_boot_cases)
    case (early e w)
    then show ?thesis using Pair vz_inv_fewer [OF assms] by (simp add: vz_after_since)
  next
    case (started conf w)
    let ?vm = "vz_calls w"
    have calls: "?vm < vz_calls (vz_machine d')" using vz_start_calls [OF started(1)] by simp
    have log: "set (vz_log w) \<subseteq> set (vz_log (vz_machine d'))"
      by (rule vz_start_cases [OF started(1)]) auto
    have after: "vz_after (vz_machine d) (vz_machine d')"
      using started(2) calls log by (simp add: vz_after_def vz_since_def)
    have old: "rv_vm e \<noteq> ?vm" if "vz_vms d n = Some e" for n e
      using assms that started(2) unfolding vz_inv_def vz_entry_ok_def vz_since_def by fastforce
    show ?thesis
    proof (rule vz_start_cases [OF started(1)])
      assume b: "vz_vms d' = (vz_vms d)(cfg_name c \<mapsto>
          \<lparr>rv_vm = ?vm, rv_queue = ''rs.vm.'' @ cfg_name c, rv_ready = empty_cache\<rparr>)"
        "vz_log (vz_machine d') = vz_log w @ [CreateVm ?vm conf (''rs.vm.'' @ cfg_name c), StartVm ?vm]"
      have "vz_entry_ok (vz_machine d') n e" if "vz_vms d' n = Some e" for n e
      proof (cases "n = cfg_name c")
        case True
        then show ?thesis using that calls b by (auto simp: vz_entry_ok_def)
      next
        case False
        then have "vz_entry_ok (vz_machine d) n e" using that assms b(1) by (simp add: vz_inv_def)
        then show ?thesis using after by (rule vz_entry_after)
      qed
      moreover have "n = n'" if "vz_vms d' n = Some e" "vz_vms d' n' = Some e'" "rv_vm e = rv_vm e'" for n n' e e'
        using that assms b(1) unfolding vz_inv_def by (auto split: if_splits dest: old)
      ultimately show ?thesis using Pair by (simp add: vz_inv_def)
    qed (use vz_inv_fewer [OF assms _ after] Pair in simp_all)
  qed
qed

interpretation apple_vz: vm_driver apple_vz_driver vz_inv
proof unfold_locales
  fix c d h d'
  assume "drv_boot apple_vz_driver c d = (Ok h, d')"
  then have "vz_boot c d = (Ok h, d')" by (simp add: apple_vz_driver_def)
  then show "h_name h = cfg_name c \<and> h_namespace h = cfg_namespace c
      \<and> h_serial_log h = cfg_serial_log c \<and> h_state h \<in> {Starting, Running}"
  proof (cases rule: vz_boot_cases)
    case (started conf w)
    then show ?thesis by (elim vz_start_cases) auto
  qed simp
next
  fix c d assume "vz_inv d"
  then show "vz_inv (snd (drv_boot apple_vz_driver c d))" by (simp add: apple_vz_driver_def vz_inv_boot)
next
  fix d h assume inv: "vz_inv d"
  show "vz_inv (snd (drv_stop apple_vz_driver h d))" "vz_inv (snd (drv_kill apple_vz_driver h d))"
    "vz_inv (snd (drv_state apple_vz_driver h d))"
    using inv by (simp_all add: apple_vz_driver_def vz_kill_def vz_inv_stop vz_inv_state)
  show "vz_inv (snd (drv_pause apple_vz_driver h d))" "vz_inv (snd (drv_resume apple_vz_driver h d))"
    using inv by (simp_all add: apple_vz_driver_def default_pause_def default_resume_def)
qed


section \<open>Properties\<close>

text \<open>C35: the machine that boots is the machine that was asked for.  A successful \<open>boot\<close> creates
  exactly one machine, starts it and registers it under the VM's name on a queue of its own.  Its
  configuration has the kernel and the initramfs the VM names, each under the absolute path the
  system gave for it during this very boot; the command line, the processors, the memory and the
  console; a NAT device and then, in the order of the networks, one device per socket pair on a
  duplicate of that pair's descriptor; first the root disk, on its own resolved path, writable and fully
  synchronised, and then the seed image, on its own resolved path, read-only; and every shared
  directory as given.  A configured data disk is not attached, though.  A failed \<open>boot\<close> registers
  nothing.\<close>

theorem vz_boot_outcome:
  assumes "vz_boot c d = (r, d')"
  shows "case r of
      Ok h \<Rightarrow> h_name h = cfg_name c \<and> (\<exists>vm conf.
        configured (vz_api (vz_machine d)) {vz_calls (vz_machine d) ..< vz_calls (vz_machine d')} c conf
        \<and> (\<forall>n e. vz_vms d n = Some e \<and> vz_inv d \<longrightarrow> rv_vm e \<noteq> vm)
        \<and> vz_vms d' = (vz_vms d)(cfg_name c \<mapsto>
            \<lparr>rv_vm = vm, rv_queue = ''rs.vm.'' @ cfg_name c, rv_ready = empty_cache\<rparr>)
        \<and> vz_log (vz_machine d') =
            vz_log (vz_machine d) @ [CreateVm vm conf (''rs.vm.'' @ cfg_name c), StartVm vm])
    | Err e \<Rightarrow> vz_vms d' = vz_vms d \<or> vz_vms d' = (vz_vms d)(cfg_name c := None)"
  using assms
proof (cases rule: vz_boot_cases)
  case (started conf w)
  have "rv_vm e \<noteq> vz_calls w" if "vz_vms d n = Some e" "vz_inv d" for n e
    using that started(2) unfolding vz_inv_def vz_entry_ok_def vz_since_def by fastforce
  moreover have "configured (vz_api (vz_machine d)) (asked (vz_machine d) (vz_machine d')) c conf"
    using started(3) by (rule configured_mono) (use vz_start_calls [OF started(1)] in auto)
  ultimately show ?thesis
    using started(2) by - (rule vz_start_cases [OF started(1)], auto simp: vz_since_def)
qed simp

text \<open>A start that is not confirmed in time is forgotten, not undone.  When the completion
  handler does not fire within ten seconds, \<open>boot\<close> fails, but the machine has been created and
  asked to start and nothing asks it to stop; the driver no longer knows it, answers \<open>Stopped\<close>
  when asked for its state and refuses to stop it.\<close>

theorem vz_timeout_orphans:
  assumes "vz_boot c d = (r, d')" "\<not> vz_poisoned d" "h_name h = cfg_name c"
    and "\<And>i vm. va_start (vz_api (vz_machine d)) i vm = NoAnswer"
    and "vz_log (vz_machine d') \<noteq> vz_log (vz_machine d)"
  shows "r = Err (BootFailed (cfg_name c)
      ''Apple VZ start completion handler did not fire within 10 seconds'')
    \<and> (\<exists>vm conf label. vz_log (vz_machine d') =
         vz_log (vz_machine d) @ [CreateVm vm conf label, StartVm vm])
    \<and> vz_state h d' = (Ok Stopped, d') \<and> vz_stop h d' = (Err (NotFound (cfg_name c)), d')"
  using assms(1)
proof (cases rule: vz_boot_cases)
  case (early e w)
  then show ?thesis using assms(5) by (simp add: vz_since_def)
next
  case (started conf w)
  have ans: "va_start (vz_api w) i vm = NoAnswer" for i vm
    using assms(4) started(2) by (simp add: vz_since_def)
  have "\<not> vz_poisoned d'" using vz_start_calls [OF started(1)] assms(2) by simp
  then show ?thesis
    using started(1,2) assms(2,3) ans
    by (auto simp: vz_start_def Let_def vz_ask_def vz_record_def vz_tick_def vz_since_def vz_state_def vz_stop_def)
qed

text \<open>A machine on which everything works, except that it never confirms a start.\<close>

definition mac_api :: "completion \<Rightarrow> vz_api" where
  "mac_api start = \<lparr>va_supported = (\<lambda>_. True),
     va_fs = (\<lambda>_. quiet_fs\<lparr>fs_files := (\<lambda>_. Some [])\<rparr>), va_canonicalize = (\<lambda>_ p. Ok p),
     va_create = (\<lambda>_ _. Ok ()), va_open = (\<lambda>_ _. Ok ()), va_dup = (\<lambda>_ fd. (fd + 10, io_not_found)),
     va_mac = (\<lambda>_. ''02:00:00:00:00:01''), va_attach = (\<lambda>_ _. None), va_validate = (\<lambda>_ _. None),
     va_start = (\<lambda>_ _. start), va_request_stop = (\<lambda>_ _. Completed), va_state = (\<lambda>_ _. 1)\<rparr>"

definition mac_new :: "completion \<Rightarrow> AppleVzDriver" where
  "mac_new start = \<lparr>vz_vms = (\<lambda>_. None), vz_poisoned = False,
     vz_machine = \<lparr>vz_api = mac_api start, vz_calls = 0, vz_log = []\<rparr>\<rparr>"

definition mac_config :: VmConfig where
  "mac_config = \<lparr>cfg_name = ''mac'', cfg_namespace = ''default'', cfg_kernel = [RootDir, Normal ''k''],
     cfg_initramfs = Some [RootDir, Normal ''i''], cfg_root_disk = Some [RootDir, Normal ''d''],
     cfg_data_disk = Some [RootDir, Normal ''data''], cfg_seed_iso = Some [RootDir, Normal ''s''],
     cfg_cpus = 2, cfg_memory_mb = 512, cfg_networks = [SocketPairFd \<lparr>ep_fd = 5\<rparr>],
     cfg_shared_dirs = [], cfg_serial_log = [RootDir, Normal ''serial.log''], cfg_cmdline = None,
     cfg_netns = None, cfg_vsock = False, cfg_machine_id = None, cfg_efi_variable_store = None,
     cfg_rosetta = False\<rparr>"

definition mac_handle :: VmHandle where
  "mac_handle = \<lparr>h_name = ''mac'', h_namespace = ''default'', h_state = Starting, h_process = None,
     h_serial_log = [RootDir, Normal ''serial.log''], h_machine_id = None\<rparr>"

lemma mac_paths:
  "path_to_str [RootDir, Normal ''k''] = Some ''/k''" "path_to_str [RootDir, Normal ''i''] = Some ''/i''"
  "path_to_str [RootDir, Normal ''d''] = Some ''/d''" "path_to_str [RootDir, Normal ''s''] = Some ''/s''"
  by code_simp+

lemmas mac_defs = vz_boot_def vz_configure_def resolve_path_def resolve_opt_def vz_try_def vz_ask_def
  vz_tick_def st_then_def vz_storage_def attach_disk_def try_clone_owned_def mac_config_def mac_new_def
  mac_api_def queue_label_def vz_start_def vz_record_def fs_exists_def Let_def mac_paths

theorem vz_boot_outcome_witness:
  "\<exists>h d'. vz_boot mac_config (mac_new Completed) = (Ok h, d') \<and> (\<exists>e. vz_vms d' = [''mac'' \<mapsto> e])
    \<and> (\<exists>vm conf label. vz_log (vz_machine d') = [CreateVm vm conf label, StartVm vm]
         \<and> vc_kernel_url conf = ''/k'' \<and> vc_initial_ramdisk_url conf = ''/i''
         \<and> map (\<lambda>a. (da_path a, da_read_only a)) (vc_storage_devices conf) = [(''/d'', False), (''/s'', True)]
         \<and> map (\<lambda>n. case n of FileHandleNic fd _ \<Rightarrow> fd | NatNic _ \<Rightarrow> -1) (vc_network_devices conf) = [-1, 15])"
proof -
  have "\<exists>h d'. vz_boot mac_config (mac_new Completed) = (Ok h, d')" by (simp add: mac_defs)
  then obtain h d' where b: "vz_boot mac_config (mac_new Completed) = (Ok h, d')" by blast
  then show ?thesis
    using vz_boot_outcome [OF b]
    by (auto simp: mac_new_def mac_api_def mac_config_def configured_def resolved_def mac_paths wanted_disks_def
        disk_for_def card_for_def try_clone_owned_def list_all2_Cons1 Let_def)
qed

theorem vz_timeout_orphans_witness:
  "\<exists>d'. vz_boot mac_config (mac_new NoAnswer) = (Err (BootFailed ''mac''
      ''Apple VZ start completion handler did not fire within 10 seconds''), d')
    \<and> vz_state mac_handle d' = (Ok Stopped, d')"
proof -
  obtain r d' where b: "vz_boot mac_config (mac_new NoAnswer) = (r, d')" by fastforce
  then have "vz_log (vz_machine d') \<noteq> []" by (auto simp: mac_defs)
  then show ?thesis
    using vz_timeout_orphans [OF b, of mac_handle] b by (simp add: mac_new_def mac_api_def mac_config_def mac_handle_def)
qed

end
