(* ===== verification/Platform.thy ===== *)
theory Platform
  imports Manager_Conc Cloud_Hv Whp Apple_Vz
begin

text \<open>
  \<open>src/vm/platform.rs\<close>: the driver a build for an operating system gets, and \<open>VmManager::new\<close>
  on top of it.  \<open>Box<dyn VmDriver>\<close> is the sum of the three drivers, and a call through it goes
  to the driver inside.  The machine each driver talks to is a parameter.
\<close>

datatype PlatformDriver =
    AppleVz AppleVzDriver
  | CloudHv CloudHvDriver
  | WhpBox WhpDriver

record machines =
  mac_machine :: vz_host
  linux_machine :: linux
  windows_machine :: whp_host

definition apple_vz_new :: "vz_host \<Rightarrow> AppleVzDriver" where
  "apple_vz_new w = \<lparr>vz_vms = Map.empty, vz_poisoned = False, vz_machine = w\<rparr>"

definition cloud_hv_new :: "linux \<Rightarrow> CloudHvDriver" where
  "cloud_hv_new l = \<lparr>ch_vms = Map.empty, ch_poisoned = False, ch_host = l\<rparr>"

definition whp_driver_new :: "whp_host \<Rightarrow> WhpDriver" where
  "whp_driver_new w = \<lparr>whp_vms = Map.empty, whp_poisoned = False, whp_machine = w\<rparr>"

text \<open>\<open>os\<close> is \<open>std::env::consts::OS\<close>, which names the \<open>target_os\<close> of the build.\<close>

definition create_platform_driver :: "string \<Rightarrow> machines \<Rightarrow> (PlatformDriver, VmError) result" where
  "create_platform_driver os ms =
     (if os = ''macos'' then Ok (AppleVz (apple_vz_new (mac_machine ms)))
      else if os = ''linux'' then Ok (CloudHv (cloud_hv_new (linux_machine ms)))
      else if os = ''windows'' then Ok (WhpBox (whp_driver_new (windows_machine ms)))
      else Err (Hypervisor (''unsupported platform: '' @ os)))"

definition manager_new ::
  "string \<Rightarrow> machines \<Rightarrow> path \<Rightarrow> fs \<Rightarrow> (PlatformDriver VmManager, VmError) result \<times> fs" where
  "manager_new os ms base_dir w =
     (case create_platform_driver os ms of
        Err e \<Rightarrow> (Err e, w)
      | Ok driver \<Rightarrow> with_driver driver base_dir w)"

text \<open>A call of a method through the box.\<close>

fun dispatch ::
  "('a \<Rightarrow> AppleVzDriver \<Rightarrow> 'r \<times> AppleVzDriver) \<Rightarrow> ('a \<Rightarrow> CloudHvDriver \<Rightarrow> 'r \<times> CloudHvDriver)
   \<Rightarrow> ('a \<Rightarrow> WhpDriver \<Rightarrow> 'r \<times> WhpDriver) \<Rightarrow> 'a \<Rightarrow> PlatformDriver \<Rightarrow> 'r \<times> PlatformDriver" where
  "dispatch f g h x (AppleVz d) = map_prod id AppleVz (f x d)"
| "dispatch f g h x (CloudHv d) = map_prod id CloudHv (g x d)"
| "dispatch f g h x (WhpBox d) = map_prod id WhpBox (h x d)"

definition platform_driver :: "ch_env \<Rightarrow> PlatformDriver VmDriver" where
  "platform_driver env =
     (let A = apple_vz_driver; C = cloud_hv_driver env; W = whp_driver in
      \<lparr>drv_boot = dispatch (drv_boot A) (drv_boot C) (drv_boot W),
       drv_stop = dispatch (drv_stop A) (drv_stop C) (drv_stop W),
       drv_kill = dispatch (drv_kill A) (drv_kill C) (drv_kill W),
       drv_state = dispatch (drv_state A) (drv_state C) (drv_state W),
       drv_pause = dispatch (drv_pause A) (drv_pause C) (drv_pause W),
       drv_resume = dispatch (drv_resume A) (drv_resume C) (drv_resume W)\<rparr>)"

section \<open>The contract\<close>

fun platform_inv :: "PlatformDriver \<Rightarrow> bool" where
  "platform_inv (AppleVz d) = vz_inv d"
| "platform_inv (CloudHv d) = ch_inv d"
| "platform_inv (WhpBox d) = whp_inv d"

lemma boxed_eq: "map_prod id F p = (r, d) \<longleftrightarrow> (\<exists>e. p = (r, e) \<and> d = F e)"
  by (cases p) auto

lemma dispatch_inv:
  assumes "platform_inv d" "\<And>d. vz_inv d \<Longrightarrow> vz_inv (snd (f x d))" "\<And>d. ch_inv d \<Longrightarrow> ch_inv (snd (g x d))"
    "\<And>d. whp_inv d \<Longrightarrow> whp_inv (snd (h x d))"
  shows "platform_inv (snd (dispatch f g h x d))"
  using assms by (cases d) simp_all

text \<open>The sum of the drivers meets the contract because each of them does.\<close>

interpretation platform: vm_driver "platform_driver env" platform_inv
proof unfold_locales
  fix c d h d'
  assume "drv_boot (platform_driver env) c d = (Ok h, d')"
  then show "h_name h = cfg_name c \<and> h_namespace h = cfg_namespace c
      \<and> h_serial_log h = cfg_serial_log c \<and> h_state h \<in> {Starting, Running}"
    by (cases d) (auto simp: platform_driver_def Let_def boxed_eq dest!: apple_vz.boot_handle cloud_hv.boot_handle
        whp.boot_handle)
qed (simp_all add: platform_driver_def Let_def dispatch_inv apple_vz.method_inv cloud_hv.method_inv
      whp.method_inv)

lemma create_platform_driver_inv:
  "create_platform_driver os ms = Ok d \<Longrightarrow> platform_inv d"
  by (auto simp: create_platform_driver_def apple_vz_new_def cloud_hv_new_def whp_driver_new_def
      vz_inv_def ch_inv_def whp_inv_def split: if_splits)

text \<open>What every driver answers for a VM it does not know.\<close>

fun unknown_to :: "string \<Rightarrow> PlatformDriver \<Rightarrow> bool" where
  "unknown_to n (AppleVz d) \<longleftrightarrow> vz_vms d n = None \<and> \<not> vz_poisoned d"
| "unknown_to n (CloudHv d) \<longleftrightarrow> ch_vms d n = None \<and> \<not> ch_poisoned d"
| "unknown_to n (WhpBox d) \<longleftrightarrow> whp_vms d n = None \<and> \<not> whp_poisoned d"

lemma unknown_is_stopped:
  "unknown_to (cfg_name c) d \<Longrightarrow> drv_state (platform_driver env) (reservation c) d = (Ok Stopped, d)"
  by (cases d) (simp_all add: platform_driver_def Let_def apple_vz_driver_def vz_state_def
      cloud_hv_driver_def ch_state_def whp_driver_def whp_state_def reservation_def)

end
