(* ===== verification/Whp_Resources.thy ===== *)
theory Whp_Resources
  imports Whp
begin

text \<open>
  What the Windows driver owns: partitions, guest memory and vCPU threads, read off the record of
  calls in \<^verbatim>\<open>Whp\<close>.  The driver's own documentation states its key guarantee as \<open>guest memory
  outlives the WHP partition that maps it\<close>; here it is shown for every sequence of calls, together
  with the absence of leaks, of double frees and of threads on deleted partitions.
\<close>

section \<open>The ledger\<close>

text \<open>What exists after a sequence of calls: the partitions, the allocations, which allocation is mapped
  into which partition, and the partitions a thread runs on.  The platform is at fault when it
  hands out what already exists or refuses to release what exists; the driver is at fault when it frees memory twice or while
  it is mapped, deletes a partition under a running thread, or sets up one that does not exist.
  A mapping that was asked for counts as made, and deleting a partition removes its mappings.
  Deleting or cancelling what has been deleted before has no effect.\<close>

record ledger =
  lg_partitions :: "nat set"
  lg_memory :: "nat set"
  lg_mapped :: "(nat \<times> nat) set"
  lg_threads :: "nat set"

datatype fault = PlatformFault | DriverFault

fun ledger_step :: "whp_call \<Rightarrow> ledger \<Rightarrow> (ledger, fault) result" where
  "ledger_step (CreatePartition p) s =
     (if p \<in> lg_partitions s then Err PlatformFault else Ok (s\<lparr>lg_partitions := insert p (lg_partitions s)\<rparr>))"
| "ledger_step (DeletePartition p ok) s =
     (if p \<in> lg_threads s then Err DriverFault
      else if \<not> ok \<and> p \<in> lg_partitions s then Err PlatformFault
      else Ok (s\<lparr>lg_partitions := lg_partitions s - {p}, lg_mapped := {x \<in> lg_mapped s. fst x \<noteq> p}\<rparr>))"
| "ledger_step (AllocMemory a) s =
     (if a \<in> lg_memory s then Err PlatformFault else Ok (s\<lparr>lg_memory := insert a (lg_memory s)\<rparr>))"
| "ledger_step (MapMemory p a) s =
     (if p \<notin> lg_partitions s \<or> a \<notin> lg_memory s then Err DriverFault
      else Ok (s\<lparr>lg_mapped := insert (p, a) (lg_mapped s)\<rparr>))"
| "ledger_step (FreeMemory a ok) s =
     (if a \<notin> lg_memory s \<or> a \<in> snd ` lg_mapped s then Err DriverFault
      else if \<not> ok then Err PlatformFault
      else Ok (s\<lparr>lg_memory := lg_memory s - {a}\<rparr>))"
| "ledger_step (SpawnVcpu p) s =
     (if p \<notin> lg_partitions s \<or> p \<in> lg_threads s then Err DriverFault
      else Ok (s\<lparr>lg_threads := insert p (lg_threads s)\<rparr>))"
| "ledger_step (JoinVcpu p) s =
     (if p \<notin> lg_threads s then Err DriverFault else Ok (s\<lparr>lg_threads := lg_threads s - {p}\<rparr>))"
| "ledger_step (SetProcessorCount p _) s = (if p \<notin> lg_partitions s then Err DriverFault else Ok s)"
| "ledger_step (CreateVirtualProcessor p) s = (if p \<notin> lg_partitions s then Err DriverFault else Ok s)"
| "ledger_step (SetRegisters p _) s = (if p \<notin> lg_partitions s then Err DriverFault else Ok s)"
| "ledger_step (DeleteVirtualProcessor p _) s = Ok s"
| "ledger_step (CancelRun p) s = Ok s"

fun replay :: "whp_call list \<Rightarrow> ledger \<Rightarrow> (ledger, fault) result" where
  "replay [] s = Ok s"
| "replay (c # cs) s = and_then (ledger_step c s) (replay cs)"

definition nothing :: ledger where
  "nothing = \<lparr>lg_partitions = {}, lg_memory = {}, lg_mapped = {}, lg_threads = {}\<rparr>"

text \<open>The record as it would be if every release had worked: replaying it gives the same, except where
  the platform refused to release something that exists.\<close>

fun granted :: "whp_call \<Rightarrow> whp_call" where
  "granted (DeletePartition p _) = DeletePartition p True"
| "granted (DeleteVirtualProcessor p _) = DeleteVirtualProcessor p True"
| "granted (FreeMemory a _) = FreeMemory a True"
| "granted c = c"

abbreviation calls :: "whp_host \<Rightarrow> whp_call list" where
  "calls w \<equiv> map granted (wh_log w)"

lemma ledger_step_granted: "ledger_step c s = ledger_step (granted c) s \<or> ledger_step c s = Err PlatformFault"
  by (cases c) auto

lemma replay_granted: "replay cs s = replay (map granted cs) s \<or> replay cs s = Err PlatformFault"
proof (induction cs arbitrary: s)
  case (Cons c cs)
  consider "ledger_step c s = ledger_step (granted c) s" | "ledger_step c s = Err PlatformFault"
    using ledger_step_granted by blast
  then show ?case
  proof cases
    case 1
    then show ?thesis using Cons.IH by (cases "ledger_step (granted c) s") auto
  qed simp
qed simp

lemma replay_append: "replay (cs @ cs') s = and_then (replay cs s) (replay cs')"
  by (induction cs arbitrary: s) (auto simp: and_then_def split: result.split)

text \<open>What a table of VMs holds, and that no two of its entries share anything.\<close>

definition ledger_of :: "(string \<rightharpoonup> WhpVm) \<Rightarrow> ledger" where
  "ledger_of vms =
     \<lparr>lg_partitions = {wv_partition vm |vm. vm \<in> ran vms},
      lg_memory = {gm_ptr (wv_memory vm) |vm. vm \<in> ran vms},
      lg_mapped = {(wv_partition vm, gm_ptr (wv_memory vm)) |vm. vm \<in> ran vms},
      lg_threads = {wv_partition vm |vm. vm \<in> ran vms \<and> wv_thread vm}\<rparr>"

definition separate :: "(string \<rightharpoonup> WhpVm) \<Rightarrow> bool" where
  "separate vms \<longleftrightarrow>
     (\<forall>n vm. vms n = Some vm \<longrightarrow> gm_ptr (wv_memory vm) \<noteq> 0)
     \<and> (\<forall>n n' vm vm'. vms n = Some vm \<longrightarrow> vms n' = Some vm' \<longrightarrow> n \<noteq> n' \<longrightarrow>
          wv_partition vm \<noteq> wv_partition vm' \<and> gm_ptr (wv_memory vm) \<noteq> gm_ptr (wv_memory vm'))"

text \<open>The calls lead from one ledger to another, unless the platform is at fault.\<close>

definition leads :: "whp_call list \<Rightarrow> ledger \<Rightarrow> ledger \<Rightarrow> bool" where
  "leads cs s s' \<longleftrightarrow> replay cs s = Ok s' \<or> replay cs s = Err PlatformFault"

lemma leads_append: "leads cs s s1 \<Longrightarrow> leads cs' s1 s' \<Longrightarrow> leads (cs @ cs') s s'"
  by (auto simp: leads_def replay_append)

lemma leads_Nil [simp]: "leads [] s s"
  by (simp add: leads_def)

section \<open>Ledgers of tables\<close>

lemma ran_upd_new: "vms n = None \<Longrightarrow> ran (vms(n \<mapsto> vm)) = insert vm (ran vms)"
  by (rule ran_map_upd)

definition with_vm :: "WhpVm \<Rightarrow> ledger \<Rightarrow> ledger" where
  "with_vm vm s =
     s\<lparr>lg_partitions := insert (wv_partition vm) (lg_partitions s),
      lg_memory := insert (gm_ptr (wv_memory vm)) (lg_memory s),
      lg_mapped := insert (wv_partition vm, gm_ptr (wv_memory vm)) (lg_mapped s),
      lg_threads := (if wv_thread vm then insert (wv_partition vm) (lg_threads s) else lg_threads s)\<rparr>"

lemma ledger_add: "vms n = None \<Longrightarrow> ledger_of (vms(n \<mapsto> vm)) = with_vm vm (ledger_of vms)"
  by (auto simp: ledger_of_def with_vm_def ran_upd_new)

lemma separate_add:
  assumes "separate vms" "gm_ptr (wv_memory vm) \<noteq> 0"
    "wv_partition vm \<notin> lg_partitions (ledger_of vms)" "gm_ptr (wv_memory vm) \<notin> lg_memory (ledger_of vms)"
  shows "separate (vms(n \<mapsto> vm))"
proof -
  have "wv_partition vm' \<noteq> wv_partition vm \<and> gm_ptr (wv_memory vm') \<noteq> gm_ptr (wv_memory vm)"
    if "vms n' = Some vm'" for n' vm'
    using assms(3,4) that by (auto simp: ledger_of_def ran_def)
  then show ?thesis using assms(1,2) by (simp add: separate_def) metis
qed

lemma separate_remove: "separate vms \<Longrightarrow> separate (vms(n := None))"
  by (auto simp: separate_def)

lemma separate_fresh:
  assumes "separate vms" "vms n = Some vm"
  shows "wv_partition vm \<notin> lg_partitions (ledger_of (vms(n := None)))"
    "gm_ptr (wv_memory vm) \<notin> lg_memory (ledger_of (vms(n := None)))"
  using assms by (auto simp: separate_def ledger_of_def ran_def split: if_splits)

lemma ledger_split: "vms n = Some vm \<Longrightarrow> ledger_of vms = with_vm vm (ledger_of (vms(n := None)))"
  using ledger_add [of "vms(n := None)" n vm] by (simp add: fun_upd_idem)

text \<open>Threads and mappings are the ones of existing partitions and memory.\<close>

definition coherent :: "ledger \<Rightarrow> bool" where
  "coherent s \<longleftrightarrow> lg_threads s \<subseteq> lg_partitions s \<and> lg_mapped s \<subseteq> lg_partitions s \<times> lg_memory s"

lemma coherent_ledger_of: "coherent (ledger_of vms)"
  by (auto simp: coherent_def ledger_of_def)

section \<open>What the methods add to the record\<close>

text \<open>The calls of dropping a VM, and of creating one.\<close>

definition drop_calls :: "WhpVm \<Rightarrow> whp_call list" where
  "drop_calls vm = [CancelRun (wv_partition vm)]
     @ (if wv_thread vm then [JoinVcpu (wv_partition vm)] else [])
     @ [DeleteVirtualProcessor (wv_partition vm) True, DeletePartition (wv_partition vm) True]
     @ (if gm_ptr (wv_memory vm) \<noteq> 0 then [FreeMemory (gm_ptr (wv_memory vm)) True] else [])"

lemma log_simps [simp]:
  "calls (wh_tick w) = calls w" "calls (wh_record cs w) = calls w @ map granted cs"
  "calls (snd (wh_try cs w)) = calls w @ map granted cs"
  "calls (delete_partition p w) = calls w @ [DeletePartition p True]"
  "calls (delete_vp_and_partition p w) = calls w @ [DeleteVirtualProcessor p True, DeletePartition p True]"
  "calls (drop_memory m w) = calls w @ (if gm_ptr m \<noteq> 0 then [FreeMemory (gm_ptr m) True] else [])"
  "calls (snd (join_vcpu vm w)) = calls w @ (if wv_thread vm then [JoinVcpu (wv_partition vm)] else [])"
  by (simp_all add: wh_tick_def wh_record_def wh_try_def delete_partition_def drop_memory_def
      delete_vp_and_partition_def join_vcpu_def)

lemma log_drop_vm [simp]: "calls (drop_vm vm w) = calls w @ drop_calls vm"
proof -
  let ?vm = "vm\<lparr>wv_stop_flag := True\<rparr>" and ?w = "wh_record [CancelRun (wv_partition vm)] (wh_tick w)"
  obtain vm' w' where j: "join_vcpu ?vm ?w = (vm', w')" by fastforce
  then have "wv_partition vm' = wv_partition vm" "wv_memory vm' = wv_memory vm"
      "calls w' = calls w @ [CancelRun (wv_partition vm)] @ (if wv_thread vm then [JoinVcpu (wv_partition vm)] else [])"
    using join_vcpu_fields [of ?vm ?w] log_simps(7) [of ?vm ?w] by simp_all
  then show ?thesis by (simp add: drop_vm_def j drop_calls_def)
qed

definition register_calls :: "nat \<Rightarrow> whp_call list \<Rightarrow> bool" where
  "register_calls p cs \<longleftrightarrow> (\<forall>c \<in> set cs. \<exists>regs. c = SetRegisters p regs)"

lemma replay_registers:
  "register_calls p cs \<Longrightarrow> p \<in> lg_partitions s \<Longrightarrow> replay (cs @ cs') s = replay cs' s"
  by (induction cs) (auto simp: register_calls_def)

lemma set_all_registers_log:
  "set_all_registers p rs w = (r, w') \<Longrightarrow> \<exists>cs. calls w' = calls w @ cs \<and> register_calls p cs"
proof (induction p rs w rule: set_all_registers.induct)
  case (2 p what regs rest w)
  obtain s w1 where s: "set_registers p what regs w = (s, w1)" by fastforce
  then have l: "calls w1 = calls w @ [SetRegisters p regs]" by (auto simp: set_registers_def wh_try_def)
  show ?case
  proof (cases s)
    case (Ok u)
    then obtain cs where "calls w' = calls w1 @ cs" "register_calls p cs"
      using 2 s by auto
    then show ?thesis using l by (auto simp: register_calls_def)
  qed (use 2 s l in \<open>auto simp: register_calls_def\<close>)
qed (simp add: register_calls_def)

lemma setup_initial_registers_log:
  assumes "setup_initial_registers p e w = (r, w')"
  shows "\<exists>cs. calls w' = calls w @ cs \<and> register_calls p cs"
proof -
  have "setup_initial_registers p e w = set_all_registers p
    ((''WHvSetVirtualProcessorRegisters (general) failed'', general_registers e)
     # [(''failed to set CS'', code_segment),
        (''failed to set segment register'', data_segment ''Ds''),
        (''failed to set segment register'', data_segment ''Es''),
        (''failed to set segment register'', data_segment ''Ss''),
        (''failed to set GDTR'', gdt_table)]) w"
    by (simp add: setup_initial_registers_def set_segment_registers_def
        split: prod.split result.split)
  then show ?thesis using set_all_registers_log assms by metis
qed

text \<open>The end of a boot, after memory has been mapped into the partition: the VM is in the table, and one
  it replaces is dropped; or the partition and the memory are gone.\<close>

definition boot_ends ::
  "nat \<Rightarrow> nat \<Rightarrow> string \<Rightarrow> (VmHandle, VmError) result \<Rightarrow> WhpDriver \<Rightarrow> WhpDriver \<Rightarrow> whp_call list \<Rightarrow> bool" where
  "boot_ends p a n r d d' cs \<longleftrightarrow>
     (if is_ok r
      then (\<exists>regs vm. register_calls p regs \<and> wv_partition vm = p \<and> gm_ptr (wv_memory vm) = a \<and> wv_thread vm
        \<and> whp_vms d' = (whp_vms d)(n \<mapsto> vm)
        \<and> cs = [CreateVirtualProcessor p] @ regs @ [SpawnVcpu p]
            @ (case whp_vms d n of None \<Rightarrow> [] | Some old \<Rightarrow> drop_calls old))
      else whp_vms d' = whp_vms d \<and> (cs = [DeletePartition p True, FreeMemory a True]
        \<or> cs = [CreateVirtualProcessor p, DeletePartition p True, FreeMemory a True]
        \<or> (\<exists>regs. register_calls p regs \<and> (cs = [CreateVirtualProcessor p] @ regs
              @ [DeleteVirtualProcessor p True, DeletePartition p True, FreeMemory a True]
           \<or> cs = [CreateVirtualProcessor p] @ regs @ [SpawnVcpu p, CancelRun p, JoinVcpu p,
                DeleteVirtualProcessor p True, DeletePartition p True, FreeMemory a True]))))"

lemma start_vcpu_log:
  assumes "start_vcpu c p e m d w = (r, d')" "gm_ptr m \<noteq> 0"
  shows "\<exists>cs. calls (whp_machine d') = calls w @ cs \<and> boot_ends p (gm_ptr m) (cfg_name c) r d d' cs"
proof -
  obtain r1 w1 where 1: "wh_try [CreateVirtualProcessor p] w = (r1, w1)" by fastforce
  then have l1: "calls w1 = calls w @ [CreateVirtualProcessor p]"
    using log_simps(3) [of "[CreateVirtualProcessor p]" w] by simp
  obtain r2 w2 where 2: "setup_initial_registers p (word_of_nat e) w1 = (r2, w2)" by fastforce
  obtain regs where l2: "calls w2 = calls w @ [CreateVirtualProcessor p] @ regs" "register_calls p regs"
    using setup_initial_registers_log [OF 2] l1 by auto
  show ?thesis
  proof (cases r1)
    case (Err x)
    then show ?thesis using assms 1 l1 by (auto simp: start_vcpu_def Let_def boot_ends_def)
  next
    case ok1: (Ok u)
    show ?thesis
    proof (cases r2)
      case (Err x)
      then show ?thesis using assms 1 2 ok1 l2 by (auto simp: start_vcpu_def Let_def boot_ends_def)
    next
      case ok2: (Ok v)
      let ?w = "wh_record [SpawnVcpu p] (wh_tick w2)"
      define vm where "vm = \<lparr>wv_partition = p, wv_memory = m,
        wv_vcpu = vcpu_start (wa_log_create (wh_api ?w) (wh_calls ?w))
          \<lparr>vc_state = Running, vc_state_poisoned = False, vc_buffer = [], vc_log = [], vc_regs = [], vc_looping = False\<rparr>,
        wv_resume_state = None, wv_stop_flag = False, wv_thread = True, wv_serial_log = cfg_serial_log c\<rparr>"
      have vm: "wv_partition vm = p" "wv_memory vm = m" "wv_thread vm" by (simp_all add: vm_def)
      show ?thesis
      proof (cases "is_ok (wa_spawn (wh_api w2) (wh_calls w2)) \<and> \<not> whp_poisoned d")
        case True
        then have "is_ok r" "whp_vms d' = (whp_vms d)(cfg_name c \<mapsto> vm)"
            "calls (whp_machine d') = calls w2 @ [SpawnVcpu p]
              @ (case whp_vms d (cfg_name c) of None \<Rightarrow> [] | Some old \<Rightarrow> drop_calls old)"
          using assms(1) 1 2 ok1 ok2
          by (auto simp: start_vcpu_def Let_def is_ok_iff vm_def split: option.splits)
        then show ?thesis using l2 vm unfolding boot_ends_def by (intro exI conjI) auto
      next
        case False
        then show ?thesis
          using assms 1 2 ok1 ok2 l2 vm
          by (cases "wa_spawn (wh_api w2) (wh_calls w2)")
            (auto simp: start_vcpu_def Let_def boot_ends_def drop_calls_def is_ok_iff vm_def [symmetric])
      qed
    qed
  qed
qed

lemma boot_memory_log:
  assumes "boot_memory c p d w = Some (r, d')"
  shows "\<exists>cs. calls (whp_machine d') = calls w @ cs
    \<and> (\<not> is_ok r \<and> whp_vms d' = whp_vms d \<and> cs = [DeletePartition p True]
       \<or> (\<exists>a ends. a \<noteq> 0 \<and> cs = [AllocMemory a, MapMemory p a] @ ends
            \<and> boot_ends p a (cfg_name c) r d d' ends))"
proof -
  obtain r1 w1 where 1: "allocate (unat (cfg_memory_mb c * 1024 * 1024)) w = (r1, w1)" by fastforce
  show ?thesis
  proof (cases r1)
    case (Err e)
    then have "calls w1 = calls w" using 1 by (auto simp: allocate_def Let_def split: if_splits)
    then show ?thesis using assms 1 Err by (auto simp: boot_memory_def Let_def)
  next
    case (Ok m)
    then have m: "gm_ptr m \<noteq> 0" "calls w1 = calls w @ [AllocMemory (gm_ptr m)]"
      using 1 by (auto simp: allocate_def Let_def split: if_splits)
    obtain r2 w2 where 2: "wh_try [MapMemory p (gm_ptr m)] w1 = (r2, w2)" by fastforce
    then have l2: "calls w2 = calls w @ [AllocMemory (gm_ptr m), MapMemory p (gm_ptr m)]"
      using log_simps(3) [of "[MapMemory p (gm_ptr m)]" w1] m(2) by simp
    have failed: ?thesis if "\<not> is_ok r" "whp_vms d' = whp_vms d"
        "calls (whp_machine d') = calls w2 @ [DeletePartition p True, FreeMemory (gm_ptr m) True]"
      using that m(1) l2 by (auto simp: boot_ends_def)
    consider (early) "\<not> is_ok r2 \<or> (\<exists>e mem. guest_memory c (gm_bytes m) (wa_fs (wh_api w2) (wh_calls w2)) = Some (Err e, mem))"
      | (load) entry mem where "is_ok r2" "guest_memory c (gm_bytes m) (wa_fs (wh_api w2) (wh_calls w2)) = Some (Ok entry, mem)"
      using assms 1 2 Ok by (auto simp: boot_memory_def Let_def is_ok_iff split: option.splits result.splits)
    then show ?thesis
    proof cases
      case early
      then show ?thesis
        using assms 1 2 Ok m(1) by (intro failed) (auto simp: boot_memory_def Let_def not_is_ok_iff split: result.splits)
    next
      case load
      then have "start_vcpu c p entry (m\<lparr>gm_bytes := mem\<rparr>) d (wh_tick w2) = (r, d')"
        using assms 1 2 Ok by (auto simp: boot_memory_def Let_def is_ok_iff)
      from start_vcpu_log [OF this] show ?thesis using m(1) l2 by auto
    qed
  qed
qed

lemma whp_boot_log:
  assumes "whp_boot_steps c d = Some (r, d')"
  shows "\<exists>cs. calls (whp_machine d') = calls (whp_machine d) @ cs
    \<and> (\<not> is_ok r \<and> whp_vms d' = whp_vms d \<and> (cs = [] \<or> (\<exists>p x. cs = [CreatePartition p, SetProcessorCount p x, DeletePartition p True]))
       \<or> (\<exists>p x a ends. a \<noteq> 0 \<and> cs = [CreatePartition p, SetProcessorCount p x, AllocMemory a, MapMemory p a] @ ends
            \<and> boot_ends p a (cfg_name c) r d d' ends))"
proof -
  obtain b w0 where 0: "is_available (whp_machine d) = (b, w0)" by fastforce
  have l0: "calls w0 = calls (whp_machine d)" using 0 by (auto simp: is_available_def wh_try_def)
  show ?thesis
  proof (cases "b \<and> (\<exists>p. wa_create (wh_api w0) (wh_calls w0) = Ok p)")
    case False
    then show ?thesis
      using assms 0 l0
      by (cases "wa_create (wh_api w0) (wh_calls w0)") (auto simp: whp_boot_steps_def Let_def split: if_splits)
  next
    case True
    then obtain p where p: b "wa_create (wh_api w0) (wh_calls w0) = Ok p" by blast
    let ?sp = "SetProcessorCount p (ucast (cfg_cpus c))"
    obtain r1 w1 where 1: "wh_try [?sp] (wh_record [CreatePartition p] (wh_tick w0)) = (r1, w1)" by fastforce
    obtain r2 w2 where 2: "wh_try [] w1 = (r2, w2)" by fastforce
    have l: "calls w1 = calls (whp_machine d) @ [CreatePartition p, ?sp]" "calls w2 = calls w1"
      using 1 2 l0 by (auto simp: wh_try_def)
    show ?thesis
    proof (cases "is_ok r1 \<and> is_ok r2")
      case False
      then show ?thesis
        using assms 0 p 1 2 l by (auto simp: whp_boot_steps_def Let_def not_is_ok_iff is_ok_iff split: result.splits)
    next
      case True
      then have "boot_memory c p d w2 = Some (r, d')"
        using assms 0 p 1 2 by (auto simp: whp_boot_steps_def Let_def is_ok_iff)
      from boot_memory_log [OF this] show ?thesis using l by auto
    qed
  qed
qed

section \<open>Nothing leaks and nothing is freed too early\<close>

lemma coherent_fresh:
  assumes "coherent s"
  shows "p \<notin> lg_partitions s \<Longrightarrow> p \<notin> lg_threads s"
    and "p \<notin> lg_partitions s \<Longrightarrow> {x \<in> lg_mapped s. fst x \<noteq> p} = lg_mapped s"
    and "p \<notin> lg_partitions s \<Longrightarrow> {x. (x = (p, a) \<or> x \<in> lg_mapped s) \<and> fst x \<noteq> p} = lg_mapped s"
    and "a \<notin> lg_memory s \<Longrightarrow> a \<notin> snd ` lg_mapped s"
  using assms by (auto simp: coherent_def)

lemma replay_drop:
  assumes "coherent s" "wv_partition vm \<notin> lg_partitions s" "gm_ptr (wv_memory vm) \<notin> lg_memory s"
    "gm_ptr (wv_memory vm) \<noteq> 0"
  shows "replay (drop_calls vm @ cs) (with_vm vm s) = replay cs s"
  using assms(2-4) coherent_fresh [OF assms(1)] by (cases s) (simp add: drop_calls_def with_vm_def)

text \<open>The table and the ledger agree, unless the platform was at fault.\<close>

definition owns :: "WhpDriver \<Rightarrow> bool" where
  "owns d \<longleftrightarrow> (case replay (calls (whp_machine d)) nothing of
     Ok s \<Rightarrow> s = ledger_of (whp_vms d) \<and> separate (whp_vms d)
   | Err f \<Rightarrow> f = PlatformFault)"

lemma owns_step:
  assumes "owns d" "calls (whp_machine d') = calls (whp_machine d) @ cs"
    and "separate (whp_vms d) \<Longrightarrow> replay cs (ledger_of (whp_vms d)) = Err PlatformFault
      \<or> replay cs (ledger_of (whp_vms d)) = Ok (ledger_of (whp_vms d')) \<and> separate (whp_vms d')"
  shows "owns d'"
  using assms by (auto simp: owns_def replay_append split: result.splits)

lemma replay_boot_refused:
  assumes "coherent s" "p \<notin> lg_partitions s"
  shows "replay [CreatePartition p, SetProcessorCount p x, DeletePartition p True] s = Ok s"
  using assms(2) coherent_fresh [OF assms(1)] by (cases s) simp

lemma replay_boot_fails:
  assumes "coherent s" "\<not> is_ok r" "boot_ends p a n r d d' ends" "p \<notin> lg_partitions s" "a \<notin> lg_memory s"
  shows "replay ([CreatePartition p, SetProcessorCount p x, AllocMemory a, MapMemory p a] @ ends) s = Ok s"
  using assms(2-5) coherent_fresh [OF assms(1)]
  by (cases s) (auto simp: boot_ends_def replay_registers)

lemma replay_boot_succeeds:
  assumes "separate vms" "p \<notin> lg_partitions (ledger_of vms)" "a \<notin> lg_memory (ledger_of vms)" "register_calls p regs"
    "wv_partition vm = p" "gm_ptr (wv_memory vm) = a" "wv_thread vm"
  shows "replay ([CreatePartition p, SetProcessorCount p x, AllocMemory a, MapMemory p a, CreateVirtualProcessor p]
      @ regs @ [SpawnVcpu p] @ (case vms n of None \<Rightarrow> [] | Some old \<Rightarrow> drop_calls old)) (ledger_of vms)
    = Ok (ledger_of (vms(n \<mapsto> vm)))"
proof -
  let ?s = "ledger_of vms"
  have "p \<notin> lg_threads ?s" using coherent_fresh(1) [OF coherent_ledger_of] assms(2) by blast
  then have "replay ([CreatePartition p, SetProcessorCount p x, AllocMemory a, MapMemory p a, CreateVirtualProcessor p]
      @ regs @ [SpawnVcpu p] @ cs) ?s = replay cs (with_vm vm ?s)" for cs
    using assms(2-7) by (simp add: replay_registers with_vm_def)
  moreover have "replay (case vms n of None \<Rightarrow> [] | Some old \<Rightarrow> drop_calls old) (with_vm vm ?s)
      = Ok (ledger_of (vms(n \<mapsto> vm)))"
  proof (cases "vms n")
    case None
    then show ?thesis by (simp add: ledger_add)
  next
    case (Some old)
    let ?t = "ledger_of (vms(n := None))"
    have old: "?s = with_vm old ?t" using ledger_split [of vms n old] Some by simp
    have swap: "with_vm vm ?s = with_vm old (with_vm vm ?t)"
      unfolding old by (auto simp: with_vm_def insert_commute)
    have new: "ledger_of (vms(n \<mapsto> vm)) = with_vm vm ?t"
      using ledger_add [of "vms(n := None)" n vm] by simp
    have "coherent (with_vm vm ?t)" unfolding new [symmetric] by (rule coherent_ledger_of)
    moreover have "wv_partition old \<notin> lg_partitions (with_vm vm ?t)" "gm_ptr (wv_memory old) \<notin> lg_memory (with_vm vm ?t)"
      using separate_fresh [OF assms(1) Some] assms(2,3,5,6) unfolding old by (auto simp: with_vm_def)
    moreover have "gm_ptr (wv_memory old) \<noteq> 0" using assms(1) Some by (simp add: separate_def)
    ultimately show ?thesis using replay_drop [of "with_vm vm ?t" old "[]"] Some swap new by simp
  qed
  ultimately show ?thesis by simp
qed

lemma owns_boot:
  assumes "owns d" "whp_boot_steps c d = Some (r, d')"
  shows "owns d'"
proof -
  let ?vms = "whp_vms d" let ?s = "ledger_of ?vms"
  from whp_boot_log [OF assms(2)] obtain cs where cs: "calls (whp_machine d') = calls (whp_machine d) @ cs"
    and "\<not> is_ok r \<and> whp_vms d' = ?vms \<and> (cs = [] \<or> (\<exists>p x. cs = [CreatePartition p, SetProcessorCount p x, DeletePartition p True]))
       \<or> (\<exists>p x a ends. a \<noteq> 0 \<and> cs = [CreatePartition p, SetProcessorCount p x, AllocMemory a, MapMemory p a] @ ends
            \<and> boot_ends p a (cfg_name c) r d d' ends)"
    by blast
  then consider (early) "whp_vms d' = ?vms" "cs = [] \<or> (\<exists>p x. cs = [CreatePartition p, SetProcessorCount p x, DeletePartition p True])"
    | (late) p x a ends where "a \<noteq> 0" "cs = [CreatePartition p, SetProcessorCount p x, AllocMemory a, MapMemory p a] @ ends"
        "boot_ends p a (cfg_name c) r d d' ends"
    by blast
  then show ?thesis
  proof cases
    case early
    then show ?thesis
      using replay_boot_refused [OF coherent_ledger_of [of ?vms]]
      by (intro owns_step [OF assms(1) cs]) (metis and_then_simps(2) ledger_step.simps(1) replay.simps)
  next
    case late
    show ?thesis
    proof (rule owns_step [OF assms(1) cs], goal_cases)
      case 1
      show ?case
      proof (cases "p \<in> lg_partitions ?s \<or> a \<in> lg_memory ?s")
        case fresh: False
        show ?thesis
        proof (cases "is_ok r")
          case True
          then obtain regs vm where "register_calls p regs" and vm: "wv_partition vm = p" "gm_ptr (wv_memory vm) = a" "wv_thread vm"
            and "whp_vms d' = ?vms(cfg_name c \<mapsto> vm)" "ends = [CreateVirtualProcessor p] @ regs @ [SpawnVcpu p]
                @ (case ?vms (cfg_name c) of None \<Rightarrow> [] | Some old \<Rightarrow> drop_calls old)"
            using late(3) by (auto simp: boot_ends_def)
          then show ?thesis
            using replay_boot_succeeds [OF 1, of p a regs vm x "cfg_name c"] separate_add [OF 1, of vm "cfg_name c"] late fresh
            by simp
        next
          case False
          then show ?thesis
            using replay_boot_fails [OF coherent_ledger_of False late(3), of ?vms x] late(2,3) fresh 1
            by (simp add: boot_ends_def)
        qed
      qed (use late(2) in auto)
    qed
  qed
qed

lemma table_split:
  assumes "separate vms" "vms n = Some vm"
  obtains s where "ledger_of vms = with_vm vm s" "s = ledger_of (vms(n := None))" "coherent s"
    "wv_partition vm \<notin> lg_partitions s" "gm_ptr (wv_memory vm) \<notin> lg_memory s" "gm_ptr (wv_memory vm) \<noteq> 0"
proof (rule that)
  show "ledger_of vms = with_vm vm (ledger_of (vms(n := None)))" using ledger_split [of vms n vm] assms(2) by simp
  show "gm_ptr (wv_memory vm) \<noteq> 0" using assms by (simp add: separate_def)
qed (use separate_fresh [OF assms] coherent_ledger_of in auto)

text \<open>An entry that keeps its partition and its memory.\<close>

lemma table_change:
  assumes "separate vms" "vms n = Some vm" "wv_partition vm' = wv_partition vm" "wv_memory vm' = wv_memory vm"
  shows "separate (vms(n \<mapsto> vm'))" "ledger_of (vms(n \<mapsto> vm')) = with_vm vm' (ledger_of (vms(n := None)))"
  using assms separate_add [OF separate_remove [OF assms(1)], of vm' n n] separate_fresh [OF assms(1,2)]
    ledger_add [of "vms(n := None)" n vm']
  by (simp_all add: separate_def)

text \<open>A call that changes or removes one entry.\<close>

lemma owns_change:
  assumes "owns d" "whp_vms d n = Some vm" "calls (whp_machine d') = calls (whp_machine d) @ cs"
    "whp_vms d' = (whp_vms d)(n := x)"
    "\<And>vm'. x = Some vm' \<Longrightarrow> wv_partition vm' = wv_partition vm \<and> wv_memory vm' = wv_memory vm"
    "\<And>s. \<lbrakk>coherent s; wv_partition vm \<notin> lg_partitions s; gm_ptr (wv_memory vm) \<notin> lg_memory s;
        gm_ptr (wv_memory vm) \<noteq> 0\<rbrakk> \<Longrightarrow>
       replay cs (with_vm vm s) = Ok (case x of None \<Rightarrow> s | Some vm' \<Rightarrow> with_vm vm' s)"
  shows "owns d'"
proof (rule owns_step [OF assms(1,3)])
  assume sep: "separate (whp_vms d)"
  obtain s where s: "ledger_of (whp_vms d) = with_vm vm s" "s = ledger_of ((whp_vms d)(n := None))" "coherent s"
    "wv_partition vm \<notin> lg_partitions s" "gm_ptr (wv_memory vm) \<notin> lg_memory s" "gm_ptr (wv_memory vm) \<noteq> 0"
    using table_split [OF sep assms(2)] by metis
  have "ledger_of (whp_vms d') = (case x of None \<Rightarrow> s | Some vm' \<Rightarrow> with_vm vm' s) \<and> separate (whp_vms d')"
    using assms(4,5) s(2) separate_remove [OF sep] table_change [OF sep assms(2)] by (cases x) auto
  then show "replay cs (ledger_of (whp_vms d)) = Err PlatformFault
      \<or> replay cs (ledger_of (whp_vms d)) = Ok (ledger_of (whp_vms d')) \<and> separate (whp_vms d')"
    using assms(6) [OF s(3-6)] s(1) by simp
qed

text \<open>Joining: the calls so far, and what is left of the VM.\<close>

lemma joined:
  assumes "join_vcpu (vm\<lparr>wv_stop_flag := True\<rparr>) (wh_record [CancelRun (wv_partition vm)] (wh_tick w)) = (vm', w')"
  shows "wv_partition vm' = wv_partition vm" "wv_memory vm' = wv_memory vm" "\<not> wv_thread vm'"
    "calls w' = calls w @ [CancelRun (wv_partition vm)] @ (if wv_thread vm then [JoinVcpu (wv_partition vm)] else [])"
  using assms join_vcpu_fields [of "vm\<lparr>wv_stop_flag := True\<rparr>" "wh_record [CancelRun (wv_partition vm)] (wh_tick w)"]
    log_simps(7) [of "vm\<lparr>wv_stop_flag := True\<rparr>" "wh_record [CancelRun (wv_partition vm)] (wh_tick w)"]
  by simp_all

lemma whp_stop_log:
  assumes "whp_vms d (h_name h) = Some vm" "\<not> whp_poisoned d"
  shows "calls (whp_machine (snd (whp_stop h d))) = calls (whp_machine d) @ [CancelRun (wv_partition vm)]
      @ (if wv_thread vm then [JoinVcpu (wv_partition vm)] else [])
      @ [DeleteVirtualProcessor (wv_partition vm) True, DeletePartition (wv_partition vm) True]
      @ drop_calls (vm\<lparr>wv_thread := False\<rparr>)"
    and "whp_vms (snd (whp_stop h d)) = (whp_vms d)(h_name h := None)"
proof -
  obtain vm' w' where
    j: "join_vcpu (vm\<lparr>wv_stop_flag := True\<rparr>) (wh_record [CancelRun (wv_partition vm)] (wh_tick (whp_machine d))) = (vm', w')"
    by fastforce
  show "calls (whp_machine (snd (whp_stop h d))) = calls (whp_machine d) @ [CancelRun (wv_partition vm)]
      @ (if wv_thread vm then [JoinVcpu (wv_partition vm)] else [])
      @ [DeleteVirtualProcessor (wv_partition vm) True, DeletePartition (wv_partition vm) True]
      @ drop_calls (vm\<lparr>wv_thread := False\<rparr>)"
    and "whp_vms (snd (whp_stop h d)) = (whp_vms d)(h_name h := None)"
    using assms j joined [OF j] by (simp_all add: whp_stop_def Let_def drop_calls_def)
qed

lemma owns_stop:
  assumes "owns d" shows "owns (snd (whp_stop h d))"
proof (cases "whp_poisoned d \<or> whp_vms d (h_name h) = None")
  case False
  then obtain vm where vm: "whp_vms d (h_name h) = Some vm" "\<not> whp_poisoned d" by blast
  show ?thesis
  proof (rule owns_change [OF assms vm(1) whp_stop_log [OF vm]], goal_cases)
    case (2 s)
    then show ?case
      using coherent_fresh [OF 2(1)] by (cases s) (simp add: with_vm_def drop_calls_def)
  qed simp
qed (use assms in \<open>auto simp: whp_stop_def\<close>)

lemma owns_pause:
  assumes "owns d" shows "owns (snd (whp_pause h d))"
proof (cases "whp_vms d (h_name h)")
  case (Some vm)
  obtain vm' w' where
    j: "join_vcpu (vm\<lparr>wv_stop_flag := True\<rparr>) (wh_record [CancelRun (wv_partition vm)] (wh_tick (whp_machine d))) = (vm', w')"
    by fastforce
  let ?vm = "vm'\<lparr>wv_resume_state := Some (vc_state (wv_vcpu vm)), wv_vcpu := update_state Paused (wv_vcpu vm')\<rparr>"
  show ?thesis
  proof (cases "snd (whp_pause h d) = d")
    case False
    then have p: "snd (whp_pause h d) = d\<lparr>whp_vms := (whp_vms d)(h_name h \<mapsto> ?vm), whp_machine := w'\<rparr>"
      using Some j by (auto simp: whp_pause_def Let_def split: if_splits)
    have l: "calls (whp_machine (snd (whp_pause h d))) = calls (whp_machine d) @ [CancelRun (wv_partition vm)]
        @ (if wv_thread vm then [JoinVcpu (wv_partition vm)] else [])"
      "whp_vms (snd (whp_pause h d)) = (whp_vms d)(h_name h \<mapsto> ?vm)"
      using p joined(4) [OF j] by simp_all
    show ?thesis
    proof (rule owns_change [OF assms Some l], goal_cases)
      case (2 s)
      then show ?case
        using coherent_fresh [OF 2(1)] joined [OF j] by (cases s) (simp add: with_vm_def)
    qed (use joined [OF j] in auto)
  qed (use assms in simp)
qed (use assms in \<open>auto simp: whp_pause_def\<close>)

lemma owns_resume:
  assumes "owns d" shows "owns (snd (whp_resume h d))"
proof (cases "whp_vms d (h_name h)")
  case (Some vm)
  show ?thesis
  proof (cases "snd (whp_resume h d) = d")
    case False
    then obtain vm' cs where r: "whp_vms (snd (whp_resume h d)) = (whp_vms d)(h_name h \<mapsto> vm')"
      "calls (whp_machine (snd (whp_resume h d))) = calls (whp_machine d) @ cs"
      "wv_partition vm' = wv_partition vm" "wv_memory vm' = wv_memory vm" "\<not> wv_thread vm"
      "wv_thread vm' \<and> cs = [SpawnVcpu (wv_partition vm)] \<or> \<not> wv_thread vm' \<and> cs = []"
      using Some by (auto simp: whp_resume_def Let_def split: if_splits result.splits)
    show ?thesis
    proof (rule owns_change [OF assms Some r(2,1)], goal_cases)
      case (2 s)
      then show ?case
        using coherent_fresh [OF 2(1)] r(3-6) by (cases s) (auto simp: with_vm_def)
    qed (use r(3,4) in simp)
  qed (use assms in simp)
qed (use assms in \<open>auto simp: whp_resume_def\<close>)

lemma owns_guest:
  assumes "owns d" shows "owns (guest_runs n exits d)"
proof (cases "whp_vms d n")
  case (Some vm)
  then show ?thesis
    by (intro owns_change [OF assms Some, of "guest_runs n exits d" "[]"])
      (auto simp: guest_runs_def with_vm_def)
qed (use assms in \<open>simp add: guest_runs_def\<close>)

section \<open>Every sequence of calls\<close>

text \<open>The states of a driver on a platform: a new driver, and what the methods, the guests and a
  poisoned lock make of it.  \<open>kill\<close> is \<open>stop\<close> and \<open>state\<close> changes nothing.\<close>

inductive whp_reach :: "WhpDriver \<Rightarrow> bool" where
  new: "wh_log w = [] \<Longrightarrow> whp_reach \<lparr>whp_vms = Map.empty, whp_poisoned = False, whp_machine = w\<rparr>"
| boot: "whp_reach d \<Longrightarrow> whp_boot_steps c d = Some (r, d') \<Longrightarrow> whp_reach d'"
| stop: "whp_reach d \<Longrightarrow> whp_reach (snd (whp_stop h d))"
| pause: "whp_reach d \<Longrightarrow> whp_reach (snd (whp_pause h d))"
| resume: "whp_reach d \<Longrightarrow> whp_reach (snd (whp_resume h d))"
| guest: "whp_reach d \<Longrightarrow> whp_reach (guest_runs n exits d)"
| poison: "whp_reach d \<Longrightarrow> whp_reach (d\<lparr>whp_poisoned := True\<rparr>)"

lemma whp_reach_owns: "whp_reach d \<Longrightarrow> owns d"
proof (induction rule: whp_reach.induct)
  case (new w)
  then show ?case by (simp add: owns_def nothing_def ledger_of_def separate_def)
next
  case (poison d)
  then show ?case by (simp add: owns_def split: result.splits)
qed (auto intro: owns_boot owns_stop owns_pause owns_resume owns_guest)

text \<open>Boot returns if the platform does not allocate 0 bytes.\<close>

definition refuses_empty :: "whp_api \<Rightarrow> bool" where
  "refuses_empty api \<longleftrightarrow> (\<forall>i. wa_alloc api i 0 = 0)"

lemma api_simps [simp]:
  "wh_api (wh_tick w) = wh_api w" "wh_api (wh_record cs w) = wh_api w" "wh_api (snd (wh_try cs w)) = wh_api w"
  "wh_api (delete_partition p w) = wh_api w" "wh_api (delete_vp_and_partition p w) = wh_api w"
  "wh_api (drop_memory m w) = wh_api w" "wh_api (snd (join_vcpu vm w)) = wh_api w"
  by (simp_all add: wh_tick_def wh_record_def wh_try_def delete_partition_def drop_memory_def
      delete_vp_and_partition_def join_vcpu_def)

lemma whp_boot_returns:
  assumes "refuses_empty (wh_api (whp_machine d))"
  shows "whp_boot_steps c d \<noteq> None"
proof -
  let ?bytes = "unat (cfg_memory_mb c * 1024 * 1024)"
  have "boot_memory c p d w \<noteq> None" if "wh_api w = wh_api (whp_machine d)" for p w
  proof (cases "?bytes = 0")
    case True
    then show ?thesis using that assms by (simp add: boot_memory_def allocate_def refuses_empty_def Let_def)
  next
    case False
    have "\<exists>x. guest_memory c (zeros ?bytes) fs = Some x" for fs
      using guest_memory_setup [OF memory_size_bound [OF False], of fs] by auto
    then obtain g where "\<And>fs. guest_memory c (zeros ?bytes) fs = Some (g fs)" by metis
    then show ?thesis
      by (auto simp: boot_memory_def allocate_def Let_def split: prod.splits result.splits option.splits if_splits)
  qed
  moreover have "wh_api (snd (is_available (whp_machine d))) = wh_api (whp_machine d)"
    by (simp add: is_available_def wh_try_def Let_def)
  ultimately show ?thesis
    by (auto simp: whp_boot_steps_def wh_try_def Let_def split: prod.splits result.splits)
qed

text \<open>The driver goes out of scope: its VMs are dropped, in the order of the table.\<close>

definition drop_driver :: "string list \<Rightarrow> WhpDriver \<Rightarrow> whp_host" where
  "drop_driver names d = fold (\<lambda>n w. case whp_vms d n of None \<Rightarrow> w | Some vm \<Rightarrow> drop_vm vm w) names (whp_machine d)"

definition table_calls :: "(string \<rightharpoonup> WhpVm) \<Rightarrow> string list \<Rightarrow> whp_call list" where
  "table_calls vms names = concat (map (\<lambda>n. case vms n of None \<Rightarrow> [] | Some vm \<Rightarrow> drop_calls vm) names)"

lemma drop_driver_log: "calls (drop_driver names d) = calls (whp_machine d) @ table_calls (whp_vms d) names"
proof -
  have "calls (fold (\<lambda>n w. case whp_vms d n of None \<Rightarrow> w | Some vm \<Rightarrow> drop_vm vm w) names w) = calls w @ table_calls (whp_vms d) names" for w
    by (induction names arbitrary: w) (auto simp: table_calls_def split: option.split)
  then show ?thesis by (simp add: drop_driver_def)
qed

lemma replay_table:
  "separate vms \<Longrightarrow> distinct names \<Longrightarrow> set names = dom vms \<Longrightarrow> replay (table_calls vms names) (ledger_of vms) = Ok nothing"
proof (induction names arbitrary: vms)
  case Nil
  then have "vms = Map.empty" by (metis dom_eq_empty_conv list.set(1))
  then show ?case by (simp add: table_calls_def ledger_of_def nothing_def)
next
  case (Cons n names)
  then obtain vm where vm: "vms n = Some vm" by (metis domD list.set_intros(1))
  let ?vms = "vms(n := None)"
  have "table_calls vms names = table_calls ?vms names"
    using Cons.prems(2) unfolding table_calls_def by (intro arg_cong [of _ _ concat] map_cong) auto
  then have "table_calls vms (n # names) = drop_calls vm @ table_calls ?vms names"
    using vm by (simp add: table_calls_def)
  moreover have "set names = dom ?vms" using Cons.prems(2) arg_cong [OF Cons.prems(3), of "\<lambda>S. S - {n}"] by simp
  then have "replay (table_calls ?vms names) (ledger_of ?vms) = Ok nothing"
    using Cons.IH [OF separate_remove [OF Cons.prems(1), of n]] Cons.prems(2) by (metis distinct.simps(2))
  ultimately show ?case
    using table_split [OF Cons.prems(1) vm] replay_drop by metis
qed


text \<open>A platform on which everything works.\<close>

definition working_api :: whp_api where
  "working_api = test_api\<lparr>wa_alloc := (\<lambda>i sz. if sz = 0 then 0 else 0x10000 + i)\<rparr>"

definition whp_fresh :: WhpDriver where
  "whp_fresh = \<lparr>whp_vms = Map.empty, whp_poisoned = False,
     whp_machine = \<lparr>wh_api = working_api, wh_calls = 0, wh_log = []\<rparr>\<rparr>"

lemma working_boot:
  "\<exists>h d vm. whp_boot_steps whp_config whp_fresh = Some (Ok h, d) \<and> whp_vms d = [''win'' \<mapsto> vm]
     \<and> is_ok (replay (wh_log (whp_machine d)) nothing) \<and> wh_api (whp_machine d) = working_api
     \<and> wv_partition vm = 8 \<and> gm_ptr (wv_memory vm) = 0x10004"
proof -
  obtain mem where mem: "guest_memory whp_config (zeros 0x1000000) kernel_fs = Some (Ok KERNEL_ADDR, mem)"
    using whp_config_memory by auto
  have c: "cfg_name whp_config = ''win''" "cfg_memory_mb whp_config = 16" by (simp_all add: whp_config_def)
  have "case whp_boot_steps whp_config whp_fresh of Some (r, d) \<Rightarrow> is_ok r \<and> dom (whp_vms d) = {''win''}
     \<and> is_ok (replay (wh_log (whp_machine d)) nothing) \<and> wh_api (whp_machine d) = working_api
     \<and> map_option wv_partition (whp_vms d ''win'') = Some 8
     \<and> map_option (\<lambda>vm. gm_ptr (wv_memory vm)) (whp_vms d ''win'') = Some 0x10004 | None \<Rightarrow> False"
    by (simp add: whp_boot_steps_def boot_memory_def allocate_def start_vcpu_def whp_fresh_def working_api_def test_api_def
        is_available_def wh_try_def wh_tick_def wh_record_def c mem setup_initial_registers_def set_segment_registers_def
        set_registers_def vcpu_start_def nothing_def Let_def)
  then show ?thesis
    by (auto simp: is_ok_iff dom_eq_singleton_conv split: option.splits prod.splits)
qed


text \<open>Stopping a VM deletes its partition and its processor twice: \<open>stop\<close> deletes them and then
  drops the table entry, whose \<open>Drop\<close> deletes them again.  The VM is gone from the table and
  \<open>kill\<close> does the same.\<close>

theorem whp_stop_deletes_twice:
  assumes "\<not> whp_poisoned d" "whp_vms d (h_name h) = Some vm"
  shows "fst (whp_stop h d) = Ok () \<and> whp_vms (snd (whp_stop h d)) = (whp_vms d)(h_name h := None)
    \<and> (\<exists>cs. calls (whp_machine (snd (whp_stop h d))) = calls (whp_machine d) @ cs
         \<and> count_list cs (DeletePartition (wv_partition vm) True) = 2) \<and> whp_kill h d = whp_stop h d"
  using assms whp_stop_log [OF assms(2,1)]
  by (auto simp: whp_kill_def drop_calls_def) (simp add: whp_stop_def Let_def split: prod.splits)

theorem whp_stop_deletes_twice_witness:
  "count_list (calls (whp_machine (snd (whp_stop win_handle whp_running)))) (DeletePartition 8 True) = 2"
  using whp_stop_deletes_twice [of whp_running win_handle idle_vm]
  by (auto simp: whp_running_def whp_new_def win_handle_def idle_vm_def)

text \<open>The results of the calls that give something back are ignored.  When the platform does not delete
  the partition of a VM that is dropped, the partition is lost and the memory that is still mapped
  into it is freed all the same.\<close>

theorem whp_frees_after_failed_delete:
  assumes "\<not> is_ok (wa_call (wh_api w) (wh_calls w + 2))" "is_ok (wa_call (wh_api w) (wh_calls w + 3))"
    and "\<not> wv_thread vm" "gm_ptr (wv_memory vm) \<noteq> 0"
  shows "\<exists>ok. wh_log (drop_vm vm w) = wh_log w @ [CancelRun (wv_partition vm), DeleteVirtualProcessor (wv_partition vm) ok,
     DeletePartition (wv_partition vm) False, FreeMemory (gm_ptr (wv_memory vm)) True]"
  using assms
  by (simp add: drop_vm_def join_vcpu_def drop_memory_def delete_vp_and_partition_def delete_partition_def
      released_def wh_record_def wh_tick_def Let_def numeral_eq_Suc)

end
