(* ===== verification/Objc.thy ===== *)
theory Objc
  imports Rust_Str "HOL-Library.State_Monad" "HOL-Library.Multiset"
begin

text \<open>
  Objective-C messages as the bindings under \<open>src/ffi/apple_vz\<close> send them, and the ownership of the
  objects they handle.  The frameworks are an oracle: the message of number \<open>n\<close> is answered by
  \<open>oc_framework\<close>.  Every message, \<open>retain\<close> and \<open>release\<close> is recorded, and the references the process
  owns are read off the record by the naming rule of Cocoa: \<open>alloc\<close> and \<open>new\<close> return a reference
  that the caller owns, \<open>init\<close> takes the one of its receiver and returns one, every other method
  returns a reference that the caller does not own.  \<open>StrongPtr\<close> holds one owned reference and
  releases it when it is dropped.  Dropping is written out, in the order in which Rust drops:
  locals in reverse order of declaration, then arguments, temporaries at the end of their
  statement.
\<close>

section \<open>Messages\<close>

type_synonym Id = nat

abbreviation NIL :: Id where "NIL \<equiv> 0"

datatype receiver = Class string | Obj Id

datatype objc_arg =
    IdArg Id
  | IdsArg "Id list"
  | TextArg string
  | BytesArg bytes
  | NumArg int
  | BoolArg bool
  | ErrorArg
  | BlockArg nat

text \<open>What a method returns, as a pointer, as a number, and as the memory a returned pointer refers
  to; and what it leaves in an error argument.\<close>

record reply =
  rp_id :: Id
  rp_num :: int
  rp_memory :: bytes
  rp_error :: Id

datatype objc_event =
    Message receiver string "objc_arg list" Id
  | Retain Id
  | Release Id

record objc =
  oc_framework :: "nat \<Rightarrow> receiver \<Rightarrow> string \<Rightarrow> objc_arg list \<Rightarrow> reply"
  oc_log :: "objc_event list"

type_synonym 'a objc_op = "(objc, 'a) state"

definition log_event :: "objc_event \<Rightarrow> objc \<Rightarrow> objc" where
  "log_event ev w = w\<lparr>oc_log := oc_log w @ [ev]\<rparr>"

definition msg_send :: "receiver \<Rightarrow> string \<Rightarrow> objc_arg list \<Rightarrow> reply objc_op" where
  "msg_send r sel args = State (\<lambda>w. let x = oc_framework w (length (oc_log w)) r sel args
     in (x, log_event (Message r sel args (rp_id x)) w))"

text \<open>\<open>StrongPtr::new\<close>, \<open>StrongPtr::retain\<close> and the drop of a \<open>StrongPtr\<close>.\<close>

definition strong_new :: "Id \<Rightarrow> Id objc_op" where
  "strong_new p = State_Monad.return p"

definition strong_retain :: "Id \<Rightarrow> Id objc_op" where
  "strong_retain p = State (\<lambda>w. (p, log_event (Retain p) w))"

definition drop_ptr :: "Id \<Rightarrow> unit objc_op" where
  "drop_ptr p = State (\<lambda>w. ((), log_event (Release p) w))"

fun drop_all :: "Id list \<Rightarrow> unit objc_op" where
  "drop_all [] = State_Monad.return ()"
| "drop_all (p # ps) = do { drop_ptr p; drop_all ps }"

section \<open>Ownership\<close>

definition creates :: "string \<Rightarrow> bool" where
  "creates sel \<longleftrightarrow> starts_with ''alloc'' sel \<or> starts_with ''new'' sel"

definition inits :: "string \<Rightarrow> bool" where
  "inits sel \<longleftrightarrow> starts_with ''init'' sel"

text \<open>A reference to an object; nil is none.\<close>

definition ref :: "Id \<Rightarrow> Id multiset" where
  "ref p = (if p = NIL then {#} else {#p#})"

definition refs :: "Id list \<Rightarrow> Id multiset" where
  "refs ps = sum_list (map ref ps)"

text \<open>The references owned after an event, and whether the event gave up one that was not owned.\<close>

fun owned_by :: "objc_event \<Rightarrow> Id multiset \<Rightarrow> Id multiset" where
  "owned_by (Message r sel args p) M =
     (if creates sel then M + ref p
      else if inits sel then (case r of Obj i \<Rightarrow> M - ref i | Class _ \<Rightarrow> M) + ref p
      else M)"
| "owned_by (Retain p) M = M + ref p"
| "owned_by (Release p) M = M - ref p"

fun gives_up :: "objc_event \<Rightarrow> Id multiset" where
  "gives_up (Message r sel args p) =
     (if inits sel \<and> \<not> creates sel then (case r of Obj i \<Rightarrow> ref i | Class _ \<Rightarrow> {#}) else {#})"
| "gives_up (Retain p) = {#}"
| "gives_up (Release p) = ref p"

definition ownership :: "objc_event list \<Rightarrow> Id multiset \<times> bool" where
  "ownership evs = fold (\<lambda>ev (M, ok). (owned_by ev M, ok \<and> gives_up ev \<subseteq># M)) evs ({#}, True)"

definition owned :: "objc \<Rightarrow> Id multiset" where
  "owned w = fst (ownership (oc_log w))"

definition sound :: "objc \<Rightarrow> bool" where
  "sound w \<longleftrightarrow> snd (ownership (oc_log w))"

lemma ownership_snoc:
  "ownership (evs @ [ev])
     = (owned_by ev (fst (ownership evs)), snd (ownership evs) \<and> gives_up ev \<subseteq># fst (ownership evs))"
  by (simp add: ownership_def split_beta)

lemma log_event_ownership [simp]:
  "owned (log_event ev w) = owned_by ev (owned w)"
  "sound (log_event ev w) \<longleftrightarrow> sound w \<and> gives_up ev \<subseteq># owned w"
  by (simp_all add: owned_def sound_def log_event_def ownership_snoc)

lemma log_event_framework [simp]: "oc_framework (log_event ev w) = oc_framework w"
  by (simp add: log_event_def)

lemma ref_simps [simp]: "ref NIL = {#}" "refs [] = {#}" "refs (p # ps) = ref p + refs ps"
  by (simp_all add: ref_def refs_def)

section \<open>Ownership of a computation\<close>

text \<open>
  \<open>owning P m Q\<close>: run where the references \<open>P\<close> are owned (and any others besides), \<open>m\<close> gives up
  nothing it does not own and leaves, with its result \<open>x\<close>, references \<open>N\<close> with \<open>Q x N\<close> in the place of \<open>P\<close>.
\<close>

definition owning :: "Id multiset \<Rightarrow> 'a objc_op \<Rightarrow> ('a \<Rightarrow> Id multiset \<Rightarrow> bool) \<Rightarrow> bool" where
  "owning P m Q \<longleftrightarrow> (\<forall>w M x w'. sound w \<and> owned w = M + P \<and> run_state m w = (x, w') \<longrightarrow>
     sound w' \<and> (\<exists>N. Q x N \<and> owned w' = M + N))"

definition makes :: "Id multiset \<Rightarrow> 'a objc_op \<Rightarrow> ('a \<Rightarrow> Id multiset) \<Rightarrow> bool" where
  "makes P m R \<longleftrightarrow> owning P m (\<lambda>x N. N = R x)"

lemma owning_return: "Q x P \<Longrightarrow> owning P (State_Monad.return x) Q"
  by (auto simp: owning_def)

lemma owning_bind_call:
  assumes "owning A m R" "A \<subseteq># P" "\<And>x N. R x N \<Longrightarrow> owning (P - A + N) (f x) Q"
  shows "owning P (m \<bind> f) Q"
  unfolding owning_def
proof (intro allI impI, elim conjE)
  fix w M y w2
  assume w: "sound w" "owned w = M + P" "run_state (m \<bind> f) w = (y, w2)"
  obtain x w1 where m: "run_state m w = (x, w1)" by force
  have "owned w = (M + (P - A)) + A" using w(2) assms(2) by (auto simp: mset_subset_eq_exists_conv ac_simps)
  then obtain N where N: "sound w1" "R x N" "owned w1 = M + (P - A) + N"
    using assms(1) w(1) m unfolding owning_def by blast
  moreover have "run_state (f x) w1 = (y, w2)" using w(3) m by simp
  ultimately show "sound w2 \<and> (\<exists>N. Q y N \<and> owned w2 = M + N)"
    using assms(3) [OF N(2)] unfolding owning_def by (metis add.assoc)
qed

lemma owning_call:
  assumes "owning A m R" "A \<subseteq># P" "\<And>x N. R x N \<Longrightarrow> Q x (P - A + N)"
  shows "owning P m Q"
proof -
  have "owning P (m \<bind> State_Monad.return) Q"
    by (rule owning_bind_call [OF assms(1,2)]) (rule owning_return, rule assms(3))
  then show ?thesis by simp
qed

lemma owning_msg:
  "(inits s \<Longrightarrow> \<not> creates s \<Longrightarrow> (case r of Obj i \<Rightarrow> ref i | Class _ \<Rightarrow> {#}) \<subseteq># P) \<Longrightarrow>
     owning P (msg_send r s args) (\<lambda>x N. N = owned_by (Message r s args (rp_id x)) P)"
  by (auto simp: owning_def msg_send_def Let_def mset_subset_eq_exists_conv split: receiver.splits)

lemma owning_retain: "owning P (strong_retain p) (\<lambda>x N. x = p \<and> N = P + ref p)"
  by (auto simp: owning_def strong_retain_def)

lemma owning_drop: "ref p \<subseteq># P \<Longrightarrow> owning P (drop_ptr p) (\<lambda>_ N. N = P - ref p)"
  by (auto simp: owning_def drop_ptr_def mset_subset_eq_exists_conv)

text \<open>The same, followed by the rest of a block.\<close>

lemma owning_then_msg:
  assumes "inits s \<Longrightarrow> \<not> creates s \<Longrightarrow> (case r of Obj i \<Rightarrow> ref i | Class _ \<Rightarrow> {#}) \<subseteq># P"
    "\<And>x. owning (owned_by (Message r s args (rp_id x)) P) (f x) Q"
  shows "owning P (msg_send r s args \<bind> f) Q"
  by (rule owning_bind_call [OF owning_msg [OF assms(1)]]) (use assms(2) in auto)

lemma owning_then_retain: "owning (P + ref p) (f p) Q \<Longrightarrow> owning P (strong_retain p \<bind> f) Q"
  by (rule owning_bind_call [OF owning_retain]) auto

lemma owning_then_drop: "ref p \<subseteq># P \<Longrightarrow> owning (P - ref p) (f ()) Q \<Longrightarrow> owning P (drop_ptr p \<bind> f) Q"
  by (rule owning_bind_call [OF owning_drop]) auto

lemma owning_then_makes:
  "makes A m R \<Longrightarrow> A \<subseteq># P \<Longrightarrow> (\<And>x. owning (P - A + R x) (f x) Q) \<Longrightarrow> owning P (m \<bind> f) Q"
  unfolding makes_def by (erule owning_bind_call) auto

lemma owning_makes:
  "makes A m R \<Longrightarrow> A \<subseteq># P \<Longrightarrow> (\<And>x. Q x (P - A + R x)) \<Longrightarrow> owning P m Q"
  unfolding makes_def by (erule owning_call) auto

lemma makes_drop: "makes (ref p) (drop_ptr p) (\<lambda>_. {#})"
  unfolding makes_def using owning_drop [of p "ref p"] by simp

lemma makes_drop_all: "makes (refs ps) (drop_all ps) (\<lambda>_. {#})"
proof (induction ps)
  case (Cons p ps)
  show ?case
    unfolding makes_def drop_all.simps
    by (rule owning_then_drop, simp) (rule owning_makes [OF Cons], simp_all)
qed (simp add: makes_def owning_return)

lemma owning_last_drop: "ref p \<subseteq># P \<Longrightarrow> Q () (P - ref p) \<Longrightarrow> owning P (drop_ptr p) Q"
  by (rule owning_call [OF owning_drop]) auto

lemma owning_last_retain: "Q p (P + ref p) \<Longrightarrow> owning P (strong_retain p) Q"
  by (rule owning_call [OF owning_retain]) auto

lemma owning_if: "(c \<Longrightarrow> owning P m Q) \<Longrightarrow> (\<not> c \<Longrightarrow> owning P n Q) \<Longrightarrow> owning P (if c then m else n) Q"
  by simp

lemmas selector_simps = creates_def inits_def starts_with_def

text \<open>\<open>StrongPtr::new\<close> keeps the reference it is given.\<close>

lemmas block_simps = strong_new_def State_Monad.bind_left_identity

lemmas owning_rules = owning_last_drop owning_last_retain owning_return owning_then_msg owning_then_retain owning_then_drop

end
