(* ===== verification/Vz_Objects.thy ===== *)
theory Vz_Objects
  imports Objc Apple_Vz
begin

text \<open>
  \<open>src/ffi/apple_vz\<close>: the bindings of the Foundation and Virtualization frameworks, one definition
  per method, as the messages it sends and the references it keeps and drops.  A wrapper type
  (\<open>NSString\<close>, \<open>VZMACAddress\<close> and so on) is the identity of its object; a method that takes a wrapper by
  value drops it at its end, unless it is moved into a message.
\<close>

section \<open>Foundation\<close>

text \<open>\<open>base.rs\<close>: arrays.\<close>

definition array_with_objects :: "Id list \<Rightarrow> Id objc_op" where
  "array_with_objects objects = do {
     x \<leftarrow> msg_send (Class ''NSArray'') ''arrayWithObjects:count:''
       [IdsArg objects, NumArg (int (length objects))];
     strong_new (rp_id x) }"

definition nsarray_count :: "Id \<Rightarrow> int objc_op" where
  "nsarray_count a = do { x \<leftarrow> msg_send (Obj a) ''count'' []; State_Monad.return (rp_num x) }"

definition object_at_index :: "Id \<Rightarrow> nat \<Rightarrow> Id objc_op" where
  "object_at_index a index = do {
     x \<leftarrow> msg_send (Obj a) ''objectAtIndex:'' [NumArg (int index)];
     strong_retain (rp_id x) }"

text \<open>Strings.\<close>

definition UTF8_ENCODING :: int where "UTF8_ENCODING = 4"

definition nsstring_new :: "string \<Rightarrow> Id objc_op" where
  "nsstring_new s = do {
     i \<leftarrow> msg_send (Class ''NSString'') ''alloc'' [];
     x \<leftarrow> msg_send (Obj (rp_id i)) ''initWithBytes:length:encoding:''
       [TextArg s, NumArg (int (length s)), NumArg UTF8_ENCODING];
     strong_new (rp_id x) }"

definition nsstring_len :: "Id \<Rightarrow> nat objc_op" where
  "nsstring_len s = do {
     x \<leftarrow> msg_send (Obj s) ''lengthOfBytesUsingEncoding:'' [NumArg UTF8_ENCODING];
     State_Monad.return (nat (rp_num x)) }"

definition nsstring_is_empty :: "Id \<Rightarrow> bool objc_op" where
  "nsstring_is_empty s = do { n \<leftarrow> nsstring_len s; State_Monad.return (n = 0) }"

definition as_str :: "Id \<Rightarrow> string objc_op" where
  "as_str s = do {
     x \<leftarrow> msg_send (Obj s) ''UTF8String'' [];
     n \<leftarrow> nsstring_len s;
     State_Monad.return (from_utf8_lossy (take n (rp_memory x))) }"

text \<open>URLs.  The string is moved into the message, so it is not dropped.\<close>

definition url_with_string :: "string \<Rightarrow> Id objc_op" where
  "url_with_string url = do {
     url_nsstring \<leftarrow> nsstring_new url;
     x \<leftarrow> msg_send (Class ''NSURL'') ''URLWithString:'' [IdArg url_nsstring];
     strong_retain (rp_id x) }"

definition file_url_with_path :: "string \<Rightarrow> bool \<Rightarrow> Id objc_op" where
  "file_url_with_path p is_directory = do {
     path_nsstring \<leftarrow> nsstring_new p;
     x \<leftarrow> msg_send (Class ''NSURL'') ''fileURLWithPath:isDirectory:''
       [IdArg path_nsstring, BoolArg is_directory];
     strong_retain (rp_id x) }"

definition check_resource_is_reachable :: "Id \<Rightarrow> bool objc_op" where
  "check_resource_is_reachable u = do {
     x \<leftarrow> msg_send (Obj u) ''checkResourceIsReachableAndReturnError:'' [IdArg NIL];
     State_Monad.return (rp_num x = 1) }"

definition absolute_url :: "Id \<Rightarrow> Id objc_op" where
  "absolute_url u = do { x \<leftarrow> msg_send (Obj u) ''absoluteURL'' []; strong_retain (rp_id x) }"

text \<open>File handles.\<close>

definition file_handle_new :: "Id objc_op" where
  "file_handle_new = do { x \<leftarrow> msg_send (Class ''NSFileHandle'') ''new'' []; strong_new (rp_id x) }"

definition file_handle_with_standard_input :: "Id objc_op" where
  "file_handle_with_standard_input = do {
     x \<leftarrow> msg_send (Class ''NSFileHandle'') ''fileHandleWithStandardInput'' [];
     strong_retain (rp_id x) }"

definition file_handle_with_standard_output :: "Id objc_op" where
  "file_handle_with_standard_output = do {
     x \<leftarrow> msg_send (Class ''NSFileHandle'') ''fileHandleWithStandardOutput'' [];
     strong_retain (rp_id x) }"

definition file_handle_with_fd :: "int \<Rightarrow> Id objc_op" where
  "file_handle_with_fd fd = do {
     i \<leftarrow> msg_send (Class ''NSFileHandle'') ''alloc'' [];
     x \<leftarrow> msg_send (Obj (rp_id i)) ''initWithFileDescriptor:closeOnDealloc:'' [NumArg fd, BoolArg True];
     strong_new (rp_id x) }"

text \<open>Dictionaries and errors.\<close>

definition all_keys :: "Id \<Rightarrow> Id objc_op" where
  "all_keys d = do { x \<leftarrow> msg_send (Obj d) ''allKeys'' []; strong_retain (rp_id x) }"

definition all_values :: "Id \<Rightarrow> Id objc_op" where
  "all_values d = do { x \<leftarrow> msg_send (Obj d) ''allValues'' []; strong_retain (rp_id x) }"

definition nserror_nil :: "Id objc_op" where
  "nserror_nil = strong_new NIL"

definition nserror_code :: "Id \<Rightarrow> int objc_op" where
  "nserror_code e =
     (if e = NIL then State_Monad.return 0
      else do { x \<leftarrow> msg_send (Obj e) ''code'' []; State_Monad.return (rp_num x) })"

definition localized_description :: "Id \<Rightarrow> Id objc_op" where
  "localized_description e = do {
     x \<leftarrow> msg_send (Obj e) ''localizedDescription'' []; strong_retain (rp_id x) }"

definition localized_failure_reason :: "Id \<Rightarrow> Id objc_op" where
  "localized_failure_reason e = do {
     x \<leftarrow> msg_send (Obj e) ''localizedFailureReason'' []; strong_retain (rp_id x) }"

definition localized_recovery_suggestion :: "Id \<Rightarrow> Id objc_op" where
  "localized_recovery_suggestion e = do {
     x \<leftarrow> msg_send (Obj e) ''localizedRecoverySuggestion'' []; strong_retain (rp_id x) }"

definition help_anchor :: "Id \<Rightarrow> Id objc_op" where
  "help_anchor e = do { x \<leftarrow> msg_send (Obj e) ''helpAnchor'' []; strong_retain (rp_id x) }"

definition user_info :: "Id \<Rightarrow> Id objc_op" where
  "user_info e = do { x \<leftarrow> msg_send (Obj e) ''userInfo'' []; strong_retain (rp_id x) }"

definition safe_str :: "Id \<Rightarrow> string objc_op" where
  "safe_str s = (if s = NIL then State_Monad.return ''(nil)'' else as_str s)"

text \<open>\<open>dump\<close>: the texts it logs; none for nil.\<close>

definition nserror_dump :: "Id \<Rightarrow> (int \<times> string list) option objc_op" where
  "nserror_dump e =
     (if e = NIL then State_Monad.return None
      else do {
        code \<leftarrow> nserror_code e;
        desc \<leftarrow> localized_description e;
        reason \<leftarrow> localized_failure_reason e;
        suggestion \<leftarrow> localized_recovery_suggestion e;
        anchor \<leftarrow> help_anchor e;
        t1 \<leftarrow> safe_str desc; t2 \<leftarrow> safe_str reason; t3 \<leftarrow> safe_str suggestion; t4 \<leftarrow> safe_str anchor;
        drop_ptr anchor; drop_ptr suggestion; drop_ptr reason; drop_ptr desc;
        State_Monad.return (Some (code, [t1, t2, t3, t4])) })"

section \<open>Boot loader\<close>

text \<open>The builder keeps which of its parts are set in its type, as the source does.\<close>

record ('k, 'i, 'c) VZLinuxBootLoaderBuilder =
  lb_kernel_url :: 'k
  lb_initial_ramdisk_url :: 'i
  lb_command_line :: 'c

definition boot_loader_builder_new :: "(unit, unit, unit) VZLinuxBootLoaderBuilder" where
  "boot_loader_builder_new = \<lparr>lb_kernel_url = (), lb_initial_ramdisk_url = (), lb_command_line = ()\<rparr>"

definition lb_set_kernel_url ::
  "string \<Rightarrow> ('k, 'i, 'c) VZLinuxBootLoaderBuilder \<Rightarrow> (string, 'i, 'c) VZLinuxBootLoaderBuilder" where
  "lb_set_kernel_url u b = \<lparr>lb_kernel_url = u, lb_initial_ramdisk_url = lb_initial_ramdisk_url b,
     lb_command_line = lb_command_line b\<rparr>"

definition lb_set_initial_ramdisk_url ::
  "string \<Rightarrow> ('k, 'i, 'c) VZLinuxBootLoaderBuilder \<Rightarrow> ('k, string, 'c) VZLinuxBootLoaderBuilder" where
  "lb_set_initial_ramdisk_url u b = \<lparr>lb_kernel_url = lb_kernel_url b, lb_initial_ramdisk_url = u,
     lb_command_line = lb_command_line b\<rparr>"

definition lb_set_command_line ::
  "string \<Rightarrow> ('k, 'i, 'c) VZLinuxBootLoaderBuilder \<Rightarrow> ('k, 'i, string) VZLinuxBootLoaderBuilder" where
  "lb_set_command_line c b = \<lparr>lb_kernel_url = lb_kernel_url b,
     lb_initial_ramdisk_url = lb_initial_ramdisk_url b, lb_command_line = c\<rparr>"

definition boot_loader_new :: "string \<Rightarrow> string \<Rightarrow> string \<Rightarrow> Id objc_op" where
  "boot_loader_new kernel_url initial_ramdisk_url command_line = do {
     k \<leftarrow> file_url_with_path kernel_url False;
     kernel_url_nsurl \<leftarrow> absolute_url k;
     drop_ptr k;
     r \<leftarrow> file_url_with_path initial_ramdisk_url False;
     initial_ramdisk_url_nsurl \<leftarrow> absolute_url r;
     drop_ptr r;
     command_line_nsstring \<leftarrow> nsstring_new command_line;
     x \<leftarrow> msg_send (Class ''VZLinuxBootLoader'') ''new'' [];
     p \<leftarrow> strong_new (rp_id x);
     msg_send (Obj p) ''setKernelURL:'' [IdArg kernel_url_nsurl];
     msg_send (Obj p) ''setInitialRamdiskURL:'' [IdArg initial_ramdisk_url_nsurl];
     msg_send (Obj p) ''setCommandLine:'' [IdArg command_line_nsstring];
     drop_ptr command_line_nsstring;
     drop_ptr initial_ramdisk_url_nsurl;
     drop_ptr kernel_url_nsurl;
     State_Monad.return p }"

definition boot_loader_build :: "(string, string, string) VZLinuxBootLoaderBuilder \<Rightarrow> Id objc_op" where
  "boot_loader_build b = boot_loader_new (lb_kernel_url b) (lb_initial_ramdisk_url b) (lb_command_line b)"

section \<open>Devices\<close>

text \<open>A device that is created with \<open>new\<close> and nothing else.\<close>

definition new_object :: "string \<Rightarrow> Id objc_op" where
  "new_object cls = do { x \<leftarrow> msg_send (Class cls) ''new'' []; strong_new (rp_id x) }"

definition entropy_device_new :: "Id objc_op" where
  "entropy_device_new = new_object ''VZVirtioEntropyDeviceConfiguration''"

definition memory_balloon_new :: "Id objc_op" where
  "memory_balloon_new = new_object ''VZVirtioTraditionalMemoryBalloonDeviceConfiguration''"

definition nat_attachment_new :: "Id objc_op" where
  "nat_attachment_new = new_object ''VZNATNetworkDeviceAttachment''"

definition platform_configuration_new :: "Id objc_op" where
  "platform_configuration_new = new_object ''VZGenericPlatformConfiguration''"

definition machine_identifier_new :: "Id objc_op" where
  "machine_identifier_new = new_object ''VZGenericMachineIdentifier''"

definition mac_address_new :: "Id objc_op" where
  "mac_address_new = new_object ''VZMACAddress''"

text \<open>\<open>platform.rs\<close>.\<close>

definition set_machine_identifier :: "Id \<Rightarrow> Id \<Rightarrow> unit objc_op" where
  "set_machine_identifier c identifier = do {
     msg_send (Obj c) ''setMachineIdentifier:'' [IdArg identifier]; State_Monad.return () }"

definition machine_identifier_from_data :: "bytes \<Rightarrow> Id option objc_op" where
  "machine_identifier_from_data d = do {
     nsdata_alloc \<leftarrow> msg_send (Class ''NSData'') ''alloc'' [];
     nsdata \<leftarrow> msg_send (Obj (rp_id nsdata_alloc)) ''initWithBytes:length:''
       [BytesArg d, NumArg (int (length d))];
     if rp_id nsdata = NIL then State_Monad.return None
     else do {
       nsdata \<leftarrow> strong_new (rp_id nsdata);
       i \<leftarrow> msg_send (Class ''VZGenericMachineIdentifier'') ''alloc'' [];
       p \<leftarrow> msg_send (Obj (rp_id i)) ''initWithDataRepresentation:'' [IdArg nsdata];
       r \<leftarrow> (if rp_id p = NIL then State_Monad.return None
            else do { q \<leftarrow> strong_new (rp_id p); State_Monad.return (Some q) });
       drop_ptr nsdata;
       State_Monad.return r } }"

definition data_representation :: "Id \<Rightarrow> bytes objc_op" where
  "data_representation m = do {
     d \<leftarrow> msg_send (Obj m) ''dataRepresentation'' [];
     if rp_id d = NIL then State_Monad.return []
     else do {
       n \<leftarrow> msg_send (Obj (rp_id d)) ''length'' [];
       b \<leftarrow> msg_send (Obj (rp_id d)) ''bytes'' [];
       State_Monad.return (take (nat (rp_num n)) (rp_memory b)) } }"

text \<open>\<open>network_device.rs\<close>.  The default methods of \<open>VZBridgedNetworkInterface\<close> address
  \<open>class!(_obj)\<close>: the macro takes the name it is given for the name of a class, and panics
  (\<open>None\<close>) when the runtime has no class of that name.  \<open>registered\<close> says which classes the
  runtime has.\<close>

definition localized_display_name :: "(string \<Rightarrow> bool) \<Rightarrow> Id \<Rightarrow> Id objc_op option" where
  "localized_display_name registered interface =
     (if registered ''_obj''
      then Some (do { x \<leftarrow> msg_send (Class ''_obj'') ''localizedDisplayName'' []; strong_retain (rp_id x) })
      else None)"

definition interface_identifier :: "(string \<Rightarrow> bool) \<Rightarrow> Id \<Rightarrow> Id objc_op option" where
  "interface_identifier registered interface =
     (if registered ''_obj''
      then Some (do { x \<leftarrow> msg_send (Class ''_obj'') ''identifier'' []; strong_retain (rp_id x) })
      else None)"

definition bridged_attachment_new :: "Id \<Rightarrow> Id objc_op" where
  "bridged_attachment_new interface = do {
     i \<leftarrow> msg_send (Class ''VZBridgedNetworkDeviceAttachment'') ''alloc'' [];
     x \<leftarrow> msg_send (Obj (rp_id i)) ''initWithInterface:'' [IdArg interface];
     p \<leftarrow> strong_new (rp_id x);
     drop_ptr interface;
     State_Monad.return p }"

definition file_handle_attachment_new :: "Id \<Rightarrow> Id objc_op" where
  "file_handle_attachment_new file_handle = do {
     i \<leftarrow> msg_send (Class ''VZFileHandleNetworkDeviceAttachment'') ''alloc'' [];
     x \<leftarrow> msg_send (Obj (rp_id i)) ''initWithFileHandle:'' [IdArg file_handle];
     p \<leftarrow> strong_new (rp_id x);
     drop_ptr file_handle;
     State_Monad.return p }"

definition random_locally_administered_address :: "Id objc_op" where
  "random_locally_administered_address = do {
     x \<leftarrow> msg_send (Class ''VZMACAddress'') ''randomLocallyAdministeredAddress'' [];
     strong_new (rp_id x) }"

definition mac_address_with_string :: "string \<Rightarrow> Id objc_op" where
  "mac_address_with_string s = do {
     str \<leftarrow> nsstring_new s;
     x \<leftarrow> msg_send (Class ''VZMACAddress'') ''initWithString:'' [IdArg str];
     p \<leftarrow> strong_new (rp_id x);
     drop_ptr str;
     State_Monad.return p }"

definition network_device_new :: "Id \<Rightarrow> Id objc_op" where
  "network_device_new attachment = do {
     x \<leftarrow> msg_send (Class ''VZVirtioNetworkDeviceConfiguration'') ''new'' [];
     p \<leftarrow> strong_new (rp_id x);
     msg_send (Obj p) ''setAttachment:'' [IdArg attachment];
     drop_ptr attachment;
     State_Monad.return p }"

definition set_attachment :: "Id \<Rightarrow> Id \<Rightarrow> unit objc_op" where
  "set_attachment nic attachment = do {
     msg_send (Obj nic) ''setAttachment:'' [IdArg attachment]; drop_ptr attachment }"

definition set_mac_address :: "Id \<Rightarrow> Id \<Rightarrow> unit objc_op" where
  "set_mac_address nic mac = do {
     msg_send (Obj nic) ''setMACAddress:'' [IdArg mac]; drop_ptr mac }"

text \<open>\<open>serial_port.rs\<close>.\<close>

record ('r, 'w) VZFileHandleSerialPortAttachmentBuilder =
  sb_file_handle_for_reading :: 'r
  sb_file_handle_for_writing :: 'w

definition serial_builder_new :: "(unit, unit) VZFileHandleSerialPortAttachmentBuilder" where
  "serial_builder_new = \<lparr>sb_file_handle_for_reading = (), sb_file_handle_for_writing = ()\<rparr>"

definition sb_set_reading ::
  "Id \<Rightarrow> ('r, 'w) VZFileHandleSerialPortAttachmentBuilder \<Rightarrow> (Id, 'w) VZFileHandleSerialPortAttachmentBuilder" where
  "sb_set_reading h b = \<lparr>sb_file_handle_for_reading = h,
     sb_file_handle_for_writing = sb_file_handle_for_writing b\<rparr>"

definition sb_set_writing ::
  "Id \<Rightarrow> ('r, 'w) VZFileHandleSerialPortAttachmentBuilder \<Rightarrow> ('r, Id) VZFileHandleSerialPortAttachmentBuilder" where
  "sb_set_writing h b = \<lparr>sb_file_handle_for_reading = sb_file_handle_for_reading b,
     sb_file_handle_for_writing = h\<rparr>"

definition serial_attachment_new :: "Id \<Rightarrow> Id \<Rightarrow> Id objc_op" where
  "serial_attachment_new for_reading for_writing = do {
     i \<leftarrow> msg_send (Class ''VZFileHandleSerialPortAttachment'') ''alloc'' [];
     x \<leftarrow> msg_send (Obj (rp_id i)) ''initWithFileHandleForReading:fileHandleForWriting:''
       [IdArg for_reading, IdArg for_writing];
     p \<leftarrow> strong_new (rp_id x);
     drop_ptr for_writing;
     drop_ptr for_reading;
     State_Monad.return p }"

definition serial_attachment_build :: "(Id, Id) VZFileHandleSerialPortAttachmentBuilder \<Rightarrow> Id objc_op" where
  "serial_attachment_build b =
     serial_attachment_new (sb_file_handle_for_reading b) (sb_file_handle_for_writing b)"

definition serial_port_new :: "Id \<Rightarrow> Id objc_op" where
  "serial_port_new attachment = do {
     x \<leftarrow> msg_send (Class ''VZVirtioConsoleDeviceSerialPortConfiguration'') ''new'' [];
     p \<leftarrow> strong_new (rp_id x);
     msg_send (Obj p) ''setAttachment:'' [IdArg attachment];
     drop_ptr attachment;
     State_Monad.return p }"

text \<open>\<open>shared_directory.rs\<close>.\<close>

definition file_system_device_new :: "string \<Rightarrow> Id objc_op" where
  "file_system_device_new tag = do {
     tag_ns \<leftarrow> nsstring_new tag;
     i \<leftarrow> msg_send (Class ''VZVirtioFileSystemDeviceConfiguration'') ''alloc'' [];
     x \<leftarrow> msg_send (Obj (rp_id i)) ''initWithTag:'' [IdArg tag_ns];
     p \<leftarrow> strong_new (rp_id x);
     drop_ptr tag_ns;
     State_Monad.return p }"

definition set_share :: "Id \<Rightarrow> Id \<Rightarrow> unit objc_op" where
  "set_share dev share = do { msg_send (Obj dev) ''setShare:'' [IdArg share]; drop_ptr share }"

definition single_directory_share_new :: "Id \<Rightarrow> Id objc_op" where
  "single_directory_share_new directory = do {
     i \<leftarrow> msg_send (Class ''VZSingleDirectoryShare'') ''alloc'' [];
     x \<leftarrow> msg_send (Obj (rp_id i)) ''initWithDirectory:'' [IdArg directory];
     p \<leftarrow> strong_new (rp_id x);
     drop_ptr directory;
     State_Monad.return p }"

definition shared_directory_new :: "string \<Rightarrow> bool \<Rightarrow> Id objc_op" where
  "shared_directory_new p read_only = do {
     url \<leftarrow> file_url_with_path p True;
     i \<leftarrow> msg_send (Class ''VZSharedDirectory'') ''alloc'' [];
     x \<leftarrow> msg_send (Obj (rp_id i)) ''initWithURL:readOnly:'' [IdArg url, BoolArg read_only];
     q \<leftarrow> strong_new (rp_id x);
     drop_ptr url;
     State_Monad.return q }"

text \<open>\<open>storage_device.rs\<close>.  The message is sent before its error is looked at; the attachment of a
  failed message is dropped.\<close>

fun caching_code :: "VZDiskImageCachingMode \<Rightarrow> int" where
  "caching_code CacheAutomatic = 0"
| "caching_code Uncached = 1"
| "caching_code Cached = 2"

fun sync_code :: "VZDiskImageSynchronizationMode \<Rightarrow> int" where
  "sync_code SyncFull = 1"
| "sync_code SyncNone = 2"

definition attachment_or_error :: "Id \<Rightarrow> Id \<Rightarrow> Id \<Rightarrow> (Id, Id) result objc_op" where
  "attachment_or_error error p path_nsurl =
     (if error \<noteq> NIL then do {
        e \<leftarrow> strong_retain error; drop_ptr p; drop_ptr path_nsurl; State_Monad.return (Err e) }
      else do { drop_ptr path_nsurl; State_Monad.return (Ok p) })"

definition disk_attachment_new :: "string \<Rightarrow> bool \<Rightarrow> (Id, Id) result objc_op" where
  "disk_attachment_new p read_only = do {
     i \<leftarrow> msg_send (Class ''VZDiskImageStorageDeviceAttachment'') ''alloc'' [];
     path_nsurl \<leftarrow> file_url_with_path p False;
     x \<leftarrow> msg_send (Obj (rp_id i)) ''initWithURL:readOnly:error:''
       [IdArg path_nsurl, BoolArg read_only, ErrorArg];
     q \<leftarrow> strong_new (rp_id x);
     attachment_or_error (rp_error x) q path_nsurl }"

definition disk_attachment_new_with_modes ::
  "string \<Rightarrow> bool \<Rightarrow> int \<Rightarrow> int \<Rightarrow> (Id, Id) result objc_op" where
  "disk_attachment_new_with_modes p read_only caching_mode sync_mode = do {
     i \<leftarrow> msg_send (Class ''VZDiskImageStorageDeviceAttachment'') ''alloc'' [];
     path_nsurl \<leftarrow> file_url_with_path p False;
     x \<leftarrow> msg_send (Obj (rp_id i)) ''initWithURL:readOnly:cachingMode:synchronizationMode:error:''
       [IdArg path_nsurl, BoolArg read_only, NumArg caching_mode, NumArg sync_mode, ErrorArg];
     q \<leftarrow> strong_new (rp_id x);
     attachment_or_error (rp_error x) q path_nsurl }"

definition disk_attachment_build :: "DiskAttachment \<Rightarrow> (Id, Id) result objc_op" where
  "disk_attachment_build a =
     (case disk_modes a of
        Some (caching, sync) \<Rightarrow> disk_attachment_new_with_modes (da_path a) (da_read_only a)
          (caching_code caching) (sync_code sync)
      | None \<Rightarrow> disk_attachment_new (da_path a) (da_read_only a))"

definition block_device_new :: "Id \<Rightarrow> Id objc_op" where
  "block_device_new attachment = do {
     i \<leftarrow> msg_send (Class ''VZVirtioBlockDeviceConfiguration'') ''alloc'' [];
     x \<leftarrow> msg_send (Obj (rp_id i)) ''initWithAttachment:'' [IdArg attachment];
     p \<leftarrow> strong_new (rp_id x);
     drop_ptr attachment;
     State_Monad.return p }"

section \<open>Virtual machines\<close>

definition vm_configuration_new :: "Id objc_op" where
  "vm_configuration_new = new_object ''VZVirtualMachineConfiguration''"

definition set_boot_loader :: "Id \<Rightarrow> Id \<Rightarrow> unit objc_op" where
  "set_boot_loader conf boot_loader = do {
     msg_send (Obj conf) ''setBootLoader:'' [IdArg boot_loader]; drop_ptr boot_loader }"

definition set_cpu_count :: "Id \<Rightarrow> usize \<Rightarrow> unit objc_op" where
  "set_cpu_count conf cnt = do {
     msg_send (Obj conf) ''setCPUCount:'' [NumArg (uint cnt)]; State_Monad.return () }"

definition set_memory_size :: "Id \<Rightarrow> usize \<Rightarrow> unit objc_op" where
  "set_memory_size conf memory_size = do {
     msg_send (Obj conf) ''setMemorySize:'' [NumArg (uint memory_size)]; State_Monad.return () }"

text \<open>The setters of device lists differ in the message only.\<close>

definition set_devices :: "string \<Rightarrow> Id \<Rightarrow> Id list \<Rightarrow> unit objc_op" where
  "set_devices sel conf devices = do {
     arr \<leftarrow> array_with_objects devices;
     msg_send (Obj conf) sel [IdArg arr];
     drop_ptr arr;
     drop_all devices }"

definition set_entropy_devices :: "Id \<Rightarrow> Id list \<Rightarrow> unit objc_op" where
  "set_entropy_devices = set_devices ''setEntropyDevices:''"

definition set_memory_balloon_devices :: "Id \<Rightarrow> Id list \<Rightarrow> unit objc_op" where
  "set_memory_balloon_devices = set_devices ''setMemoryBalloonDevices:''"

definition set_network_devices :: "Id \<Rightarrow> Id list \<Rightarrow> unit objc_op" where
  "set_network_devices = set_devices ''setNetworkDevices:''"

definition set_serial_ports :: "Id \<Rightarrow> Id list \<Rightarrow> unit objc_op" where
  "set_serial_ports = set_devices ''setSerialPorts:''"

definition set_socket_devices :: "Id \<Rightarrow> Id list \<Rightarrow> unit objc_op" where
  "set_socket_devices = set_devices ''setSocketDevices:''"

definition set_storage_devices :: "Id \<Rightarrow> Id list \<Rightarrow> unit objc_op" where
  "set_storage_devices = set_devices ''setStorageDevices:''"

definition set_directory_sharing_devices :: "Id \<Rightarrow> Id list \<Rightarrow> unit objc_op" where
  "set_directory_sharing_devices = set_devices ''setDirectorySharingDevices:''"

definition validate_with_error :: "Id \<Rightarrow> (bool, Id) result objc_op" where
  "validate_with_error conf = do {
     x \<leftarrow> msg_send (Obj conf) ''validateWithError:'' [ErrorArg];
     if rp_error x \<noteq> NIL then do { e \<leftarrow> strong_retain (rp_error x); State_Monad.return (Err e) }
     else State_Monad.return (Ok (rp_num x \<noteq> 0)) }"

definition virtual_machine_new :: "Id \<Rightarrow> Id \<Rightarrow> Id objc_op" where
  "virtual_machine_new conf queue = do {
     i \<leftarrow> msg_send (Class ''VZVirtualMachine'') ''alloc'' [];
     x \<leftarrow> msg_send (Obj (rp_id i)) ''initWithConfiguration:queue:'' [IdArg conf, IdArg queue];
     p \<leftarrow> strong_new (rp_id x);
     drop_ptr conf;
     State_Monad.return p }"

definition start_with_completion_handler :: "Id \<Rightarrow> nat \<Rightarrow> unit objc_op" where
  "start_with_completion_handler vm handler = do {
     msg_send (Obj vm) ''startWithCompletionHandler:'' [BlockArg handler]; State_Monad.return () }"

definition request_stop_with_error :: "Id \<Rightarrow> (bool, Id) result objc_op" where
  "request_stop_with_error vm = do {
     x \<leftarrow> msg_send (Obj vm) ''requestStopWithError:'' [ErrorArg];
     if rp_error x \<noteq> NIL then do { e \<leftarrow> strong_retain (rp_error x); State_Monad.return (Err e) }
     else State_Monad.return (Ok (rp_num x \<noteq> 0)) }"

definition vm_supported :: "bool objc_op" where
  "vm_supported = do {
     x \<leftarrow> msg_send (Class ''VZVirtualMachine'') ''isSupported'' [];
     State_Monad.return (rp_num x = 1) }"

definition vm_native_state :: "Id \<Rightarrow> VZVirtualMachineState objc_op" where
  "vm_native_state vm = do {
     x \<leftarrow> msg_send (Obj vm) ''state'' []; State_Monad.return (native_state (rp_num x)) }"

section \<open>Ownership of the bindings\<close>

text \<open>Methods that only ask.\<close>

lemma makes_asking:
  "makes {#} (nsarray_count a) (\<lambda>_. {#})" "makes {#} (nsstring_len s) (\<lambda>_. {#})"
  "makes {#} (check_resource_is_reachable u) (\<lambda>_. {#})" "makes {#} (nserror_code e) (\<lambda>_. {#})"
  "makes {#} vm_supported (\<lambda>_. {#})" "makes {#} (vm_native_state vm) (\<lambda>_. {#})"
  "makes {#} (set_cpu_count c n) (\<lambda>_. {#})" "makes {#} (set_memory_size c m) (\<lambda>_. {#})"
  "makes {#} (start_with_completion_handler vm h) (\<lambda>_. {#})"
  "makes {#} (set_machine_identifier c i) (\<lambda>_. {#})" "makes {#} (data_representation i) (\<lambda>_. {#})"
  unfolding makes_def nsarray_count_def nsstring_len_def check_resource_is_reachable_def
    nserror_code_def vm_supported_def vm_native_state_def set_cpu_count_def set_memory_size_def
    start_with_completion_handler_def set_machine_identifier_def data_representation_def
  by (intro owning_rules owning_if; simp add: selector_simps)+

lemma makes_as_str: "makes {#} (as_str s) (\<lambda>_. {#})" "makes {#} (safe_str s) (\<lambda>_. {#})"
  "makes {#} (nsstring_is_empty s) (\<lambda>_. {#})"
  unfolding makes_def as_str_def safe_str_def nsstring_is_empty_def
  by (intro owning_rules owning_if owning_then_makes [OF makes_asking(2)]; simp add: selector_simps)+

text \<open>Methods that return a reference of their own.\<close>

lemma makes_new_object: "makes {#} (new_object cls) ref"
  unfolding makes_def new_object_def block_simps
  by (intro owning_rules) (simp_all add: selector_simps)

lemma makes_nsstring_new: "makes {#} (nsstring_new s) ref"
  unfolding makes_def nsstring_new_def block_simps
  by (intro owning_rules) (simp_all add: selector_simps)

lemma makes_returning:
  "makes {#} file_handle_new ref" "makes {#} (file_handle_with_fd fd) ref"
  "makes {#} file_handle_with_standard_input ref" "makes {#} file_handle_with_standard_output ref"
  "makes {#} (object_at_index a n) ref" "makes {#} (absolute_url u) ref"
  "makes {#} (all_keys d) ref" "makes {#} (all_values d) ref" "makes {#} nserror_nil ref"
  "makes {#} (localized_description e) ref" "makes {#} (localized_failure_reason e) ref"
  "makes {#} (localized_recovery_suggestion e) ref" "makes {#} (help_anchor e) ref"
  "makes {#} (user_info e) ref"
  unfolding makes_def file_handle_new_def file_handle_with_fd_def file_handle_with_standard_input_def
    file_handle_with_standard_output_def object_at_index_def absolute_url_def all_keys_def
    all_values_def nserror_nil_def localized_description_def localized_failure_reason_def
    localized_recovery_suggestion_def help_anchor_def user_info_def block_simps
  by (intro owning_rules; simp add: selector_simps)+

lemma makes_nserror_dump: "makes {#} (nserror_dump e) (\<lambda>_. {#})"
  unfolding makes_def nserror_dump_def
  by (intro owning_if owning_rules owning_then_makes [OF makes_asking(4)]
      owning_then_makes [OF makes_returning(10)] owning_then_makes [OF makes_returning(11)]
      owning_then_makes [OF makes_returning(12)] owning_then_makes [OF makes_returning(13)]
      owning_then_makes [OF makes_as_str(2)])
    (simp_all add: ac_simps)

lemma makes_device_new:
  "makes {#} entropy_device_new ref" "makes {#} memory_balloon_new ref" "makes {#} nat_attachment_new ref"
  "makes {#} platform_configuration_new ref" "makes {#} machine_identifier_new ref"
  "makes {#} mac_address_new ref" "makes {#} vm_configuration_new ref"
  by (simp_all add: entropy_device_new_def memory_balloon_new_def nat_attachment_new_def
      platform_configuration_new_def machine_identifier_new_def mac_address_new_def
      vm_configuration_new_def makes_new_object)

lemma makes_file_system_device_new: "makes {#} (file_system_device_new tag) ref"
  unfolding makes_def file_system_device_new_def block_simps
  by (intro owning_rules owning_then_makes [OF makes_nsstring_new]) (simp_all add: selector_simps)

lemma makes_from_data:
  "makes {#} (machine_identifier_from_data d) (\<lambda>r. case r of None \<Rightarrow> {#} | Some p \<Rightarrow> ref p)"
  unfolding makes_def machine_identifier_from_data_def block_simps
  by (auto intro!: owning_rules owning_if simp: selector_simps)

text \<open>Methods that take a wrapper by value.\<close>

lemma makes_wrapping:
  "makes (ref a) (network_device_new a) ref" "makes (ref a) (serial_port_new a) ref"
  "makes (ref a) (block_device_new a) ref" "makes (ref h) (file_handle_attachment_new h) ref"
  "makes (ref i) (bridged_attachment_new i) ref" "makes (ref d) (single_directory_share_new d) ref"
  "makes (ref c) (virtual_machine_new c q) ref" "makes (ref r + ref w) (serial_attachment_new r w) ref"
  unfolding makes_def network_device_new_def serial_port_new_def block_device_new_def
    file_handle_attachment_new_def bridged_attachment_new_def single_directory_share_new_def
    virtual_machine_new_def serial_attachment_new_def block_simps
  by (intro owning_rules; simp add: selector_simps)+

text \<open>The names of a bridged interface: no message reaches the interface, so two interfaces get the
  same answer, and without a class called \<open>_obj\<close> both methods panic.  Where there is one, the string is
  retained and belongs to the caller.\<close>

lemma makes_interface_name:
  "localized_display_name registered i = Some f \<Longrightarrow> makes {#} f ref"
  "interface_identifier registered i = Some f \<Longrightarrow> makes {#} f ref"
  by (auto simp: localized_display_name_def interface_identifier_def makes_def selector_simps
      split: if_splits intro!: owning_rules)

theorem interface_name_misses_interface:
  "localized_display_name registered i = localized_display_name registered j \<and>
   interface_identifier registered i = interface_identifier registered j \<and>
   (localized_display_name registered i = None \<longleftrightarrow> \<not> registered ''_obj'') \<and>
   (interface_identifier registered i = None \<longleftrightarrow> \<not> registered ''_obj'')"
  by (simp add: localized_display_name_def interface_identifier_def)

lemma makes_setting:
  "makes (ref m) (set_mac_address n m) (\<lambda>_. {#})" "makes (ref a) (set_attachment n a) (\<lambda>_. {#})"
  "makes (ref s) (set_share d s) (\<lambda>_. {#})" "makes (ref b) (set_boot_loader c b) (\<lambda>_. {#})"
  unfolding makes_def set_mac_address_def set_attachment_def set_share_def set_boot_loader_def
  by (intro owning_rules; simp add: selector_simps)+

lemma makes_erring:
  "makes {#} (validate_with_error c) (\<lambda>r. case r of Ok _ \<Rightarrow> {#} | Err e \<Rightarrow> ref e)"
  "makes {#} (request_stop_with_error vm) (\<lambda>r. case r of Ok _ \<Rightarrow> {#} | Err e \<Rightarrow> ref e)"
  unfolding makes_def validate_with_error_def request_stop_with_error_def
  by (intro owning_rules owning_if; simp add: selector_simps)+

section \<open>Constructors and wrappers\<close>

text \<open>A constructor returns one reference of its own; a wrapper takes the one it is given and
  returns one.  A constructor followed by a wrapper is a constructor again.\<close>

locale objc_constructor =
  fixes make :: "Id objc_op"
  assumes returns_reference: "makes {#} make ref"
begin

lemma make_and_drop: "makes {#} (make \<bind> drop_ptr) (\<lambda>_. {#})"
  unfolding makes_def by (rule owning_then_makes [OF returns_reference]) (auto intro: owning_last_drop)

lemma make_beside: "owning P make (\<lambda>p N. N = P + ref p)"
  by (rule owning_makes [OF returns_reference]) simp_all

end

locale wrapped_constructor = objc_constructor +
  fixes wrap :: "Id \<Rightarrow> Id objc_op"
  assumes takes_reference: "\<And>a. makes (ref a) (wrap a) ref"
begin

lemma make_and_wrap: "makes {#} (make \<bind> wrap) ref"
  unfolding makes_def
  by (rule owning_then_makes [OF returns_reference])
    (auto intro: owning_makes [OF takes_reference])

end

sublocale wrapped_constructor \<subseteq> wrapped: objc_constructor "make \<bind> wrap"
  by unfold_locales (rule make_and_wrap)

interpretation nat_card: wrapped_constructor nat_attachment_new network_device_new
  by unfold_locales (rule makes_device_new makes_wrapping)+

interpretation fd_attachment: wrapped_constructor "file_handle_with_fd fd" file_handle_attachment_new for fd
  by unfold_locales (rule makes_returning makes_wrapping)+

interpretation fd_card: wrapped_constructor "file_handle_with_fd fd \<bind> file_handle_attachment_new" network_device_new
  for fd
  by unfold_locales (rule fd_attachment.make_and_wrap makes_wrapping)+

section \<open>Paths, arrays and MAC addresses\<close>

text \<open>The string that a URL is made from is lost; with it, every object made from a path loses one.\<close>

lemma owning_file_url:
  "owning {#} (file_url_with_path p d) (\<lambda>u N. \<exists>s. N = ref u + ref s)"
  "owning {#} (url_with_string t) (\<lambda>u N. \<exists>s. N = ref u + ref s)"
  unfolding file_url_with_path_def url_with_string_def
  by (intro owning_rules owning_then_makes [OF makes_nsstring_new]; auto simp: selector_simps ac_simps)+

lemma owning_shared_directory: "owning {#} (shared_directory_new p ro) (\<lambda>d N. \<exists>s. N = ref d + ref s)"
  unfolding shared_directory_new_def block_simps
  by (rule owning_bind_call [OF owning_file_url(1)], simp, elim exE, intro owning_rules)
    (auto simp: selector_simps ac_simps)

lemma owning_disk_attachment:
  "owning {#} (disk_attachment_build a)
     (\<lambda>r N. \<exists>s. N = (case r of Ok p \<Rightarrow> ref p | Err e \<Rightarrow> ref e) + ref s)"
proof -
  have "owning {#} (disk_attachment_new p ro) (\<lambda>r N. \<exists>s. N = (case r of Ok p \<Rightarrow> ref p | Err e \<Rightarrow> ref e) + ref s)"
    for p ro
    unfolding disk_attachment_new_def attachment_or_error_def block_simps
    by (rule owning_then_msg, simp add: selector_simps,
        rule owning_bind_call [OF owning_file_url(1)], simp, elim exE, intro owning_rules owning_if)
      (auto simp: selector_simps ac_simps)
  moreover have "owning {#} (disk_attachment_new_with_modes p ro c m)
      (\<lambda>r N. \<exists>s. N = (case r of Ok p \<Rightarrow> ref p | Err e \<Rightarrow> ref e) + ref s)" for p ro c m
    unfolding disk_attachment_new_with_modes_def attachment_or_error_def block_simps
    by (rule owning_then_msg, simp add: selector_simps,
        rule owning_bind_call [OF owning_file_url(1)], simp, elim exE, intro owning_rules owning_if)
      (auto simp: selector_simps ac_simps)
  ultimately show ?thesis by (auto simp: disk_attachment_build_def split: option.split)
qed

lemma owning_boot_loader: "owning {#} (boot_loader_build b) (\<lambda>p N. \<exists>s t. N = ref p + ref s + ref t)"
  unfolding boot_loader_build_def boot_loader_new_def block_simps
  by (rule owning_bind_call [OF owning_file_url(1)], simp, elim exE,
      rule owning_then_makes [OF makes_returning(6)], simp, rule owning_then_drop, simp,
      rule owning_bind_call [OF owning_file_url(1)], simp, elim exE,
      rule owning_then_makes [OF makes_returning(6)], simp, rule owning_then_drop, simp,
      rule owning_then_makes [OF makes_nsstring_new], simp, intro owning_rules)
    (auto simp: selector_simps ac_simps)

section \<open>What is owned, lost and given up\<close>

text \<open>The two constructors that break the rule: their wrapper comes with no reference.\<close>

lemma makes_unowned:
  "makes {#} (array_with_objects ds) (\<lambda>_. {#})" "makes {#} random_locally_administered_address (\<lambda>_. {#})"
  unfolding makes_def array_with_objects_def random_locally_administered_address_def block_simps
  by (intro owning_rules; simp add: selector_simps)+


text \<open>Once a reference that is not owned has been given up, no later event repairs it.\<close>

lemma drop_all_unsound: "\<not> sound w \<Longrightarrow> \<not> sound (snd (run_state (drop_all ps) w))"
  by (induction ps arbitrary: w) (simp_all add: drop_ptr_def)

definition answers :: "objc \<Rightarrow> string \<Rightarrow> string \<Rightarrow> objc_arg list \<Rightarrow> Id" where
  "answers w cls sel args = rp_id (oc_framework w (length (oc_log w)) (Class cls) sel args)"

lemma set_devices_over_release:
  assumes "\<not> creates sel" "\<not> inits sel" "answers w ''NSArray'' ''arrayWithObjects:count:''
      [IdsArg ds, NumArg (int (length ds))] = arr" "arr \<noteq> NIL" "arr \<notin># owned w"
  shows "\<not> sound (snd (run_state (set_devices sel conf ds) w))"
  using assms
  by (simp add: set_devices_def array_with_objects_def strong_new_def msg_send_def drop_ptr_def Let_def
      drop_all_unsound answers_def ref_def selector_simps)

text \<open>Two kinds of references go wrong on every boot.  The array a list of devices is handed
  over in comes from \<open>arrayWithObjects:count:\<close> and a random MAC address from
  \<open>randomLocallyAdministeredAddress\<close>; neither returns a reference that the caller owns, yet both are
  wrapped as if it did, so the wrapper gives up a reference that the process does not have.
  And the string a path is turned into is never released: making a URL from it leaves two
  references more, of which the caller gets one.\<close>

theorem vz_references_go_wrong:
  assumes "sound w" "\<And>n r sel args. rp_id (oc_framework w n r sel args) \<noteq> NIL"
    "\<And>n r sel args. rp_id (oc_framework w n r sel args) \<notin># owned w"
  shows "(\<forall>f \<in> {set_entropy_devices, set_memory_balloon_devices, set_network_devices, set_serial_ports,
        set_socket_devices, set_storage_devices, set_directory_sharing_devices}. \<not> sound (snd (run_state (f conf ds) w)))
    \<and> \<not> sound (snd (run_state (random_locally_administered_address \<bind> set_mac_address nic) w))
    \<and> (case run_state (file_url_with_path p d) w of (u, w') \<Rightarrow>
         sound w' \<and> (\<exists>s. s \<noteq> NIL \<and> owned w' = owned w + {#u, s#}))"
proof (intro conjI)
  have "\<not> sound (snd (run_state (set_devices sel conf ds) w))" if "\<not> creates sel" "\<not> inits sel" for sel
    using set_devices_over_release [OF that refl] assms(2,3) by (simp add: answers_def)
  then show "\<forall>f \<in> {set_entropy_devices, set_memory_balloon_devices, set_network_devices,
      set_serial_ports, set_socket_devices, set_storage_devices, set_directory_sharing_devices}.
        \<not> sound (snd (run_state (f conf ds) w))"
    by (simp add: set_entropy_devices_def set_memory_balloon_devices_def set_network_devices_def
        set_serial_ports_def set_socket_devices_def set_storage_devices_def set_directory_sharing_devices_def
        selector_simps)
  show "\<not> sound (snd (run_state (random_locally_administered_address \<bind> set_mac_address nic) w))"
    using assms(3) assms(2) [of "length (oc_log w)" "Class ''VZMACAddress''" "''randomLocallyAdministeredAddress''" "[]"]
    by (simp add: random_locally_administered_address_def set_mac_address_def strong_new_def msg_send_def
        drop_ptr_def Let_def ref_def selector_simps)
  show "case run_state (file_url_with_path p d) w of (u, w') \<Rightarrow>
      sound w' \<and> (\<exists>s. s \<noteq> NIL \<and> owned w' = owned w + {#u, s#})"
    using assms(1,2)
    by (auto simp add: file_url_with_path_def nsstring_new_def strong_new_def strong_retain_def msg_send_def
        Let_def ref_def selector_simps)
qed

text \<open>Frameworks that answer every message with a new object.\<close>

definition fresh_frameworks :: objc where
  "fresh_frameworks = \<lparr>oc_framework = (\<lambda>n r sel args.
     \<lparr>rp_id = Suc n, rp_num = 0, rp_memory = [], rp_error = NIL\<rparr>), oc_log = []\<rparr>"

theorem vz_references_go_wrong_witness:
  "\<not> sound (snd (run_state (set_network_devices 1 [2, 3]) fresh_frameworks))
   \<and> \<not> sound (snd (run_state (random_locally_administered_address \<bind> set_mac_address 4) fresh_frameworks))
   \<and> (case run_state (file_url_with_path ''/vmlinuz'' False) fresh_frameworks of (u, w') \<Rightarrow>
         sound w' \<and> (\<exists>s. s \<noteq> NIL \<and> owned w' = owned fresh_frameworks + {#u, s#}))"
proof -
  have own: "sound fresh_frameworks" "owned fresh_frameworks = {#}"
    by (simp_all add: fresh_frameworks_def sound_def owned_def ownership_def)
  then show ?thesis
    using vz_references_go_wrong [of fresh_frameworks 1 "[2, 3]" 4 "''/vmlinuz''" False]
    by (simp add: fresh_frameworks_def)
qed

end
