(* ===== verification/Vz_Told.thy ===== *)
theory Vz_Told
  imports Objc
begin

text \<open>
  What the Virtualization framework is told about a machine: the objects and their parts as the
  messages of the bindings describe them.  The last part is a logic for computations that
  send messages, from the description before to the description after.
\<close>

section \<open>What the framework is told\<close>

text \<open>
  The objects as the messages describe them.  An object made by a message must be new; a message
  that refers to an object the record does not describe, or of the wrong kind, has no meaning
  (\<open>None\<close>).  \<open>absoluteURL\<close> may return its receiver.
\<close>

datatype nic_attachment = NatNet | FdNet int

type_synonym disk_told = "string \<times> bool \<times> (int \<times> int) option"

record conf_told =
  ct_loader :: "(string option \<times> string option \<times> string option) option"
  ct_cpus :: "int option"
  ct_memory :: "int option"
  ct_entropy :: nat
  ct_balloons :: nat
  ct_nics :: "(nic_attachment option \<times> Id option) list"
  ct_serial :: "(int \<times> int) option list"
  ct_storage :: "disk_told list"
  ct_shares :: "(string \<times> (string \<times> bool) option) list"

datatype vz_object =
    TextObject string
  | UrlObject string bool
  | HandleObject int
  | MacObject
  | LoaderObject "string option" "string option" "string option"
  | NicAttachment nic_attachment
  | NicObject "nic_attachment option" "Id option"
  | SerialAttachment int int
  | SerialObject "(int \<times> int) option"
  | DirectoryObject string bool
  | ShareObject string bool
  | FileSystemObject string "(string \<times> bool) option"
  | DiskObject disk_told
  | BlockObject disk_told
  | EntropyObject
  | BalloonObject
  | ArrayObject "vz_object list"
  | ConfObject conf_told

type_synonym vz_store = "Id \<rightharpoonup> vz_object"

definition put_new :: "Id \<Rightarrow> vz_object \<Rightarrow> vz_store \<Rightarrow> vz_store option" where
  "put_new p x st = (if p = NIL \<or> st p \<noteq> None then None else Some (st(p \<mapsto> x)))"

definition put_same :: "Id \<Rightarrow> vz_object \<Rightarrow> vz_store \<Rightarrow> vz_store option" where
  "put_same p x st = (if st p = Some x then Some st else put_new p x st)"

definition empty_conf :: conf_told where
  "empty_conf = \<lparr>ct_loader = None, ct_cpus = None, ct_memory = None, ct_entropy = 0, ct_balloons = 0,
     ct_nics = [], ct_serial = [], ct_storage = [], ct_shares = []\<rparr>"

text \<open>What \<open>new\<close> makes.\<close>

definition new_of :: "string \<Rightarrow> vz_object option" where
  "new_of cls =
     (if cls = ''VZLinuxBootLoader'' then Some (LoaderObject None None None)
      else if cls = ''VZVirtioEntropyDeviceConfiguration'' then Some EntropyObject
      else if cls = ''VZVirtioTraditionalMemoryBalloonDeviceConfiguration'' then Some BalloonObject
      else if cls = ''VZNATNetworkDeviceAttachment'' then Some (NicAttachment NatNet)
      else if cls = ''VZVirtioNetworkDeviceConfiguration'' then Some (NicObject None None)
      else if cls = ''VZVirtioConsoleDeviceSerialPortConfiguration'' then Some (SerialObject None)
      else if cls = ''VZVirtualMachineConfiguration'' then Some (ConfObject empty_conf)
      else None)"

text \<open>Arguments: the object one refers to, a number, a truth value.\<close>

fun arg_object :: "vz_store \<Rightarrow> objc_arg \<Rightarrow> vz_object option" where
  "arg_object st (IdArg i) = st i"
| "arg_object st _ = None"

fun arg_num :: "objc_arg \<Rightarrow> int" where
  "arg_num (NumArg n) = n"
| "arg_num _ = 0"

fun arg_bool :: "objc_arg \<Rightarrow> bool" where
  "arg_bool (BoolArg b) = b"
| "arg_bool _ = False"

fun arg_text :: "objc_arg \<Rightarrow> string" where
  "arg_text (TextArg t) = t"
| "arg_text _ = []"

fun arg_objects :: "vz_store \<Rightarrow> objc_arg \<Rightarrow> vz_object list option" where
  "arg_objects st (IdsArg ids) = those (map st ids)"
| "arg_objects st _ = None"

definition tell_class :: "string \<Rightarrow> string \<Rightarrow> objc_arg list \<Rightarrow> Id \<Rightarrow> vz_store \<Rightarrow> vz_store option" where
  "tell_class cls sel args p st =
     (if sel = ''alloc'' then Some st
      else if sel = ''new'' then (case new_of cls of None \<Rightarrow> None | Some x \<Rightarrow> put_new p x st)
      else if sel = ''randomLocallyAdministeredAddress'' then put_new p MacObject st
      else if sel = ''fileURLWithPath:isDirectory:''
      then (case arg_object st (hd args) of
              Some (TextObject t) \<Rightarrow> put_new p (UrlObject t (arg_bool (args ! 1))) st | _ \<Rightarrow> None)
      else if sel = ''arrayWithObjects:count:''
      then (case arg_objects st (hd args) of Some xs \<Rightarrow> put_new p (ArrayObject xs) st | None \<Rightarrow> None)
      else None)"

text \<open>What \<open>init\<close> makes of its arguments.\<close>

definition init_of :: "string \<Rightarrow> objc_arg list \<Rightarrow> vz_store \<Rightarrow> vz_object option" where
  "init_of sel args st =
     (if sel = ''initWithBytes:length:encoding:'' then Some (TextObject (arg_text (hd args)))
      else if sel = ''initWithFileDescriptor:closeOnDealloc:'' then Some (HandleObject (arg_num (hd args)))
      else if sel = ''initWithFileHandle:'' then (case arg_object st (hd args) of
        Some (HandleObject fd) \<Rightarrow> Some (NicAttachment (FdNet fd)) | _ \<Rightarrow> None)
      else if sel = ''initWithFileHandleForReading:fileHandleForWriting:''
      then (case arg_object st (hd args) of Some (HandleObject r) \<Rightarrow>
              (case arg_object st (args ! 1) of Some (HandleObject w) \<Rightarrow> Some (SerialAttachment r w) | _ \<Rightarrow> None)
            | _ \<Rightarrow> None)
      else if sel = ''initWithTag:'' then (case arg_object st (hd args) of
        Some (TextObject t) \<Rightarrow> Some (FileSystemObject t None) | _ \<Rightarrow> None)
      else if sel = ''initWithURL:readOnly:'' then (case arg_object st (hd args) of
        Some (UrlObject t d) \<Rightarrow> Some (DirectoryObject t (arg_bool (args ! 1))) | _ \<Rightarrow> None)
      else if sel = ''initWithDirectory:'' then (case arg_object st (hd args) of
        Some (DirectoryObject d r) \<Rightarrow> Some (ShareObject d r) | _ \<Rightarrow> None)
      else if sel = ''initWithURL:readOnly:error:'' then (case arg_object st (hd args) of
        Some (UrlObject t d) \<Rightarrow> Some (DiskObject (t, arg_bool (args ! 1), None)) | _ \<Rightarrow> None)
      else if sel = ''initWithURL:readOnly:cachingMode:synchronizationMode:error:''
      then (case arg_object st (hd args) of
        Some (UrlObject t d) \<Rightarrow>
          Some (DiskObject (t, arg_bool (args ! 1), Some (arg_num (args ! 2), arg_num (args ! 3)))) | _ \<Rightarrow> None)
      else if sel = ''initWithAttachment:'' then (case arg_object st (hd args) of
        Some (DiskObject a) \<Rightarrow> Some (BlockObject a) | _ \<Rightarrow> None)
      else None)"

text \<open>What a setter makes of its receiver.\<close>

definition set_loader :: "string \<Rightarrow> vz_object option \<Rightarrow> vz_object \<Rightarrow> vz_object option" where
  "set_loader sel x y = (case y of
     LoaderObject k i c \<Rightarrow> (case x of
       Some (UrlObject t d) \<Rightarrow>
         if sel = ''setKernelURL:'' then Some (LoaderObject (Some t) i c)
         else if sel = ''setInitialRamdiskURL:'' then Some (LoaderObject k (Some t) c) else None
     | Some (TextObject t) \<Rightarrow>
         if sel = ''setCommandLine:'' then Some (LoaderObject k i (Some t)) else None
     | _ \<Rightarrow> None)
   | _ \<Rightarrow> None)"

definition set_part :: "string \<Rightarrow> vz_object option \<Rightarrow> Id \<Rightarrow> vz_object \<Rightarrow> vz_object option" where
  "set_part sel x i y = (case y of
     NicObject a m \<Rightarrow> (case x of
       Some (NicAttachment b) \<Rightarrow> if sel = ''setAttachment:'' then Some (NicObject (Some b) m) else None
     | Some MacObject \<Rightarrow> if sel = ''setMACAddress:'' then Some (NicObject a (Some i)) else None
     | _ \<Rightarrow> None)
   | SerialObject b \<Rightarrow> (case x of
       Some (SerialAttachment r w) \<Rightarrow>
         if sel = ''setAttachment:'' then Some (SerialObject (Some (r, w))) else None
     | _ \<Rightarrow> None)
   | FileSystemObject t s \<Rightarrow> (case x of
       Some (ShareObject d r) \<Rightarrow>
         if sel = ''setShare:'' then Some (FileSystemObject t (Some (d, r))) else None
     | _ \<Rightarrow> None)
   | _ \<Rightarrow> None)"

definition nics_of :: "vz_object list \<Rightarrow> (nic_attachment option \<times> Id option) list option" where
  "nics_of xs = those (map (\<lambda>x. case x of NicObject a m \<Rightarrow> Some (a, m) | _ \<Rightarrow> None) xs)"

definition serials_of :: "vz_object list \<Rightarrow> (int \<times> int) option list option" where
  "serials_of xs = those (map (\<lambda>x. case x of SerialObject a \<Rightarrow> Some a | _ \<Rightarrow> None) xs)"

definition blocks_of :: "vz_object list \<Rightarrow> disk_told list option" where
  "blocks_of xs = those (map (\<lambda>x. case x of BlockObject a \<Rightarrow> Some a | _ \<Rightarrow> None) xs)"

definition shares_of :: "vz_object list \<Rightarrow> (string \<times> (string \<times> bool) option) list option" where
  "shares_of xs = those (map (\<lambda>x. case x of FileSystemObject t s \<Rightarrow> Some (t, s) | _ \<Rightarrow> None) xs)"

definition set_conf :: "string \<Rightarrow> vz_object option \<Rightarrow> int \<Rightarrow> conf_told \<Rightarrow> conf_told option" where
  "set_conf sel x n c =
     (if sel = ''setCPUCount:'' then Some (c\<lparr>ct_cpus := Some n\<rparr>)
      else if sel = ''setMemorySize:'' then Some (c\<lparr>ct_memory := Some n\<rparr>)
      else (case x of
        Some (LoaderObject k i l) \<Rightarrow>
          if sel = ''setBootLoader:'' then Some (c\<lparr>ct_loader := Some (k, i, l)\<rparr>) else None
      | Some (ArrayObject xs) \<Rightarrow>
          if sel = ''setEntropyDevices:'' then
            (if list_all ((=) EntropyObject) xs then Some (c\<lparr>ct_entropy := length xs\<rparr>) else None)
          else if sel = ''setMemoryBalloonDevices:'' then
            (if list_all ((=) BalloonObject) xs then Some (c\<lparr>ct_balloons := length xs\<rparr>) else None)
          else if sel = ''setNetworkDevices:'' then map_option (\<lambda>d. c\<lparr>ct_nics := d\<rparr>) (nics_of xs)
          else if sel = ''setSerialPorts:'' then map_option (\<lambda>d. c\<lparr>ct_serial := d\<rparr>) (serials_of xs)
          else if sel = ''setStorageDevices:'' then map_option (\<lambda>d. c\<lparr>ct_storage := d\<rparr>) (blocks_of xs)
          else if sel = ''setDirectorySharingDevices:'' then map_option (\<lambda>d. c\<lparr>ct_shares := d\<rparr>) (shares_of xs)
          else None
      | _ \<Rightarrow> None))"

fun arg_id :: "objc_arg \<Rightarrow> Id" where
  "arg_id (IdArg i) = i"
| "arg_id _ = NIL"

definition set_of :: "string \<Rightarrow> objc_arg \<Rightarrow> vz_store \<Rightarrow> vz_object \<Rightarrow> vz_object option" where
  "set_of sel a st x = (case x of
     ConfObject c \<Rightarrow> map_option ConfObject (set_conf sel (arg_object st a) (arg_num a) c)
   | LoaderObject _ _ _ \<Rightarrow> set_loader sel (arg_object st a) x
   | _ \<Rightarrow> set_part sel (arg_object st a) (arg_id a) x)"

text \<open>A message to an object; an \<open>init\<close> that fails with an error describes nothing.\<close>

definition tell_object :: "Id \<Rightarrow> string \<Rightarrow> objc_arg list \<Rightarrow> Id \<Rightarrow> vz_store \<Rightarrow> vz_store option" where
  "tell_object i sel args p st =
     (if sel = ''absoluteURL'' then (case st i of Some x \<Rightarrow> put_same p x st | None \<Rightarrow> None)
      else if inits sel then
        (if p = NIL \<and> last args = ErrorArg then Some st
         else (case init_of sel args st of Some x \<Rightarrow> put_new p x st | None \<Rightarrow> None))
      else (case st i of None \<Rightarrow> None
            | Some x \<Rightarrow> map_option (\<lambda>y. st(i \<mapsto> y)) (set_of sel (hd args) st x)))"

fun tell :: "objc_event \<Rightarrow> vz_store \<Rightarrow> vz_store option" where
  "tell (Message (Class cls) sel args p) st = tell_class cls sel args p st"
| "tell (Message (Obj i) sel args p) st = tell_object i sel args p st"
| "tell (Retain p) st = Some st"
| "tell (Release p) st = Some st"

fun told :: "vz_store \<Rightarrow> objc_event list \<Rightarrow> vz_store option" where
  "told st [] = Some st"
| "told st (ev # evs) = (case tell ev st of None \<Rightarrow> None | Some st' \<Rightarrow> told st' evs)"

section \<open>What the framework promises\<close>

text \<open>
  The messages that are answered with an object.  An \<open>Id\<close> names an object, not an address: an
  honest framework answers with an object it has not handed out before, \<open>absoluteURL\<close> may return
  its receiver, and an \<open>init\<close> with an error argument may return nil instead, in which case it
  leaves an error there.  None of this depends on whether the message makes sense.
\<close>

definition hands_out :: "string \<Rightarrow> bool" where
  "hands_out sel \<longleftrightarrow> inits sel \<or> sel \<in> {''new'', ''randomLocallyAdministeredAddress'',
     ''fileURLWithPath:isDirectory:'', ''arrayWithObjects:count:'', ''absoluteURL''}"

fun handed_out :: "objc_event \<Rightarrow> Id set" where
  "handed_out (Message r sel args p) = (if hands_out sel then {p} else {})"
| "handed_out _ = {}"

fun honest_answer :: "Id set \<Rightarrow> objc_event \<Rightarrow> bool" where
  "honest_answer K (Message r sel args p) \<longleftrightarrow> (hands_out sel \<longrightarrow>
     p \<noteq> NIL \<and> p \<notin> K \<or> sel = ''absoluteURL'' \<and> r = Obj p \<or> p = NIL \<and> args \<noteq> [] \<and> last args = ErrorArg)"
| "honest_answer K _ \<longleftrightarrow> True"

text \<open>\<open>honest K evs\<close>: so it answered in \<open>evs\<close>, having handed out \<open>K\<close> before.\<close>

fun honest :: "Id set \<Rightarrow> objc_event list \<Rightarrow> bool" where
  "honest K [] \<longleftrightarrow> True"
| "honest K (ev # evs) \<longleftrightarrow> honest_answer K ev \<and> honest (K \<union> handed_out ev) evs"

definition reports_errors :: "objc \<Rightarrow> bool" where
  "reports_errors w \<longleftrightarrow> (\<forall>n r sel args. args \<noteq> [] \<and> last args = ErrorArg
     \<and> rp_id (oc_framework w n r sel args) = NIL \<longrightarrow> rp_error (oc_framework w n r sel args) \<noteq> NIL)"

section \<open>Computations that tell\<close>

lemma told_append: "told st (evs @ evs') = told st evs \<bind> (\<lambda>st'. told st' evs')"
  by (induction evs arbitrary: st) (auto split: option.split)

fun handed :: "objc_event list \<Rightarrow> Id set" where
  "handed [] = {}"
| "handed (ev # evs) = handed_out ev \<union> handed evs"

lemma honest_append: "honest K (evs @ evs') \<longleftrightarrow> honest K evs \<and> honest (K \<union> handed evs) evs'"
  by (induction evs arbitrary: K) (auto simp: Un_assoc)

lemma honest_answer_mono: "honest_answer K ev \<Longrightarrow> J \<subseteq> K \<Longrightarrow> honest_answer J ev"
  by (cases ev) auto

lemma put_Some:
  "put_new p x st = Some st' \<longleftrightarrow> p \<noteq> NIL \<and> st p = None \<and> st' = st(p \<mapsto> x)"
  "put_same p x st = Some st' \<longleftrightarrow> st p = Some x \<and> st' = st \<or> p \<noteq> NIL \<and> st p = None \<and> st' = st(p \<mapsto> x)"
  by (auto simp: put_new_def put_same_def)

lemma put_None:
  "put_new p x st = None \<longleftrightarrow> p = NIL \<or> st p \<noteq> None"
  "put_same p x st = None \<longleftrightarrow> st p \<noteq> Some x \<and> (p = NIL \<or> st p \<noteq> None)"
  by (auto simp: put_new_def put_same_def)

text \<open>Only objects handed out are described.\<close>

lemma tell_dom: "tell ev st = Some st' \<Longrightarrow> dom st' \<subseteq> dom st \<union> handed_out ev"
proof (cases ev)
  case (Message r sel args p)
  assume "tell ev st = Some st'"
  then show ?thesis
    by (cases r) (auto simp: Message tell_class_def tell_object_def put_Some hands_out_def
        split: if_splits option.splits vz_object.splits)
qed auto

lemma told_dom: "told st evs = Some st' \<Longrightarrow> dom st' \<subseteq> dom st \<union> handed evs"
proof (induction evs arbitrary: st)
  case (Cons ev evs)
  then obtain st1 where "tell ev st = Some st1" "told st1 evs = Some st'" by (auto split: option.splits)
  then show ?case using Cons.IH [of st1] tell_dom [of ev st st1] by auto
qed simp

text \<open>The record only grows.\<close>

definition appends :: "'a objc_op \<Rightarrow> bool" where
  "appends m \<longleftrightarrow> (\<forall>w. oc_framework (snd (run_state m w)) = oc_framework w
     \<and> (\<exists>evs. oc_log (snd (run_state m w)) = oc_log w @ evs))"

lemma appends_primitive [intro!]:
  "appends (State_Monad.return x)" "appends (msg_send r s a)" "appends (strong_new p)"
  "appends (strong_retain p)" "appends (drop_ptr p)"
  by (auto simp: appends_def msg_send_def strong_new_def strong_retain_def drop_ptr_def log_event_def Let_def)

lemma appends_bind [intro!]: "appends m \<Longrightarrow> (\<And>x. appends (f x)) \<Longrightarrow> appends (m \<bind> f)"
  unfolding appends_def run_state_bind split_beta by (metis append_assoc)

lemma appends_if [intro!]: "appends m \<Longrightarrow> appends n \<Longrightarrow> appends (if c then m else n)"
  by simp

lemma appends_drop_all [intro!]: "appends (drop_all ps)"
  by (induction ps) auto

lemma appends_traverse [intro!]: "(\<And>x. appends (f x)) \<Longrightarrow> appends (State_Monad.traverse_list f xs)"
  by (induction xs) auto

text \<open>\<open>tells st m Q\<close>: from the description \<open>st\<close>, with a framework that keeps its promises, all messages of
  \<open>m\<close> make sense, and its result and the description after it have \<open>Q\<close>.\<close>

definition tells :: "vz_store \<Rightarrow> 'a objc_op \<Rightarrow> ('a \<Rightarrow> vz_store \<Rightarrow> bool) \<Rightarrow> bool" where
  "tells st m Q \<longleftrightarrow> appends m \<and> (\<forall>w x w' evs K. reports_errors w \<and> run_state m w = (x, w')
     \<and> oc_log w' = oc_log w @ evs \<and> dom st \<subseteq> K \<and> honest K evs
     \<longrightarrow> (\<exists>st'. told st evs = Some st' \<and> Q x st'))"

lemma tellsD:
  assumes "tells st m Q" "run_state m w = (x, w')" "reports_errors w" "oc_log w' = oc_log w @ evs"
    "honest K evs" "dom st \<subseteq> K"
  shows "\<exists>st'. told st evs = Some st' \<and> Q x st'"
  using assms unfolding tells_def by blast

lemma tells_return: "Q x st \<Longrightarrow> tells st (State_Monad.return x) Q"
  by (auto simp: tells_def)

lemma tells_bind:
  assumes "tells st m R" "\<And>x st1. R x st1 \<Longrightarrow> tells st1 (f x) Q" "\<And>x. appends (f x)"
  shows "tells st (m \<bind> f) Q"
  unfolding tells_def
proof (intro conjI allI impI, goal_cases)
  case 1
  then show ?case using assms(1,3) by (auto simp: tells_def)
next
  case (2 w y w2 evs K)
  then have w: "reports_errors w" "run_state (m \<bind> f) w = (y, w2)" "oc_log w2 = oc_log w @ evs"
    "dom st \<subseteq> K" "honest K evs" by auto
  obtain x w1 where m: "run_state m w = (x, w1)" by force
  then have f: "run_state (f x) w1 = (y, w2)" using w(2) by simp
  obtain evs1 where e1: "oc_log w1 = oc_log w @ evs1" "oc_framework w1 = oc_framework w"
    using assms(1) m unfolding tells_def appends_def by (metis snd_conv)
  obtain evs2 where e2: "oc_log w2 = oc_log w1 @ evs2"
    using assms(3) f unfolding appends_def by (metis snd_conv)
  have evs: "evs = evs1 @ evs2" using w(3) e1 e2 by simp
  obtain st1 where st1: "told st evs1 = Some st1" "R x st1"
    using tellsD [OF assms(1) m w(1) e1(1) _ w(4)] w(5) by (auto simp: evs honest_append)
  have "dom st1 \<subseteq> K \<union> handed evs1" using told_dom [OF st1(1)] w(4) by blast
  then show ?case
    using tellsD [OF assms(2) [OF st1(2)] f _ e2] w(1,5) e1(2) st1(1)
    by (auto simp: evs honest_append told_append reports_errors_def)
qed

text \<open>The answer to a message, as promised.\<close>

definition promised :: "vz_store \<Rightarrow> receiver \<Rightarrow> string \<Rightarrow> objc_arg list \<Rightarrow> reply \<Rightarrow> bool" where
  "promised st r s a x \<longleftrightarrow> honest_answer (dom st) (Message r s a (rp_id x))
     \<and> (a \<noteq> [] \<and> last a = ErrorArg \<and> rp_id x = NIL \<longrightarrow> rp_error x \<noteq> NIL)"

lemma tells_msg:
  assumes "\<And>x. promised st r s a x \<Longrightarrow> tell (Message r s a (rp_id x)) st \<noteq> None"
  shows "tells st (msg_send r s a)
    (\<lambda>x st'. promised st r s a x \<and> tell (Message r s a (rp_id x)) st = Some st')"
  unfolding tells_def
proof (intro conjI allI impI, goal_cases)
  case (2 w x w' evs K)
  then have x: "x = oc_framework w (length (oc_log w)) r s a" "evs = [Message r s a (rp_id x)]"
    "honest_answer K (Message r s a (rp_id x))" "dom st \<subseteq> K"
    by (auto simp: msg_send_def log_event_def Let_def)
  then have p: "promised st r s a x"
    using 2 honest_answer_mono by (auto simp: promised_def reports_errors_def simp del: honest_answer.simps)
  then show ?case using assms [OF p] x(2) by auto
qed blast

lemma tells_weaken: "tells st m R \<Longrightarrow> (\<And>x st'. R x st' \<Longrightarrow> Q x st') \<Longrightarrow> tells st m Q"
  unfolding tells_def by blast

lemma tells_then_msg:
  assumes "\<And>x. promised st r s a x \<Longrightarrow> tell (Message r s a (rp_id x)) st \<noteq> None"
    "\<And>x st'. promised st r s a x \<Longrightarrow> tell (Message r s a (rp_id x)) st = Some st' \<Longrightarrow> tells st' (f x) Q"
    "\<And>x. appends (f x)"
  shows "tells st (msg_send r s a \<bind> f) Q"
  by (rule tells_bind [OF tells_msg]) (use assms in auto)

lemma tells_silent: "tells st (strong_retain p) (\<lambda>x st'. x = p \<and> st' = st)" "tells st (drop_ptr p) (\<lambda>_ st'. st' = st)"
  "tells st (drop_all ps) (\<lambda>_ st'. st' = st)"
proof -
  show "tells st (strong_retain p) (\<lambda>x st'. x = p \<and> st' = st)" "tells st (drop_ptr p) (\<lambda>_ st'. st' = st)" for p
    unfolding tells_def by (auto simp: strong_retain_def drop_ptr_def log_event_def appends_def)
  note drop = this(2)
  show "tells st (drop_all ps) (\<lambda>_ st'. st' = st)"
    by (induction ps) (auto intro: tells_return tells_bind [OF drop])
qed

lemma tells_then_silent:
  "tells st (f p) Q \<Longrightarrow> (\<And>x. appends (f x)) \<Longrightarrow> tells st (strong_retain p \<bind> f) Q"
  "tells st (g ()) Q \<Longrightarrow> appends (g ()) \<Longrightarrow> tells st (drop_ptr p \<bind> g) Q"
  "tells st (g ()) Q \<Longrightarrow> appends (g ()) \<Longrightarrow> tells st (drop_all ps \<bind> g) Q"
  by (auto intro: tells_bind [OF tells_silent(1)] tells_bind [OF tells_silent(2)] tells_bind [OF tells_silent(3)])

lemma tells_last_silent:
  "Q p st \<Longrightarrow> tells st (strong_retain p) Q" "R () st \<Longrightarrow> tells st (drop_ptr p) R"
  "R () st \<Longrightarrow> tells st (drop_all ps) R"
  by (auto intro: tells_weaken [OF tells_silent(1)] tells_weaken [OF tells_silent(2)] tells_weaken [OF tells_silent(3)])

lemmas tells_rules = tells_return tells_last_silent tells_then_silent tells_then_msg

text \<open>An object made without changing what was described before.\<close>

definition made :: "vz_store \<Rightarrow> vz_object \<Rightarrow> Id \<Rightarrow> vz_store \<Rightarrow> bool" where
  "made st x p st' \<longleftrightarrow> st \<subseteq>\<^sub>m st' \<and> st' p = Some x \<and> st p = None \<and> p \<noteq> NIL"

lemma madeD:
  assumes "made st x p st'"
  shows "st' p = Some x" "st p = None" "p \<noteq> NIL" "st \<subseteq>\<^sub>m st'" "st q = Some y \<Longrightarrow> st' q = Some y"
  using assms by (auto simp: made_def map_le_def dom_def)

lemma map_le_upd_fresh: "st \<subseteq>\<^sub>m st' \<Longrightarrow> st p = None \<Longrightarrow> st \<subseteq>\<^sub>m st'(p \<mapsto> x)"
  by (auto simp: map_le_def)

lemma map_le_fresh: "st \<subseteq>\<^sub>m st' \<Longrightarrow> st' p = None \<Longrightarrow> st p = None"
  by (metis domIff map_le_implies_dom_le subsetD)

lemma map_le_upd_new: "st \<subseteq>\<^sub>m st' \<Longrightarrow> st' p = None \<Longrightarrow> st \<subseteq>\<^sub>m st'(p \<mapsto> x)"
  by (simp add: map_le_fresh map_le_upd_fresh)

lemma made_upd: "st \<subseteq>\<^sub>m st1 \<Longrightarrow> st1 p = None \<Longrightarrow> p \<noteq> NIL \<Longrightarrow> made st x p (st1(p \<mapsto> x))"
  by (auto simp: made_def map_le_upd_fresh map_le_fresh)

lemma made_le: "made st1 x p st2 \<Longrightarrow> st \<subseteq>\<^sub>m st1 \<Longrightarrow> made st x p st2"
  by (auto simp: made_def map_le_fresh intro: map_le_trans)

lemma made_change: "made st x p st1 \<Longrightarrow> made st y p (st1(p \<mapsto> y))"
  by (auto simp: made_def map_le_def)

lemma made_keep: "made st x p st1 \<Longrightarrow> st1 \<subseteq>\<^sub>m st2 \<Longrightarrow> made st x p st2"
  by (auto simp: made_def map_le_def dom_def)

lemma map_leD: "st \<subseteq>\<^sub>m st' \<Longrightarrow> st p = Some x \<Longrightarrow> st' p = Some x"
  by (auto simp: map_le_def dom_def)

end
