(* ===== verification/Vz_Configure.thy ===== *)
theory Vz_Configure
  imports Vz_Objects Vz_Told
begin

text \<open>
  The part of \<open>boot\<close> in \<open>src/driver/apple_vz.rs\<close> that builds the framework's configuration object, on
  the level of the bindings: boot loader, serial console, devices, disks and shared directories,
  and the builder that puts them together.  The paths, the command line and the descriptors come
  from a configuration as \<^verbatim>\<open>Apple_Vz\<close> computes it.  What the framework is told is read off the
  record of messages, and is shown to be that configuration.
\<close>

section \<open>Building the configuration object\<close>

text \<open>The builder of disk attachments, and the one of configurations.\<close>

record 'p VZDiskImageStorageDeviceAttachmentBuilder =
  db_path :: 'p
  db_read_only :: bool
  db_caching_mode :: "VZDiskImageCachingMode option"
  db_sync_mode :: "VZDiskImageSynchronizationMode option"

definition disk_builder_new :: "unit VZDiskImageStorageDeviceAttachmentBuilder" where
  "disk_builder_new = \<lparr>db_path = (), db_read_only = True, db_caching_mode = None, db_sync_mode = None\<rparr>"

definition db_set_path ::
  "string \<Rightarrow> 'p VZDiskImageStorageDeviceAttachmentBuilder \<Rightarrow> string VZDiskImageStorageDeviceAttachmentBuilder" where
  "db_set_path p b = \<lparr>db_path = p, db_read_only = db_read_only b, db_caching_mode = db_caching_mode b,
     db_sync_mode = db_sync_mode b\<rparr>"

definition db_set_read_only ::
  "bool \<Rightarrow> 'p VZDiskImageStorageDeviceAttachmentBuilder \<Rightarrow> 'p VZDiskImageStorageDeviceAttachmentBuilder" where
  "db_set_read_only ro b = \<lparr>db_path = db_path b, db_read_only = ro, db_caching_mode = db_caching_mode b,
     db_sync_mode = db_sync_mode b\<rparr>"

definition db_set_caching_mode ::
  "VZDiskImageCachingMode \<Rightarrow> 'p VZDiskImageStorageDeviceAttachmentBuilder
     \<Rightarrow> 'p VZDiskImageStorageDeviceAttachmentBuilder" where
  "db_set_caching_mode m b = b\<lparr>db_caching_mode := Some m\<rparr>"

definition db_set_sync_mode ::
  "VZDiskImageSynchronizationMode \<Rightarrow> 'p VZDiskImageStorageDeviceAttachmentBuilder
     \<Rightarrow> 'p VZDiskImageStorageDeviceAttachmentBuilder" where
  "db_set_sync_mode m b = b\<lparr>db_sync_mode := Some m\<rparr>"

definition built_disk :: "string VZDiskImageStorageDeviceAttachmentBuilder \<Rightarrow> DiskAttachment" where
  "built_disk b = \<lparr>da_path = db_path b, da_read_only = db_read_only b,
     da_caching_mode = db_caching_mode b, da_sync_mode = db_sync_mode b\<rparr>"

definition root_disk :: "string \<Rightarrow> DiskAttachment" where
  "root_disk disk_path = built_disk (db_set_sync_mode SyncFull (db_set_caching_mode CacheAutomatic
     (db_set_read_only False (db_set_path disk_path disk_builder_new))))"

definition seed_disk :: "string \<Rightarrow> DiskAttachment" where
  "seed_disk seed_path = built_disk (db_set_read_only True (db_set_path seed_path disk_builder_new))"

text \<open>A builder method sets a part and hands the builder on; the builder is its object.\<close>

definition vm_builder :: "(Id \<Rightarrow> unit objc_op) \<Rightarrow> Id \<Rightarrow> Id objc_op" where
  "vm_builder setter conf = do { setter conf; State_Monad.return conf }"

definition vmb_new :: "Id objc_op" where "vmb_new = vm_configuration_new"

definition vmb_boot_loader :: "Id \<Rightarrow> Id \<Rightarrow> Id objc_op" where
  "vmb_boot_loader bl = vm_builder (\<lambda>conf. set_boot_loader conf bl)"

definition vmb_cpu_count :: "usize \<Rightarrow> Id \<Rightarrow> Id objc_op" where
  "vmb_cpu_count n = vm_builder (\<lambda>conf. set_cpu_count conf n)"

definition vmb_memory_size :: "usize \<Rightarrow> Id \<Rightarrow> Id objc_op" where
  "vmb_memory_size n = vm_builder (\<lambda>conf. set_memory_size conf n)"

definition vmb_entropy_devices :: "Id list \<Rightarrow> Id \<Rightarrow> Id objc_op" where
  "vmb_entropy_devices ds = vm_builder (\<lambda>conf. set_entropy_devices conf ds)"

definition vmb_memory_balloon_devices :: "Id list \<Rightarrow> Id \<Rightarrow> Id objc_op" where
  "vmb_memory_balloon_devices ds = vm_builder (\<lambda>conf. set_memory_balloon_devices conf ds)"

definition vmb_network_devices :: "Id list \<Rightarrow> Id \<Rightarrow> Id objc_op" where
  "vmb_network_devices ds = vm_builder (\<lambda>conf. set_network_devices conf ds)"

definition vmb_serial_ports :: "Id list \<Rightarrow> Id \<Rightarrow> Id objc_op" where
  "vmb_serial_ports ds = vm_builder (\<lambda>conf. set_serial_ports conf ds)"

definition vmb_socket_devices :: "Id list \<Rightarrow> Id \<Rightarrow> Id objc_op" where
  "vmb_socket_devices ds = vm_builder (\<lambda>conf. set_socket_devices conf ds)"

definition vmb_storage_devices :: "Id list \<Rightarrow> Id \<Rightarrow> Id objc_op" where
  "vmb_storage_devices ds = vm_builder (\<lambda>conf. set_storage_devices conf ds)"

definition vmb_directory_sharing_devices :: "Id list \<Rightarrow> Id \<Rightarrow> Id objc_op" where
  "vmb_directory_sharing_devices ds = vm_builder (\<lambda>conf. set_directory_sharing_devices conf ds)"

section \<open>The devices of a boot\<close>

definition boot_loader_object :: "string \<Rightarrow> string \<Rightarrow> string \<Rightarrow> Id objc_op" where
  "boot_loader_object kernel_abs initrd cmdline = boot_loader_build (lb_set_command_line cmdline
     (lb_set_initial_ramdisk_url initrd (lb_set_kernel_url kernel_abs boot_loader_builder_new)))"

definition serial_object :: "int \<Rightarrow> int \<Rightarrow> Id objc_op" where
  "serial_object null_fd log_fd = do {
     read_handle \<leftarrow> file_handle_with_fd null_fd;
     write_handle \<leftarrow> file_handle_with_fd log_fd;
     serial_attachment \<leftarrow> serial_attachment_build
       (sb_set_writing write_handle (sb_set_reading read_handle serial_builder_new));
     serial_port_new serial_attachment }"

definition with_random_mac :: "Id \<Rightarrow> Id objc_op" where
  "with_random_mac nic = do {
     mac \<leftarrow> random_locally_administered_address;
     set_mac_address nic mac;
     State_Monad.return nic }"

fun nic_object :: "VzNic \<Rightarrow> Id objc_op" where
  "nic_object (NatNic _) = do {
     nat_attachment \<leftarrow> nat_attachment_new;
     nat_nic \<leftarrow> network_device_new nat_attachment;
     with_random_mac nat_nic }"
| "nic_object (FileHandleNic socket_fd _) = do {
     file_handle \<leftarrow> file_handle_with_fd socket_fd;
     fh_attachment \<leftarrow> file_handle_attachment_new file_handle;
     nic \<leftarrow> network_device_new fh_attachment;
     with_random_mac nic }"

text \<open>The disks in order; the error of a failed one together with the devices made before it.\<close>

fun disk_objects :: "DiskAttachment list \<Rightarrow> (Id list, Id list \<times> Id) result objc_op" where
  "disk_objects [] = State_Monad.return (Ok [])"
| "disk_objects (a # as) = do {
     r \<leftarrow> disk_attachment_build a;
     case r of
       Err e \<Rightarrow> State_Monad.return (Err ([], e))
     | Ok attachment \<Rightarrow> do {
         dev \<leftarrow> block_device_new attachment;
         rs \<leftarrow> disk_objects as;
         State_Monad.return (case rs of Ok devs \<Rightarrow> Ok (dev # devs)
           | Err (devs, e) \<Rightarrow> Err (dev # devs, e)) } }"

definition share_object :: "VzShare \<Rightarrow> Id objc_op" where
  "share_object sh = do {
     dir \<leftarrow> shared_directory_new (sh_directory sh) (sh_read_only sh);
     share \<leftarrow> single_directory_share_new dir;
     fs_device \<leftarrow> file_system_device_new (sh_tag sh);
     set_share fs_device share;
     State_Monad.return fs_device }"

definition assemble ::
  "Id \<Rightarrow> usize \<Rightarrow> usize \<Rightarrow> Id \<Rightarrow> Id \<Rightarrow> Id list \<Rightarrow> Id \<Rightarrow> Id list \<Rightarrow> Id list \<Rightarrow> Id objc_op" where
  "assemble boot_loader cpus memory_bytes entropy memory_balloon network_devices serial
     storage_devices shared_dirs = do {
     b \<leftarrow> vmb_new;
     b \<leftarrow> vmb_boot_loader boot_loader b;
     b \<leftarrow> vmb_cpu_count cpus b;
     b \<leftarrow> vmb_memory_size memory_bytes b;
     b \<leftarrow> vmb_entropy_devices [entropy] b;
     b \<leftarrow> vmb_memory_balloon_devices [memory_balloon] b;
     b \<leftarrow> vmb_network_devices network_devices b;
     b \<leftarrow> vmb_serial_ports [serial] b;
     b \<leftarrow> vmb_storage_devices storage_devices b;
     if shared_dirs \<noteq> [] then vmb_directory_sharing_devices shared_dirs b else State_Monad.return b }"

text \<open>All of it; when a disk cannot be attached, what has been made is dropped.\<close>

definition configure_objects ::
  "VZVirtualMachineConfiguration \<Rightarrow> int \<Rightarrow> int \<Rightarrow> (Id, Id) result objc_op" where
  "configure_objects c null_fd log_fd = do {
     boot_loader \<leftarrow> boot_loader_object (vc_kernel_url c) (vc_initial_ramdisk_url c) (vc_command_line c);
     serial \<leftarrow> serial_object null_fd log_fd;
     entropy \<leftarrow> entropy_device_new;
     memory_balloon \<leftarrow> memory_balloon_new;
     network_devices \<leftarrow> State_Monad.traverse_list nic_object (vc_network_devices c);
     disks \<leftarrow> disk_objects (vc_storage_devices c);
     case disks of
       Err (storage_devices, e) \<Rightarrow> do {
         drop_all storage_devices; drop_all network_devices; drop_ptr memory_balloon;
         drop_ptr entropy; drop_ptr serial; drop_ptr boot_loader;
         State_Monad.return (Err e) }
     | Ok storage_devices \<Rightarrow> do {
         shared_dirs \<leftarrow> State_Monad.traverse_list share_object (vc_directory_sharing_devices c);
         conf \<leftarrow> assemble boot_loader (vc_cpu_count c) (vc_memory_size c) entropy memory_balloon
           network_devices serial storage_devices shared_dirs;
         State_Monad.return (Ok conf) } }"

section \<open>What the bindings tell\<close>

lemma appends_bindings [intro!]:
  "appends (nsstring_new s)" "appends (file_url_with_path p d)" "appends (absolute_url u)"
  "appends (file_handle_with_fd fd)" "appends (new_object cls)" "appends (boot_loader_new k i c)"
  "appends (network_device_new a)" "appends (file_handle_attachment_new h)"
  "appends random_locally_administered_address" "appends (set_mac_address n m)"
  "appends (serial_attachment_new r w)" "appends (serial_port_new a)"
  "appends (disk_attachment_new p ro)" "appends (disk_attachment_new_with_modes p ro cm sm)"
  "appends (block_device_new a)" "appends (shared_directory_new p ro)" "appends (single_directory_share_new sd)"
  "appends (file_system_device_new tag)" "appends (set_share fsd shr)" "appends (array_with_objects ids)"
  unfolding nsstring_new_def file_url_with_path_def absolute_url_def file_handle_with_fd_def new_object_def
    boot_loader_new_def network_device_new_def file_handle_attachment_new_def set_mac_address_def
    random_locally_administered_address_def serial_attachment_new_def serial_port_new_def
    disk_attachment_new_def disk_attachment_new_with_modes_def block_device_new_def
    shared_directory_new_def single_directory_share_new_def file_system_device_new_def set_share_def
    array_with_objects_def attachment_or_error_def
  by (intro appends_bind appends_primitive appends_if)+

lemmas tell_simps = tell_class_def tell_object_def init_of_def new_of_def set_of_def set_part_def
  set_loader_def selector_simps put_Some put_None promised_def hands_out_def

lemma tells_nsstring: "tells st (nsstring_new s) (made st (TextObject s))"
  unfolding nsstring_new_def block_simps
  by (intro tells_rules) (auto simp: tell_simps intro!: made_upd)

lemma tells_file_handle: "tells st (file_handle_with_fd fd) (made st (HandleObject fd))"
  unfolding file_handle_with_fd_def block_simps
  by (intro tells_rules) (auto simp: tell_simps intro!: made_upd)

lemma tells_new: "new_of cls = Some x \<Longrightarrow> tells st (new_object cls) (made st x)"
  unfolding new_object_def block_simps
  by (intro tells_rules) (auto simp: tell_class_def put_Some put_None promised_def hands_out_def intro!: made_upd)

lemma tells_file_url: "tells st (file_url_with_path p d) (made st (UrlObject p d))"
  unfolding file_url_with_path_def
  by (rule tells_bind [OF tells_nsstring], intro tells_rules)
    (auto simp: tell_simps madeD intro!: made_upd)

lemma tells_absolute_url:
  "st u = Some x \<Longrightarrow> tells st (absolute_url u) (\<lambda>v st'. st \<subseteq>\<^sub>m st' \<and> st' v = Some x)"
  unfolding absolute_url_def
  by (intro tells_rules) (auto simp: tell_simps intro!: map_le_upd_fresh)

lemma tells_loader:
  "tells st (boot_loader_build b)
     (made st (LoaderObject (Some (lb_kernel_url b)) (Some (lb_initial_ramdisk_url b)) (Some (lb_command_line b))))"
proof -
  have set: "tells st1 (do {
       x \<leftarrow> msg_send (Class ''VZLinuxBootLoader'') ''new'' [];
       msg_send (Obj (rp_id x)) ''setKernelURL:'' [IdArg ku];
       msg_send (Obj (rp_id x)) ''setInitialRamdiskURL:'' [IdArg iu];
       msg_send (Obj (rp_id x)) ''setCommandLine:'' [IdArg cl];
       drop_ptr cl; drop_ptr iu; drop_ptr ku; State_Monad.return (rp_id x) })
     (made st1 (LoaderObject (Some k) (Some i) (Some c)))"
    if "st1 ku = Some (UrlObject k d)" "st1 iu = Some (UrlObject i e)" "st1 cl = Some (TextObject c)"
    for st1 ku iu cl k i c d e
    using that
    by (intro tells_rules appends_bind appends_primitive)
      (auto simp: tell_simps split: if_splits intro!: made_upd)
  show ?thesis
    unfolding boot_loader_build_def boot_loader_new_def block_simps
    by (rule tells_bind [OF tells_file_url], rule tells_bind [OF tells_absolute_url], erule madeD(1),
        rule tells_then_silent(2), rule tells_bind [OF tells_file_url],
        rule tells_bind [OF tells_absolute_url], erule madeD(1), rule tells_then_silent(2),
        rule tells_bind [OF tells_nsstring],
        rule tells_weaken [OF set [where k = "lb_kernel_url b" and i = "lb_initial_ramdisk_url b"
          and c = "lb_command_line b" and d = False and e = False]])
      (meson madeD(1,4) map_leD map_le_trans made_le appends_bind appends_primitive appends_bindings)+
qed

lemma tells_network_device:
  "st a = Some (NicAttachment t) \<Longrightarrow> tells st (network_device_new a) (made st (NicObject (Some t) None))"
  unfolding network_device_new_def block_simps
  by (intro tells_rules appends_bind appends_primitive) (auto simp: tell_simps split: if_splits intro: made_upd)

lemma made_with_mac:
  assumes "made st (NicObject t None) nic st1" "st1 m = None"
  shows "made st (NicObject t (Some m)) nic (st1(m \<mapsto> MacObject, nic \<mapsto> NicObject t (Some m)))"
  using made_keep [OF assms(1) map_le_upd_new [of st1 st1, OF map_le_refl assms(2)]] by (rule made_change)

lemma tells_random_mac:
  "made st (NicObject t None) nic st1 \<Longrightarrow>
     tells st1 (with_random_mac nic) (\<lambda>p st'. \<exists>m. p = nic \<and> made st (NicObject t (Some m)) p st')"
  unfolding with_random_mac_def random_locally_administered_address_def set_mac_address_def block_simps State_Monad.bind_assoc
  by (intro tells_rules appends_bind appends_primitive)
    (auto simp: tell_simps madeD split: if_splits intro: made_with_mac)

lemma tells_file_handle_attachment:
  "st h = Some (HandleObject fd) \<Longrightarrow> tells st (file_handle_attachment_new h) (made st (NicAttachment (FdNet fd)))"
  unfolding file_handle_attachment_new_def block_simps
  by (intro tells_rules appends_bind appends_primitive) (auto simp: tell_simps split: if_splits intro: made_upd)

lemma tells_serial_attachment:
  "st r = Some (HandleObject i) \<Longrightarrow> st w = Some (HandleObject j) \<Longrightarrow>
     tells st (serial_attachment_new r w) (made st (SerialAttachment i j))"
  unfolding serial_attachment_new_def block_simps
  by (intro tells_rules appends_bind appends_primitive) (auto simp: tell_simps split: if_splits intro: made_upd)

lemma tells_serial_port:
  "st a = Some (SerialAttachment i j) \<Longrightarrow> tells st (serial_port_new a) (made st (SerialObject (Some (i, j))))"
  unfolding serial_port_new_def block_simps
  by (intro tells_rules appends_bind appends_primitive) (auto simp: tell_simps split: if_splits intro: made_upd)

lemma tells_single_share:
  "st d = Some (DirectoryObject t ro) \<Longrightarrow> tells st (single_directory_share_new d) (made st (ShareObject t ro))"
  unfolding single_directory_share_new_def block_simps
  by (intro tells_rules appends_bind appends_primitive) (auto simp: tell_simps split: if_splits intro: made_upd)

lemma tells_block_device:
  "st a = Some (DiskObject x) \<Longrightarrow> tells st (block_device_new a) (made st (BlockObject x))"
  unfolding block_device_new_def block_simps
  by (intro tells_rules appends_bind appends_primitive) (auto simp: tell_simps split: if_splits intro: made_upd)

lemma tells_shared_directory: "tells st (shared_directory_new p ro) (made st (DirectoryObject p ro))"
  unfolding shared_directory_new_def block_simps
  by (rule tells_bind [OF tells_file_url], intro tells_rules appends_bind appends_primitive)
    (auto simp: tell_simps madeD split: if_splits intro!: made_upd)

lemma tells_file_system_device: "tells st (file_system_device_new tag) (made st (FileSystemObject tag None))"
  unfolding file_system_device_new_def block_simps
  by (rule tells_bind [OF tells_nsstring], intro tells_rules appends_bind appends_primitive)
    (auto simp: tell_simps madeD split: if_splits intro!: made_upd)

lemma tells_set_share:
  "made st (FileSystemObject tag None) dev st1 \<Longrightarrow> st1 sh = Some (ShareObject t ro) \<Longrightarrow>
     tells st1 (set_share dev sh) (\<lambda>_. made st (FileSystemObject tag (Some (t, ro))) dev)"
  unfolding set_share_def
  by (intro tells_rules appends_bind appends_primitive)
    (auto simp: tell_simps madeD split: if_splits intro: made_change)

text \<open>A disk: described by its path, its mode and, if it has them, its two codes.\<close>

definition disk_told_of :: "DiskAttachment \<Rightarrow> disk_told" where
  "disk_told_of a = (da_path a, da_read_only a,
     map_option (\<lambda>(c, s). (caching_code c, sync_code s)) (disk_modes a))"

definition disk_made :: "vz_store \<Rightarrow> disk_told \<Rightarrow> (Id, Id) result \<Rightarrow> vz_store \<Rightarrow> bool" where
  "disk_made st x r st' \<longleftrightarrow> st \<subseteq>\<^sub>m st' \<and>
     (case r of Err e \<Rightarrow> True | Ok p \<Rightarrow> made st (DiskObject x) p st')"

lemma tells_attachment_or_error:
  "st \<subseteq>\<^sub>m st1 \<Longrightarrow> e \<noteq> NIL \<or> made st (DiskObject x) q st1 \<Longrightarrow>
     tells st1 (attachment_or_error e q u) (disk_made st x)"
  unfolding attachment_or_error_def
  by (auto intro!: tells_rules simp: disk_made_def)

lemma tells_disk: "tells st (disk_attachment_build a) (disk_made st (disk_told_of a))"
proof -
  have "tells st (disk_attachment_new p ro) (disk_made st (p, ro, None))" for p ro
    unfolding disk_attachment_new_def block_simps
    by (rule tells_then_msg, simp add: tell_simps, rule tells_bind [OF tells_file_url], rule tells_then_msg,
        (auto simp: tell_simps madeD)[1], rule tells_attachment_or_error)
      (auto simp: tell_simps madeD attachment_or_error_def split: if_splits
        intro!: made_upd map_le_upd_new)
  moreover have "tells st (disk_attachment_new_with_modes p ro c m) (disk_made st (p, ro, Some (c, m)))" for p ro c m
    unfolding disk_attachment_new_with_modes_def block_simps
    by (rule tells_then_msg, simp add: tell_simps, rule tells_bind [OF tells_file_url], rule tells_then_msg,
        (auto simp: tell_simps madeD)[1], rule tells_attachment_or_error)
      (auto simp: tell_simps madeD attachment_or_error_def split: if_splits
        intro!: made_upd map_le_upd_new)
  ultimately show ?thesis
    by (auto simp: disk_attachment_build_def disk_told_of_def split: option.split)
qed

section \<open>What a boot tells\<close>

lemma appends_device [intro!]:
  "appends (boot_loader_object k i c)" "appends (serial_object r w)" "appends (with_random_mac n)"
  "appends (nic_object nc)" "appends (disk_attachment_build a)" "appends (disk_objects as)" "appends (share_object sh)"
proof -
  show d: "appends (disk_attachment_build a)" for a
    by (auto simp: disk_attachment_build_def split: option.split)
  show "appends (disk_objects as)"
    by (induction as) (auto intro!: d split: result.split)
  show m: "appends (with_random_mac n)" for n by (auto simp: with_random_mac_def)
  show "appends (nic_object nc)"
    by (cases nc) (auto intro!: m simp: nat_attachment_new_def)
qed (auto simp: boot_loader_object_def boot_loader_build_def serial_object_def serial_attachment_build_def
    share_object_def)

lemma tells_boot_loader_object:
  "tells st (boot_loader_object k i c) (made st (LoaderObject (Some k) (Some i) (Some c)))"
  unfolding boot_loader_object_def
  by (rule tells_weaken [OF tells_loader])
    (simp add: lb_set_command_line_def lb_set_initial_ramdisk_url_def lb_set_kernel_url_def)

lemma tells_serial_object: "tells st (serial_object r w) (made st (SerialObject (Some (r, w))))"
  unfolding serial_object_def serial_attachment_build_def sb_set_writing_def sb_set_reading_def
  by (rule tells_bind [OF tells_file_handle], rule tells_bind [OF tells_file_handle],
      rule tells_bind [OF tells_serial_attachment [where i = r and j = w]],
      simp add: madeD, simp add: madeD, rule tells_weaken [OF tells_serial_port [where i = r and j = w]])
    (auto intro!: madeD(1) intro: made_le map_le_trans madeD(4))

fun net_of :: "VzNic \<Rightarrow> nic_attachment" where
  "net_of (NatNic _) = NatNet"
| "net_of (FileHandleNic fd _) = FdNet fd"

lemma tells_card:
  assumes "st1 a = Some (NicAttachment t)" "st \<subseteq>\<^sub>m st1"
  shows "tells st1 (do { nic \<leftarrow> network_device_new a; with_random_mac nic })
    (\<lambda>p st'. \<exists>m. made st (NicObject (Some t) (Some m)) p st')"
  by (rule tells_bind [OF tells_network_device], rule assms, rule tells_weaken [OF tells_random_mac])
    (auto intro: made_le assms(2))

lemma tells_nic: "tells st (nic_object n) (\<lambda>p st'. \<exists>m. made st (NicObject (Some (net_of n)) (Some m)) p st')"
proof (cases n)
  case (NatNic mac)
  have "tells st nat_attachment_new (made st (NicAttachment NatNet))"
    unfolding nat_attachment_new_def by (rule tells_new) (simp add: new_of_def)
  then show ?thesis unfolding NatNic nic_object.simps
    by (rule tells_bind) (auto intro!: tells_card simp: madeD)
next
  case (FileHandleNic fd mac)
  show ?thesis unfolding FileHandleNic nic_object.simps
    by (rule tells_bind [OF tells_file_handle], rule tells_bind [OF tells_file_handle_attachment],
        rule madeD(1), assumption)
      (auto intro!: tells_card simp: madeD intro: map_le_trans [OF madeD(4) madeD(4)])
qed

lemma tells_share:
  "tells st (share_object sh)
     (made st (FileSystemObject (sh_tag sh) (Some (sh_directory sh, sh_read_only sh))))"
  unfolding share_object_def
  by (rule tells_bind [OF tells_shared_directory], rule tells_bind [OF tells_single_share],
      rule madeD(1), assumption, rule tells_bind [OF tells_file_system_device],
      rule tells_bind [OF tells_set_share [where st = st]])
    (auto intro!: tells_return intro: made_le map_le_trans [OF madeD(4) madeD(4)] madeD)

text \<open>Lists of devices.\<close>

lemma tells_traverse:
  assumes "\<And>st x. tells st (f x) (\<lambda>p st'. \<exists>d. D x d \<and> made st d p st')" "\<And>x. appends (f x)"
  shows "tells st (State_Monad.traverse_list f xs)
    (\<lambda>ps st'. st \<subseteq>\<^sub>m st' \<and> list_all2 (\<lambda>x p. \<exists>d. D x d \<and> st' p = Some d) xs ps)"
proof (induction xs arbitrary: st)
  case (Cons x xs)
  show ?case
    unfolding traverse_list.simps
  proof (rule tells_bind [OF assms(1)], elim exE conjE, rule tells_bind [OF Cons], elim conjE)
    fix p st1 d ps st2
    assume d: "D x d" "made st d p st1" and le: "st1 \<subseteq>\<^sub>m st2"
      and ps: "list_all2 (\<lambda>x p. \<exists>d. D x d \<and> st2 p = Some d) xs ps"
    then have "st2 p = Some d" "st \<subseteq>\<^sub>m st2" by (auto dest: madeD(1,4) map_leD intro: map_le_trans)
    then show "tells st2 (State_Monad.return (p # ps))
      (\<lambda>ps st'. st \<subseteq>\<^sub>m st' \<and> list_all2 (\<lambda>x p. \<exists>d. D x d \<and> st' p = Some d) (x # xs) ps)"
      using d(1) ps by (auto intro!: tells_return)
  qed (use assms(2) in auto)
qed (auto intro: tells_return)

section \<open>The configuration told\<close>

lemma tells_disks:
  "tells st (disk_objects as) (\<lambda>r st'. st \<subseteq>\<^sub>m st' \<and> (case r of Err _ \<Rightarrow> True
     | Ok ps \<Rightarrow> list_all2 (\<lambda>a p. st' p = Some (BlockObject (disk_told_of a))) as ps))"
proof (induction as arbitrary: st)
  case (Cons a as)
  show ?case
    unfolding disk_objects.simps
  proof (rule tells_bind [OF tells_disk], goal_cases)
    case (1 r st1)
    show ?case
    proof (cases r)
      case (Err e)
      then show ?thesis using 1 by (auto simp: disk_made_def intro: tells_return)
    next
      case (Ok p)
      have blk: "tells st1 (block_device_new p) (made st1 (BlockObject (disk_told_of a)))"
        using 1 Ok by (auto simp: disk_made_def madeD intro!: tells_block_device)
      have "st \<subseteq>\<^sub>m st1" using 1 by (simp add: disk_made_def)
      then show ?thesis unfolding Ok result.case
        by (intro tells_bind [OF blk] tells_bind [OF Cons] tells_return)
          (auto split: result.splits intro: map_le_trans [OF _ map_le_trans [OF madeD(4)]] dest: map_leD madeD(1))
    qed
  qed (auto split: result.split)
qed (auto intro: tells_return)

text \<open>Setting a part of the configuration object.\<close>

lemma those_map_Some: "list_all2 (\<lambda>p x. st p = Some x) ps xs \<Longrightarrow> those (map st ps) = Some xs"
  by (induction rule: list_all2_induct) auto

lemma tells_set_message:
  assumes "made st (ConfObject c) conf st1" "set_conf sel (arg_object st1 a) (arg_num a) c = Some c'"
    "\<not> inits sel" "sel \<noteq> ''absoluteURL''"
  shows "tells st1 (msg_send (Obj conf) sel [a]) (\<lambda>_. made st (ConfObject c') conf)"
  by (rule tells_weaken [OF tells_msg])
    (use assms in \<open>auto simp: tell_object_def set_of_def madeD intro: made_change\<close>)

lemma tells_set_devices:
  assumes "made st (ConfObject c) conf st1" "list_all2 (\<lambda>p x. st p = Some x) ids xs"
    "set_conf sel (Some (ArrayObject xs)) 0 c = Some c'" "\<not> inits sel" "sel \<noteq> ''absoluteURL''"
  shows "tells st1 (vm_builder (\<lambda>conf. set_devices sel conf ids) conf)
    (\<lambda>p st'. p = conf \<and> made st (ConfObject c') conf st')"
proof -
  have ids: "those (map st1 ids) = Some xs"
    using assms(1,2) by (auto intro!: those_map_Some elim!: list_all2_mono dest: madeD(5))
  have arr: "tells st1 (array_with_objects ids)
      (\<lambda>p st'. st' p = Some (ArrayObject xs) \<and> made st (ConfObject c) conf st')"
    unfolding array_with_objects_def block_simps
    by (intro tells_rules) (auto simp: tell_class_def ids put_Some put_None promised_def hands_out_def
        intro!: made_keep [OF assms(1)] map_le_upd_new)
  show ?thesis
    unfolding vm_builder_def set_devices_def State_Monad.bind_assoc
    by (rule tells_bind [OF arr], elim conjE, rule tells_bind [OF tells_set_message [where c' = c']])
      (use assms in \<open>auto intro!: tells_rules\<close>)
qed

lemma tells_set_number:
  assumes "made st (ConfObject c) conf st1" "set_conf sel None n c = Some c'" "\<not> inits sel" "sel \<noteq> ''absoluteURL''"
  shows "tells st1 (do { msg_send (Obj conf) sel [NumArg n]; State_Monad.return () })
    (\<lambda>_. made st (ConfObject c') conf)"
  by (rule tells_bind [OF tells_set_message [where c' = c']]) (use assms in \<open>auto intro!: tells_return\<close>)

text \<open>All parts: what \<open>assemble\<close> tells.\<close>

definition conf_of ::
  "string \<times> string \<times> string \<Rightarrow> usize \<Rightarrow> usize \<Rightarrow> (nic_attachment \<times> Id) list \<Rightarrow> int \<times> int \<Rightarrow> disk_told list
     \<Rightarrow> VzShare list \<Rightarrow> conf_told" where
  "conf_of ld cpus mem nics ser disks shares =
     \<lparr>ct_loader = Some (Some (fst ld), Some (fst (snd ld)), Some (snd (snd ld))), ct_cpus = Some (uint cpus),
      ct_memory = Some (uint mem), ct_entropy = 1, ct_balloons = 1,
      ct_nics = map (\<lambda>(t, m). (Some t, Some m)) nics, ct_serial = [Some ser], ct_storage = disks,
      ct_shares = map (\<lambda>sh. (sh_tag sh, Some (sh_directory sh, sh_read_only sh))) shares\<rparr>"

lemma those_parts:
  "nics_of (map (\<lambda>(t, m). NicObject (Some t) (Some m)) nics) = Some (map (\<lambda>(t, m). (Some t, Some m)) nics)"
  "blocks_of (map BlockObject disks) = Some disks"
  "shares_of (map (\<lambda>sh. FileSystemObject (sh_tag sh) (Some (sh_directory sh, sh_read_only sh))) shares)
     = Some (map (\<lambda>sh. (sh_tag sh, Some (sh_directory sh, sh_read_only sh))) shares)"
  unfolding nics_of_def blocks_of_def shares_of_def by (induction nics, auto) (induction disks, auto, induction shares, auto)

lemma tells_builder_loader:
  assumes "made st (ConfObject c) conf st1" "st bl = Some (LoaderObject k i l)"
  shows "tells st1 (vmb_boot_loader bl conf)
    (\<lambda>p st'. p = conf \<and> made st (ConfObject (c\<lparr>ct_loader := Some (k, i, l)\<rparr>)) conf st')"
  unfolding vmb_boot_loader_def vm_builder_def set_boot_loader_def State_Monad.bind_assoc
  by (rule tells_bind [OF tells_set_message [where c' = "c\<lparr>ct_loader := Some (k, i, l)\<rparr>"]])
    (use assms in \<open>auto intro!: tells_rules simp: madeD(5) set_conf_def selector_simps\<close>)

lemma tells_builder_numbers:
  assumes "made st (ConfObject c) conf st1"
  shows "tells st1 (vmb_cpu_count n conf) (\<lambda>p st'. p = conf \<and> made st (ConfObject (c\<lparr>ct_cpus := Some (uint n)\<rparr>)) conf st')"
    "tells st1 (vmb_memory_size n conf) (\<lambda>p st'. p = conf \<and> made st (ConfObject (c\<lparr>ct_memory := Some (uint n)\<rparr>)) conf st')"
  unfolding vmb_cpu_count_def vmb_memory_size_def vm_builder_def set_cpu_count_def set_memory_size_def
  by (rule tells_bind [OF tells_set_number], rule assms, simp add: set_conf_def, simp add: selector_simps, simp,
      rule tells_return, simp, rule appends_primitive)+


lemmas builder_list_defs = vmb_entropy_devices_def vmb_memory_balloon_devices_def vmb_serial_ports_def
  vmb_network_devices_def vmb_storage_devices_def vmb_directory_sharing_devices_def
  set_entropy_devices_def set_memory_balloon_devices_def set_serial_ports_def set_network_devices_def
  set_storage_devices_def set_directory_sharing_devices_def

lemmas set_list_simps = set_conf_def selector_simps those_parts list_all2_map2 serials_of_def

lemma tells_builder_single:
  assumes "made st (ConfObject c) conf st1"
  shows "st e = Some EntropyObject \<Longrightarrow> tells st1 (vmb_entropy_devices [e] conf)
      (\<lambda>p st'. p = conf \<and> made st (ConfObject (c\<lparr>ct_entropy := 1\<rparr>)) conf st')"
    "st b = Some BalloonObject \<Longrightarrow> tells st1 (vmb_memory_balloon_devices [b] conf)
      (\<lambda>p st'. p = conf \<and> made st (ConfObject (c\<lparr>ct_balloons := 1\<rparr>)) conf st')"
    "st s = Some (SerialObject x) \<Longrightarrow> tells st1 (vmb_serial_ports [s] conf)
      (\<lambda>p st'. p = conf \<and> made st (ConfObject (c\<lparr>ct_serial := [x]\<rparr>)) conf st')"
  unfolding builder_list_defs
  using tells_set_devices [OF assms, of "[e]" "[EntropyObject]"]
    tells_set_devices [OF assms, of "[b]" "[BalloonObject]"]
    tells_set_devices [OF assms, of "[s]" "[SerialObject x]"]
  by (simp_all add: set_list_simps)

lemma tells_builder_lists:
  assumes "made st (ConfObject c) conf st1"
  shows "list_all2 (\<lambda>p (t, m). st p = Some (NicObject (Some t) (Some m))) ns nics \<Longrightarrow>
      tells st1 (vmb_network_devices ns conf)
      (\<lambda>p st'. p = conf \<and> made st (ConfObject (c\<lparr>ct_nics := map (\<lambda>(t, m). (Some t, Some m)) nics\<rparr>)) conf st')"
    "list_all2 (\<lambda>p d. st p = Some (BlockObject d)) ds disks \<Longrightarrow> tells st1 (vmb_storage_devices ds conf)
      (\<lambda>p st'. p = conf \<and> made st (ConfObject (c\<lparr>ct_storage := disks\<rparr>)) conf st')"
    "list_all2 (\<lambda>p sh. st p = Some (FileSystemObject (sh_tag sh) (Some (sh_directory sh, sh_read_only sh)))) fs shares
      \<Longrightarrow> tells st1 (vmb_directory_sharing_devices fs conf)
      (\<lambda>p st'. p = conf \<and> made st (ConfObject (c\<lparr>ct_shares :=
         map (\<lambda>sh. (sh_tag sh, Some (sh_directory sh, sh_read_only sh))) shares\<rparr>)) conf st')"
  unfolding builder_list_defs
  subgoal by (rule tells_set_devices [OF assms, where xs = "map (\<lambda>(t, m). NicObject (Some t) (Some m)) nics"])
      (simp_all add: set_list_simps case_prod_unfold those_parts(1) [unfolded case_prod_unfold])
  subgoal by (rule tells_set_devices [OF assms, where xs = "map BlockObject disks"])
      (simp_all add: set_list_simps)
  subgoal by (rule tells_set_devices [OF assms, where xs =
        "map (\<lambda>sh. FileSystemObject (sh_tag sh) (Some (sh_directory sh, sh_read_only sh))) shares"])
      (simp_all add: set_list_simps)
  done

lemma appends_builder [intro!]:
  "appends (vmb_boot_loader bl conf)" "appends (vmb_cpu_count n conf)" "appends (vmb_memory_size n conf)"
  "appends (vmb_entropy_devices ds conf)" "appends (vmb_memory_balloon_devices ds conf)"
  "appends (vmb_network_devices ds conf)" "appends (vmb_serial_ports ds conf)"
  "appends (vmb_storage_devices ds conf)" "appends (vmb_directory_sharing_devices ds conf)"
  by (auto simp: builder_list_defs vm_builder_def set_devices_def vmb_boot_loader_def set_boot_loader_def
      vmb_cpu_count_def set_cpu_count_def vmb_memory_size_def set_memory_size_def)

lemma tells_assemble:
  assumes "st bl = Some (LoaderObject (Some k) (Some i) (Some l))" "st e = Some EntropyObject"
    "st b = Some BalloonObject" "st s = Some (SerialObject (Some ser))"
    "list_all2 (\<lambda>p (t, m). st p = Some (NicObject (Some t) (Some m))) ns nics"
    "list_all2 (\<lambda>p d. st p = Some (BlockObject d)) ds disks"
    "list_all2 (\<lambda>p sh. st p = Some (FileSystemObject (sh_tag sh) (Some (sh_directory sh, sh_read_only sh)))) fs shares"
  shows "tells st (assemble bl cpus mem e b ns s ds fs)
    (made st (ConfObject (conf_of (k, i, l) cpus mem nics ser disks shares)))"
proof -
  have new: "tells st vmb_new (made st (ConfObject empty_conf))"
    unfolding vmb_new_def vm_configuration_new_def by (rule tells_new) (simp add: new_of_def)
  have same: "c\<lparr>ct_shares := []\<rparr> = c" if "ct_shares c = []" for c :: conf_told
    using that by (cases c) simp
  have "fs = [] \<longleftrightarrow> shares = []" using assms(7) by auto
  then have shares: "tells st2 (if fs \<noteq> [] then vmb_directory_sharing_devices fs conf else State_Monad.return conf)
      (made st (ConfObject (c\<lparr>ct_shares := map (\<lambda>sh. (sh_tag sh, Some (sh_directory sh, sh_read_only sh))) shares\<rparr>)))"
    if "made st (ConfObject c) conf st2" "ct_shares c = []" for c conf st2
    using that tells_builder_lists(3) [OF that(1) assms(7)] 
    by (auto intro!: tells_return elim: tells_weaken simp: same)
  show ?thesis
    unfolding assemble_def
    by (rule tells_bind [OF new], rule tells_bind [OF tells_builder_loader], assumption, rule assms(1),
        elim conjE, rule tells_bind [OF tells_builder_numbers(1)], simp,
        elim conjE, rule tells_bind [OF tells_builder_numbers(2)], simp,
        elim conjE, rule tells_bind [OF tells_builder_single(1)], simp, rule assms(2),
        elim conjE, rule tells_bind [OF tells_builder_single(2)], simp, rule assms(3),
        elim conjE, rule tells_bind [OF tells_builder_lists(1)], simp, rule assms(5),
        elim conjE, rule tells_bind [OF tells_builder_single(3)], simp, rule assms(4),
        elim conjE, rule tells_bind [OF tells_builder_lists(2)], simp, rule assms(6),
        elim conjE, rule tells_weaken [OF shares])
      (auto simp: conf_of_def empty_conf_def)
qed

section \<open>The whole configuration\<close>

definition cards_told :: "vz_store \<Rightarrow> VzNic list \<Rightarrow> Id list \<Rightarrow> bool" where
  "cards_told st = list_all2 (\<lambda>n p. \<exists>d. (\<exists>m. d = NicObject (Some (net_of n)) (Some m)) \<and> st p = Some d)"

lemma cards_told_macs:
  "cards_told st ns ps \<Longrightarrow> \<exists>macs. length macs = length ns
     \<and> list_all2 (\<lambda>p (t, m). st p = Some (NicObject (Some t) (Some m))) ps (zip (map net_of ns) macs)"
  unfolding cards_told_def
proof (induction rule: list_all2_induct)
  case (Cons n ns p ps)
  then obtain m macs where "st p = Some (NicObject (Some (net_of n)) (Some m))" "length macs = length ns"
    "list_all2 (\<lambda>p (t, m). st p = Some (NicObject (Some t) (Some m))) ps (zip (map net_of ns) macs)" by blast
  then show ?case by (intro exI [of _ "m # macs"]) simp
qed simp

lemma list_all2_keep:
  "list_all2 (\<lambda>x p. \<exists>d. D x d \<and> st p = Some d) xs ps \<Longrightarrow> st \<subseteq>\<^sub>m st' \<Longrightarrow>
     list_all2 (\<lambda>x p. \<exists>d. D x d \<and> st' p = Some d) xs ps"
  by (erule list_all2_mono) (auto dest: map_leD)

text \<open>What is known before the parts are put together.\<close>

definition parts_told ::
  "VZVirtualMachineConfiguration \<Rightarrow> int \<times> int \<Rightarrow> Id \<Rightarrow> Id \<Rightarrow> Id \<Rightarrow> Id \<Rightarrow> Id list \<Rightarrow> vz_store \<Rightarrow> bool" where
  "parts_told c ser bl s e b ns st \<longleftrightarrow>
     st bl = Some (LoaderObject (Some (vc_kernel_url c)) (Some (vc_initial_ramdisk_url c)) (Some (vc_command_line c)))
     \<and> st s = Some (SerialObject (Some ser)) \<and> st e = Some EntropyObject \<and> st b = Some BalloonObject
     \<and> cards_told st (vc_network_devices c) ns"

lemma parts_told_keep: "parts_told c ser bl s e b ns st \<Longrightarrow> st \<subseteq>\<^sub>m st' \<Longrightarrow> parts_told c ser bl s e b ns st'"
  unfolding parts_told_def cards_told_def by (auto dest: map_leD list_all2_keep)

definition conf_matches ::
  "VZVirtualMachineConfiguration \<Rightarrow> int \<times> int \<Rightarrow> conf_told \<Rightarrow> bool" where
  "conf_matches c ser t \<longleftrightarrow> (\<exists>macs. length macs = length (vc_network_devices c)
     \<and> t = conf_of (vc_kernel_url c, vc_initial_ramdisk_url c, vc_command_line c) (vc_cpu_count c)
         (vc_memory_size c) (zip (map net_of (vc_network_devices c)) macs) ser
         (map disk_told_of (vc_storage_devices c)) (vc_directory_sharing_devices c))"

lemma tells_parts_assemble:
  assumes "parts_told c ser bl s e b ns st"
    "list_all2 (\<lambda>a p. st p = Some (BlockObject (disk_told_of a))) (vc_storage_devices c) ds"
    "list_all2 (\<lambda>sh p. \<exists>d. d = FileSystemObject (sh_tag sh) (Some (sh_directory sh, sh_read_only sh)) \<and> st p = Some d)
       (vc_directory_sharing_devices c) fs"
  shows "tells st (assemble bl (vc_cpu_count c) (vc_memory_size c) e b ns s ds fs)
    (\<lambda>conf st'. \<exists>t. conf_matches c ser t \<and> made st (ConfObject t) conf st')"
proof -
  obtain macs where macs: "length macs = length (vc_network_devices c)"
    "list_all2 (\<lambda>p (t, m). st p = Some (NicObject (Some t) (Some m))) ns (zip (map net_of (vc_network_devices c)) macs)"
    using cards_told_macs [of st "vc_network_devices c" ns] assms(1) unfolding parts_told_def by blast
  have "list_all2 (\<lambda>p d. st p = Some (BlockObject d)) ds (map disk_told_of (vc_storage_devices c))"
    using assms(2) by (simp add: list_all2_map2 list_all2_conv_all_nth)
  moreover have "list_all2 (\<lambda>p sh. st p = Some (FileSystemObject (sh_tag sh) (Some (sh_directory sh, sh_read_only sh))))
      fs (vc_directory_sharing_devices c)"
    using assms(3) by (simp add: list_all2_conv_all_nth)
  ultimately show ?thesis
    using assms(1) macs
    by (intro tells_weaken [OF tells_assemble [OF _ _ _ _ macs(2)]])
      (auto simp: parts_told_def conf_matches_def)
qed

lemma appends_assemble [intro!]: "appends (assemble bl cpus mem e b ns s ds fs)"
  by (auto simp: assemble_def vmb_new_def vm_configuration_new_def)

lemma parts_toldI:
  assumes "made st (LoaderObject (Some (vc_kernel_url c)) (Some (vc_initial_ramdisk_url c)) (Some (vc_command_line c))) bl st1"
    "made st1 (SerialObject (Some ser)) s st2" "made st2 EntropyObject e st3" "made st3 BalloonObject b st4"
    "st4 \<subseteq>\<^sub>m st5" "cards_told st5 (vc_network_devices c) ns"
  shows "parts_told c ser bl s e b ns st5" "st \<subseteq>\<^sub>m st5"
proof -
  have le: "st3 \<subseteq>\<^sub>m st5" "st2 \<subseteq>\<^sub>m st5" "st1 \<subseteq>\<^sub>m st5"
    using assms(2-5) by (meson madeD(4) map_le_trans)+
  then show "st \<subseteq>\<^sub>m st5" using assms(1) by (meson madeD(4) map_le_trans)
  show "parts_told c ser bl s e b ns st5"
    using assms le by (auto simp: parts_told_def dest: madeD(1) map_leD)
qed

text \<open>The last part: disks, shared directories and the assembly.\<close>

lemma tells_configure_rest:
  assumes "parts_told c ser bl s e b ns st1" "st \<subseteq>\<^sub>m st1"
  shows "tells st1 (disk_objects (vc_storage_devices c) \<bind> (\<lambda>disks. case disks of
       Err (ds, err) \<Rightarrow> do { drop_all ds; drop_all ns; drop_ptr b; drop_ptr e; drop_ptr s; drop_ptr bl;
         State_Monad.return (Err err) }
     | Ok ds \<Rightarrow> do {
         fs \<leftarrow> State_Monad.traverse_list share_object (vc_directory_sharing_devices c);
         conf \<leftarrow> assemble bl (vc_cpu_count c) (vc_memory_size c) e b ns s ds fs;
         State_Monad.return (Ok conf) }))
    (\<lambda>r st'. case r of Err e \<Rightarrow> st \<subseteq>\<^sub>m st'
     | Ok conf \<Rightarrow> \<exists>t. conf_matches c ser t \<and> made st (ConfObject t) conf st')"
proof (rule tells_bind [OF tells_disks], goal_cases)
  case (1 r st2)
  show ?case
  proof (cases r)
    case (Err x)
    then show ?thesis using 1 assms(2) by (cases x) (auto intro!: tells_rules intro: map_le_trans)
  next
    case (Ok ds)
    have share: "tells st (share_object sh) (\<lambda>p st'. \<exists>d. d = FileSystemObject (sh_tag sh)
        (Some (sh_directory sh, sh_read_only sh)) \<and> made st d p st')" for st sh
      using tells_share by simp
    show ?thesis unfolding Ok result.case
    proof (rule tells_bind [OF tells_traverse [OF share]], fast, goal_cases)
      case (1 fs st3)
      have "parts_told c ser bl s e b ns st3" "st \<subseteq>\<^sub>m st3"
        using assms \<open>st1 \<subseteq>\<^sub>m st2 \<and> _\<close> 1 by (auto intro: parts_told_keep map_le_trans)
      moreover have "list_all2 (\<lambda>a p. st3 p = Some (BlockObject (disk_told_of a))) (vc_storage_devices c) ds"
        using \<open>st1 \<subseteq>\<^sub>m st2 \<and> _\<close> 1 Ok by (auto elim!: list_all2_mono dest: map_leD)
      ultimately show ?case using 1
        by (intro tells_bind [OF tells_parts_assemble] tells_return) (auto intro: made_le)
    qed auto
  qed
qed (auto split: result.split prod.split)

lemma tells_configure:
  "tells st (configure_objects c null_fd log_fd) (\<lambda>r st'. case r of Err e \<Rightarrow> st \<subseteq>\<^sub>m st'
     | Ok conf \<Rightarrow> \<exists>t. conf_matches c (null_fd, log_fd) t \<and> made st (ConfObject t) conf st')"
proof -
  have dev: "tells st entropy_device_new (made st EntropyObject)" "tells st memory_balloon_new (made st BalloonObject)" for st
    unfolding entropy_device_new_def memory_balloon_new_def by (rule tells_new; simp add: new_of_def)+
  have card: "tells st (nic_object n) (\<lambda>p st'. \<exists>d. (\<exists>m. d = NicObject (Some (net_of n)) (Some m)) \<and> made st d p st')"
    for st n by (rule tells_weaken [OF tells_nic]) auto
  have app: "appends (entropy_device_new)" "appends memory_balloon_new"
    by (auto simp: entropy_device_new_def memory_balloon_new_def)
  show ?thesis
    unfolding configure_objects_def
    by (rule tells_bind [OF tells_boot_loader_object], rule tells_bind [OF tells_serial_object],
        rule tells_bind [OF dev(1)], rule tells_bind [OF dev(2)], rule tells_bind [OF tells_traverse [OF card]],
        fast, elim conjE, rule tells_configure_rest, rule parts_toldI, assumption+, simp add: cards_told_def,
        rule parts_toldI, assumption+, simp add: cards_told_def)
      (auto intro!: app split: result.split prod.split)
qed

section \<open>From the configuration of a VM to what the framework is told\<close>

text \<open>The disks of the driver are the ones its builders make.\<close>

lemma boot_disks:
  "root_disk p = \<lparr>da_path = p, da_read_only = False, da_caching_mode = Some CacheAutomatic, da_sync_mode = Some SyncFull\<rparr>"
  "seed_disk p = \<lparr>da_path = p, da_read_only = True, da_caching_mode = None, da_sync_mode = None\<rparr>"
  by (simp_all add: root_disk_def seed_disk_def built_disk_def disk_builder_new_def db_set_path_def
      db_set_read_only_def db_set_caching_mode_def db_set_sync_mode_def)

lemma disks_told:
  assumes "list_all2 (disk_for api A) xs ds" "set (map (snd \<circ> snd) xs) \<subseteq> {None, Some (CacheAutomatic, SyncFull)}"
  shows "list_all2 (\<lambda>(p, ro, modes) (s, ro', codes). resolved api A p s \<and> ro' = ro
      \<and> codes = map_option (\<lambda>_. (0, 1)) modes) xs (map disk_told_of ds)"
  using assms by (induction rule: list_all2_induct) (auto simp: disk_for_def disk_told_of_def)

lemma cards_told_nics:
  assumes "list_all2 (card_for api A) nets nics" "length macs = length nics"
  shows "list_all2 (\<lambda>net x. \<exists>ep fd m. \<exists>i\<in>A. net = SocketPairFd ep \<and> try_clone_owned (va_dup api i) ep = Ok fd
        \<and> x = (Some (FdNet fd), Some m))
      nets (map (\<lambda>(n, m). (Some n, Some m)) (zip (map net_of nics) macs))"
  using assms
proof (induction arbitrary: macs rule: list_all2_induct)
  case (Cons net nets nic nics)
  then obtain m ms where "macs = m # ms" "length ms = length nics" by (cases macs) auto
  then show ?case using Cons by (auto simp: card_for_def)
qed simp

lemma shares_told:
  "map (\<lambda>s. (sh_tag s, Some (sh_directory s), sh_read_only s)) shs = map (\<lambda>v. (f v, g v, r v)) vs \<Longrightarrow>
     map ((\<lambda>(tag, s). (tag, map_option (\<lambda>(d, ro). (Some d, ro)) s))
       \<circ> (\<lambda>s. (sh_tag s, Some (sh_directory s, sh_read_only s)))) shs = map (\<lambda>v. (f v, Some (g v, r v))) vs"
  by (drule arg_cong [where f = "map (\<lambda>(t, d, ro). (t, Some (d, ro)))"]) (simp add: comp_def)

text \<open>What a configuration object of a VM says, with the paths and the descriptors the machine
  answered in the calls \<open>A\<close>.\<close>

definition describes_vm ::
  "vz_api \<Rightarrow> nat set \<Rightarrow> VmConfig \<Rightarrow> int \<times> int \<Rightarrow> conf_told \<Rightarrow> bool" where
  "describes_vm api A cfg ser t \<longleftrightarrow> (\<exists>kernel_abs initrd mac nics.
     resolved api A (cfg_kernel cfg) kernel_abs
     \<and> (\<exists>p. cfg_initramfs cfg = Some p \<and> resolved api A p initrd)
     \<and> ct_loader t = Some (Some kernel_abs, Some initrd,
         Some (vz_cmdline cfg (map_option (\<lambda>_. []) (cfg_root_disk cfg))))
     \<and> ct_cpus t = Some (uint (cfg_cpus cfg)) \<and> ct_memory t = Some (uint (cfg_memory_mb cfg * 1024 * 1024))
     \<and> ct_entropy t = 1 \<and> ct_balloons t = 1 \<and> ct_serial t = [Some ser]
     \<and> ct_nics t = (Some NatNet, Some mac) # nics
     \<and> list_all2 (\<lambda>net x. \<exists>ep fd m. \<exists>i\<in>A. net = SocketPairFd ep
         \<and> try_clone_owned (va_dup api i) ep = Ok fd \<and> x = (Some (FdNet fd), Some m)) (cfg_networks cfg) nics
     \<and> list_all2 (\<lambda>(p, ro, modes) (s, ro', codes). resolved api A p s \<and> ro' = ro
         \<and> codes = map_option (\<lambda>_. (0, 1)) modes) (wanted_disks cfg) (ct_storage t)
     \<and> map (\<lambda>(tag, s). (tag, map_option (\<lambda>(d, ro). (Some d, ro)) s)) (ct_shares t) =
         map (\<lambda>v. (sd_tag v, Some (path_to_str (sd_host_path v), sd_read_only v))) (cfg_shared_dirs cfg))"

lemma conf_matches_describes:
  assumes "configured api A cfg c" "conf_matches c ser t"
  shows "describes_vm api A cfg ser t"
proof -
  note conf = assms(1) [unfolded configured_def]
  obtain macs where macs: "length macs = length (vc_network_devices c)"
    "t = conf_of (vc_kernel_url c, vc_initial_ramdisk_url c, vc_command_line c) (vc_cpu_count c)
       (vc_memory_size c) (zip (map net_of (vc_network_devices c)) macs) ser
       (map disk_told_of (vc_storage_devices c)) (vc_directory_sharing_devices c)"
    using assms(2) by (auto simp: conf_matches_def)
  obtain nat_mac nics where nics: "vc_network_devices c = NatNic nat_mac # nics"
    "list_all2 (card_for api A) (cfg_networks cfg) nics"
    using conf by blast
  obtain m ms where ms: "macs = m # ms" "length ms = length nics" using macs(1) nics(1) by (cases macs) auto
  have "set (map (snd \<circ> snd) (wanted_disks cfg)) \<subseteq> {None, Some (CacheAutomatic, SyncFull)}"
    by (auto simp: wanted_disks_def split: option.split)
  note disks = disks_told [OF _ this, of api A "vc_storage_devices c"]
  have shares: "map (\<lambda>(tag, s). (tag, map_option (\<lambda>(d, ro). (Some d, ro)) s)) (ct_shares t) =
      map (\<lambda>v. (sd_tag v, Some (path_to_str (sd_host_path v), sd_read_only v))) (cfg_shared_dirs cfg)"
    using conf by (auto simp: macs(2) conf_of_def intro!: shares_told)
  have "ct_nics t = (Some NatNet, Some m) # map (\<lambda>(n, m). (Some n, Some m)) (zip (map net_of nics) ms)"
    by (simp add: macs(2) conf_of_def ms nics(1))
  note cards = this cards_told_nics [OF nics(2) ms(2)]
  have parts: "ct_loader t = Some (Some (vc_kernel_url c), Some (vc_initial_ramdisk_url c), Some (vc_command_line c))"
    "ct_cpus t = Some (uint (vc_cpu_count c))" "ct_memory t = Some (uint (vc_memory_size c))" "ct_entropy t = 1"
    "ct_balloons t = 1" "ct_serial t = [Some ser]" "ct_storage t = map disk_told_of (vc_storage_devices c)"
    by (simp_all add: macs(2) conf_of_def)
  show ?thesis
    unfolding describes_vm_def
    by (rule exI [of _ "vc_kernel_url c"], rule exI [of _ "vc_initial_ramdisk_url c"], rule exI [of _ m],
        rule exI [of _ "map (\<lambda>(n, m). (Some n, Some m)) (zip (map net_of nics) ms)"], intro conjI)
      (use conf disks shares cards parts in simp_all)
qed

text \<open>The messages sent since a state of the process.\<close>

definition said :: "objc \<Rightarrow> objc \<Rightarrow> objc_event list" where
  "said w w' = drop (length (oc_log w)) (oc_log w')"

lemma said_log: "appends m \<Longrightarrow> run_state m w = (x, w') \<Longrightarrow> oc_log w' = oc_log w @ said w w'"
  unfolding appends_def said_def by (metis append_eq_conv_conj snd_conv)

text \<open>C25: the framework is told the configuration of the VM and nothing else.  Suppose the driver
  gets through its configuration (\<open>vz_configure\<close>) and builds the objects for it through the bindings,
  over a framework that answers with objects it has not handed out before and that leaves an
  error whenever it returns nil to an \<open>init\<close> with an error argument.  Then every message sent is
  understood, also when a disk is refused: it goes to an object that has it, with arguments of the
  right kind; and no object described before is changed.  When the objects are built, they
  describe a configuration object with the kernel and the initramfs under the paths the system
  resolved for them, the command line, the processors and the memory of the VM (in bytes), one
  entropy and one balloon device, a NAT card and then one card per network, in order, on a
  duplicate of that network's own descriptor, each with a MAC address, a serial port between the
  two descriptors, the root disk under its own resolved path, read-write with its modes, then
  the seed under its own, read-only, and the shared directories in order.\<close>

theorem configuration_told:
  assumes "vz_configure cfg h = (Ok c, h')"
    "run_state (configure_objects c null_fd log_fd) w = (r, w')"
    "reports_errors w" "honest (dom st) (said w w')"
  shows "\<exists>st'. told st (said w w') = Some st' \<and> st \<subseteq>\<^sub>m st' \<and> (\<forall>conf. r = Ok conf \<longrightarrow>
    st conf = None \<and> (\<exists>t. st' conf = Some (ConfObject t)
      \<and> describes_vm (vz_api h) {vz_calls h ..< vz_calls h'} cfg (null_fd, log_fd) t))"
proof -
  have tells: "tells st (configure_objects c null_fd log_fd) (\<lambda>r st'. case r of Err e \<Rightarrow> st \<subseteq>\<^sub>m st'
     | Ok conf \<Rightarrow> \<exists>t. conf_matches c (null_fd, log_fd) t \<and> made st (ConfObject t) conf st')"
    by (rule tells_configure)
  obtain st' where st': "told st (said w w') = Some st'" "case r of Err e \<Rightarrow> st \<subseteq>\<^sub>m st'
     | Ok conf \<Rightarrow> \<exists>t. conf_matches c (null_fd, log_fd) t \<and> made st (ConfObject t) conf st'"
    using tellsD [OF tells assms(2,3) said_log [OF _ assms(2)] assms(4) order_refl] tells
    by (auto simp: tells_def)
  then show ?thesis
    using conf_matches_describes [OF vz_configure_Ok [OF assms(1)]] madeD by (cases r) fastforce+
qed

text \<open>The machine of \<^verbatim>\<open>Apple_Vz\<close>, over frameworks that answer every message with a new object.\<close>

definition mac_conf :: VZVirtualMachineConfiguration where
  "mac_conf = \<lparr>vc_kernel_url = ''/k'', vc_initial_ramdisk_url = ''/i'',
     vc_command_line = ''console=hvc0 root=/dev/vda1 rw ds=nocloud'', vc_cpu_count = 2,
     vc_memory_size = 512 * 1024 * 1024, vc_entropy_devices = 1, vc_balloon_devices = 1,
     vc_network_devices = [NatNic ''02:00:00:00:00:01'', FileHandleNic 15 ''02:00:00:00:00:01''],
     vc_serial_ports = [[RootDir, Normal ''serial.log'']], vc_storage_devices = [root_disk ''/d'', seed_disk ''/s''],
     vc_directory_sharing_devices = []\<rparr>"

definition fresh_at :: "objc_event list \<Rightarrow> objc" where
  "fresh_at l = fresh_frameworks\<lparr>oc_log := l\<rparr>"

lemma fresh_msg [simp]:
  "run_state (msg_send r s a) (fresh_at l) = (\<lparr>rp_id = length l + 1, rp_num = 0, rp_memory = [], rp_error = NIL\<rparr>,
     fresh_at (l @ [Message r s a (length l + 1)]))"
  "run_state (strong_new p) w = (p, w)"
  "run_state (strong_retain p) (fresh_at l) = (p, fresh_at (l @ [Retain p]))"
  "run_state (drop_ptr p) (fresh_at l) = ((), fresh_at (l @ [Release p]))"
  by (simp_all add: msg_send_def strong_new_def strong_retain_def drop_ptr_def fresh_at_def fresh_frameworks_def log_event_def Let_def)

lemma fresh_log [simp]: "oc_log (fresh_at l) = l"
  by (simp add: fresh_at_def)

lemmas object_defs = boot_loader_object_def boot_loader_build_def boot_loader_new_def file_url_with_path_def absolute_url_def nsstring_new_def
  lb_set_command_line_def lb_set_initial_ramdisk_url_def lb_set_kernel_url_def serial_object_def file_handle_with_fd_def
  serial_attachment_build_def serial_attachment_new_def serial_port_new_def sb_set_writing_def sb_set_reading_def
  entropy_device_new_def memory_balloon_new_def new_object_def nat_attachment_new_def network_device_new_def with_random_mac_def
  random_locally_administered_address_def set_mac_address_def file_handle_attachment_new_def configure_objects_def
  disk_attachment_build_def disk_attachment_new_with_modes_def disk_attachment_new_def attachment_or_error_def block_device_new_def disk_modes_def
  assemble_def builder_list_defs set_devices_def array_with_objects_def vm_builder_def vmb_boot_loader_def set_boot_loader_def
  vmb_cpu_count_def vmb_memory_size_def set_cpu_count_def set_memory_size_def vmb_new_def vm_configuration_new_def

lemma mac_said:
  "\<exists>conf w. run_state (configure_objects mac_conf 3 4) (fresh_at []) = (Ok conf, w)
     \<and> honest {} (said (fresh_at []) w)"
proof -
  have "case run_state (configure_objects mac_conf 3 4) (fresh_at []) of (r, w) \<Rightarrow>
      is_ok r \<and> honest {} (said (fresh_at []) w)"
    by (simp add: object_defs said_def hands_out_def selector_simps mac_conf_def boot_disks
        One_nat_def [symmetric] del: One_nat_def)
  then show ?thesis by (auto simp: is_ok_iff split: prod.splits)
qed

theorem configuration_told_witness:
  "\<exists>conf w st t. run_state (configure_objects mac_conf 3 4) (fresh_at []) = (Ok conf, w)
     \<and> told (\<lambda>_. None) (oc_log w) = Some st \<and> st conf = Some (ConfObject t)
     \<and> ct_cpus t = Some 2 \<and> ct_memory t = Some 0x20000000
     \<and> map fst (ct_nics t) = [Some NatNet, Some (FdNet 15)]
     \<and> ct_storage t = [(''/d'', False, Some (0, 1)), (''/s'', True, None)]"
proof -
  obtain conf w where run: "run_state (configure_objects mac_conf 3 4) (fresh_at []) = (Ok conf, w)"
    "honest {} (said (fresh_at []) w)" using mac_said by blast
  have said: "said (fresh_at []) w = oc_log w" by (simp add: said_def)
  have rep: "reports_errors (fresh_at [])" by (simp add: reports_errors_def fresh_at_def fresh_frameworks_def)
  obtain h where h: "vz_configure mac_config (vz_machine (mac_new Completed)) = (Ok mac_conf, h)"
    by (simp add: mac_defs mac_conf_def boot_disks vz_cmdline_def)
  let ?m = "vz_machine (mac_new Completed)"
  from configuration_told [OF h run(1) rep, of "\<lambda>_. None"] run(2) obtain st t where t:
    "told (\<lambda>_. None) (oc_log w) = Some st" "st conf = Some (ConfObject t)"
    "describes_vm (vz_api ?m) (asked ?m h) mac_config (3, 4) t"
    unfolding said by auto
  then obtain mac nics where nics: "ct_nics t = (Some NatNet, Some mac) # nics"
    "list_all2 (\<lambda>net x. \<exists>ep fd m. \<exists>i\<in>asked ?m h. net = SocketPairFd ep
        \<and> try_clone_owned (va_dup (vz_api ?m) i) ep = Ok fd \<and> x = (Some (FdNet fd), Some m))
      (cfg_networks mac_config) nics"
    unfolding describes_vm_def by blast
  have "map fst nics = [Some (FdNet 15)]"
    using nics(2) by (auto simp: mac_config_def mac_new_def mac_api_def try_clone_owned_def list_all2_Cons1)
  moreover have "ct_storage t = [(''/d'', False, Some (0, 1)), (''/s'', True, None)]"
    using t(3) by (auto simp: describes_vm_def mac_config_def mac_new_def mac_api_def wanted_disks_def
        resolved_def mac_paths list_all2_Cons1)
  moreover have "ct_cpus t = Some (uint (cfg_cpus mac_config))"
    "ct_memory t = Some (uint (cfg_memory_mb mac_config * 1024 * 1024))"
    using t(3) unfolding describes_vm_def by blast+
  ultimately show ?thesis
    using run t nics(1)
    by (intro exI [of _ conf] exI [of _ w] exI [of _ st] exI [of _ t]) (simp add: mac_config_def)
qed

end
