(* ===== verification/Switch.thy ===== *)
theory Switch
  imports Config
begin

text \<open>
  \<open>src/network/switch.rs\<close>: the user-space Ethernet switch.  Ports are the switch's ends of
  datagram socket pairs, grouped by network; a thread polls them and forwards frames as a
  learning bridge.  What the kernel answers (descriptors of a socket pair, received datagrams)
  is an argument; what is handed to \<open>send\<close> is the list of frames an operation returns.  Times
  are in milliseconds.  The last part runs the forwarding thread together with \<open>add_port\<close>,
  \<open>start\<close> and \<open>stop\<close> from other threads, which interleave between any two frames.
\<close>

section \<open>MAC addresses\<close>

definition MIN_FRAME_SIZE :: nat where "MIN_FRAME_SIZE = 14"
definition MAX_FRAME_SIZE :: nat where "MAX_FRAME_SIZE = 1518"

datatype MacAddress = MacAddress (mac_bytes: bytes)

definition mac_from_bytes :: "bytes \<Rightarrow> MacAddress option" where
  "mac_from_bytes bs = (if length bs < 6 then None else Some (MacAddress (take 6 bs)))"

definition is_broadcast :: "MacAddress \<Rightarrow> bool" where
  "is_broadcast m \<longleftrightarrow> mac_bytes m = [0xFF, 0xFF, 0xFF, 0xFF, 0xFF, 0xFF]"

definition is_multicast :: "MacAddress \<Rightarrow> bool" where
  "is_multicast m \<longleftrightarrow> hd (mac_bytes m) AND 0x01 \<noteq> 0"

definition mac_display :: "MacAddress \<Rightarrow> string" where
  "mac_display m = str_join '':'' (map byte_hex2 (mac_bytes m))"

section \<open>The switch\<close>

record SwitchPort =
  sp_fd :: int

type_synonym MacTable = "MacAddress \<rightharpoonup> nat \<times> nat"

record NetworkSwitch =
  sw_networks :: "string \<rightharpoonup> SwitchPort list"
  sw_mac_tables :: "string \<rightharpoonup> MacTable"
  sw_running :: bool
  sw_worker :: bool
  sw_networks_poisoned :: bool
  sw_tables_poisoned :: bool
  sw_worker_poisoned :: bool

definition switch_new :: NetworkSwitch where
  "switch_new = \<lparr>sw_networks = (\<lambda>_. None), sw_mac_tables = (\<lambda>_. None), sw_running = False,
     sw_worker = False, sw_networks_poisoned = False, sw_tables_poisoned = False,
     sw_worker_poisoned = False\<rparr>"

definition io_other :: "string \<Rightarrow> io_error" where
  "io_other t = \<lparr>io_kind = KOther, io_text = t\<rparr>"

definition lock_error :: io_error where
  "lock_error = io_other (''lock poisoned: '' @ poison_text)"

text \<open>
  The answers of the C library while a socket pair is made: \<open>socketpair\<close>, \<open>F_GETFL\<close> and
  \<open>F_SETFL\<close>.  The second result of \<open>create_socketpair\<close> and of \<open>add_port\<close> lists the
  descriptors closed by dropping their owners on the way out.
\<close>

record sock_sys =
  so_ret :: int
  so_fds :: "int \<times> int"
  so_getfl :: int
  so_setfl :: int
  so_errno :: io_error

definition create_socketpair :: "sock_sys \<Rightarrow> (int \<times> int, io_error) result \<times> int list" where
  "create_socketpair sys =
     (if so_ret sys \<noteq> 0 then (Err (so_errno sys), [])
      else (let (switch_fd, vm_fd) = so_fds sys in
        if so_getfl sys = -1 then (Err (so_errno sys), [vm_fd, switch_fd])
        else if so_setfl sys = -1 then (Err (so_errno sys), [vm_fd, switch_fd])
        else (Ok (switch_fd, vm_fd), [])))"

definition add_port ::
  "sock_sys \<Rightarrow> string \<Rightarrow> NetworkSwitch
     \<Rightarrow> (VmSocketEndpoint, io_error) result \<times> int list \<times> NetworkSwitch" where
  "add_port sys network_id sw =
     (case create_socketpair sys of
        (Err e, closed) \<Rightarrow> (Err e, closed, sw)
      | (Ok (switch_fd, vm_fd), _) \<Rightarrow>
        if sw_networks_poisoned sw then (Err lock_error, [switch_fd, vm_fd], sw)
        else (let ports = (case sw_networks sw network_id of None \<Rightarrow> [] | Some ps \<Rightarrow> ps);
                  sw1 = sw\<lparr>sw_networks :=
                    (sw_networks sw)(network_id \<mapsto> ports @ [\<lparr>sp_fd = switch_fd\<rparr>])\<rparr>
              in if sw_tables_poisoned sw then (Err lock_error, [vm_fd], sw1)
                 else (let table = (case sw_mac_tables sw network_id of None \<Rightarrow> (\<lambda>_. None)
                                    | Some t \<Rightarrow> t)
                       in (Ok \<lparr>ep_fd = vm_fd\<rparr>, [], sw1\<lparr>sw_mac_tables :=
                             (sw_mac_tables sw)(network_id \<mapsto> table)\<rparr>))))"

text \<open>\<open>spawn\<close> is the outcome of creating the thread; the last result says whether a forwarding
  thread was started.\<close>

definition switch_start ::
  "(unit, io_error) result \<Rightarrow> NetworkSwitch \<Rightarrow> (unit, io_error) result \<times> NetworkSwitch \<times> bool" where
  "switch_start spawn sw =
     (if sw_running sw then (Ok (), sw, False)
      else (let sw1 = sw\<lparr>sw_running := True\<rparr> in
        case spawn of Err e \<Rightarrow> (Err e, sw1, False)
        | Ok _ \<Rightarrow>
          if sw_worker_poisoned sw then (Err lock_error, sw1, True)
          else (Ok (), sw1\<lparr>sw_worker := True\<rparr>, True)))"

text \<open>\<open>stop\<close> clears the flag, takes the worker handle and joins it.\<close>

definition switch_stop :: "NetworkSwitch \<Rightarrow> NetworkSwitch" where
  "switch_stop sw =
     (let sw1 = sw\<lparr>sw_running := False\<rparr>
      in if sw_worker_poisoned sw then sw1 else sw1\<lparr>sw_worker := False\<rparr>)"

section \<open>The forwarding loop\<close>

definition MAC_AGE_INTERVAL_SECS :: nat where "MAC_AGE_INTERVAL_SECS = 30"
definition MAC_ENTRY_LIFETIME_SECS :: nat where "MAC_ENTRY_LIFETIME_SECS = 120"

definition elapsed_secs :: "nat \<Rightarrow> nat \<Rightarrow> nat" where
  "elapsed_secs now t = (now - t) div 1000"

definition age_table :: "nat \<Rightarrow> MacTable \<Rightarrow> MacTable" where
  "age_table now t = (\<lambda>mac. case t mac of None \<Rightarrow> None
     | Some (port, ts) \<Rightarrow>
         if elapsed_secs now ts < MAC_ENTRY_LIFETIME_SECS then Some (port, ts) else None)"

text \<open>The head of the loop: the sweep of the tables every 30 s.\<close>

definition age_step :: "nat \<Rightarrow> nat \<Rightarrow> NetworkSwitch \<Rightarrow> NetworkSwitch \<times> nat" where
  "age_step now last_aged sw =
     (if MAC_AGE_INTERVAL_SECS \<le> elapsed_secs now last_aged
      then ((if sw_tables_poisoned sw then sw
             else sw\<lparr>sw_mac_tables := (\<lambda>n. map_option (age_table now) (sw_mac_tables sw n))\<rparr>), now)
      else (sw, last_aged))"

text \<open>
  The snapshot of a round: the polled descriptors with their network and port index, in the
  order the table of networks iterates (\<open>order\<close>), and the descriptors of each network.
\<close>

definition poll_list :: "string list \<Rightarrow> (string \<rightharpoonup> SwitchPort list) \<Rightarrow> (string \<times> nat \<times> int) list" where
  "poll_list order nets =
     concat (map (\<lambda>net. case nets net of None \<Rightarrow> []
       | Some ports \<Rightarrow> map (\<lambda>(idx, p). (net, idx, sp_fd p)) (enumerate 0 ports)) order)"

definition snapshot_fds :: "(string \<rightharpoonup> SwitchPort list) \<Rightarrow> string \<rightharpoonup> int list" where
  "snapshot_fds nets = (\<lambda>n. map_option (map sp_fd) (nets n))"

definition flood :: "int list \<Rightarrow> nat \<Rightarrow> bytes \<Rightarrow> (int \<times> bytes) list" where
  "flood fds src_port_idx frame =
     map (\<lambda>(idx, fd). (fd, frame)) (filter (\<lambda>(idx, fd). idx \<noteq> src_port_idx) (enumerate 0 fds))"

definition learn :: "nat \<Rightarrow> string \<Rightarrow> nat \<Rightarrow> MacAddress \<Rightarrow> NetworkSwitch \<Rightarrow> NetworkSwitch" where
  "learn now net src_port_idx src_mac sw =
     (if sw_tables_poisoned sw then sw
      else (case sw_mac_tables sw net of None \<Rightarrow> sw
            | Some t \<Rightarrow> sw\<lparr>sw_mac_tables :=
                (sw_mac_tables sw)(net \<mapsto> t(src_mac \<mapsto> (src_port_idx, now)))\<rparr>))"

definition lookup_port :: "string \<Rightarrow> MacAddress \<Rightarrow> NetworkSwitch \<Rightarrow> nat option" where
  "lookup_port net dst_mac sw =
     (if sw_tables_poisoned sw then None
      else (case sw_mac_tables sw net of None \<Rightarrow> None | Some t \<Rightarrow> map_option fst (t dst_mac)))"

text \<open>
  One ready port.  \<open>dgram\<close> is the datagram that \<open>recv\<close> finds, of which the buffer takes the first
  \<open>MAX_FRAME_SIZE\<close> bytes; a failed \<open>recv\<close> is an empty datagram, which is skipped like it.
\<close>

definition handle_frame ::
  "nat \<Rightarrow> (string \<rightharpoonup> int list) \<Rightarrow> string \<Rightarrow> nat \<Rightarrow> bytes \<Rightarrow> NetworkSwitch
     \<Rightarrow> (int \<times> bytes) list \<times> NetworkSwitch" where
  "handle_frame now port_fds net src_port_idx dgram sw =
     (let frame = take MAX_FRAME_SIZE dgram in
      if length frame < MIN_FRAME_SIZE then ([], sw)
      else (case mac_from_bytes (window frame 0 6) of None \<Rightarrow> ([], sw)
        | Some dst_mac \<Rightarrow>
          (case mac_from_bytes (window frame 6 6) of None \<Rightarrow> ([], sw)
           | Some src_mac \<Rightarrow>
             (let sw1 = learn now net src_port_idx src_mac sw in
              case port_fds net of None \<Rightarrow> ([], sw1)
              | Some fds \<Rightarrow>
                if is_broadcast dst_mac \<or> is_multicast dst_mac
                then (flood fds src_port_idx frame, sw1)
                else (case lookup_port net dst_mac sw1 of
                        Some dst_idx \<Rightarrow>
                          ((if dst_idx \<noteq> src_port_idx \<and> dst_idx < length fds
                            then [(fds ! dst_idx, frame)] else []), sw1)
                      | None \<Rightarrow> (flood fds src_port_idx frame, sw1))))))"

text \<open>The polled ports of a round in order; \<open>recv\<close> gives the datagram of a port whose \<open>POLLIN\<close>
  is set.\<close>

fun handle_ready ::
  "nat \<Rightarrow> (int \<Rightarrow> bytes option) \<Rightarrow> (string \<rightharpoonup> int list) \<Rightarrow> (string \<times> nat \<times> int) list
     \<Rightarrow> NetworkSwitch \<Rightarrow> (int \<times> bytes) list \<times> NetworkSwitch" where
  "handle_ready now recv port_fds [] sw = ([], sw)"
| "handle_ready now recv port_fds ((net, idx, fd) # rest) sw =
     (case recv fd of None \<Rightarrow> handle_ready now recv port_fds rest sw
      | Some dgram \<Rightarrow>
        (let (out, sw1) = handle_frame now port_fds net idx dgram sw;
             (out', sw2) = handle_ready now recv port_fds rest sw1
         in (out @ out', sw2)))"

text \<open>One round of the loop with nothing in between; \<open>None\<close> leaves the loop.\<close>

definition forwarding_round ::
  "nat \<Rightarrow> string list \<Rightarrow> (int \<Rightarrow> bytes option) \<Rightarrow> nat \<Rightarrow> NetworkSwitch
     \<Rightarrow> ((int \<times> bytes) list \<times> nat \<times> NetworkSwitch) option" where
  "forwarding_round now order recv last_aged sw =
     (if \<not> sw_running sw then None
      else (let (sw1, aged) = age_step now last_aged sw in
        if sw_networks_poisoned sw1 then None
        else (let (out, sw2) = handle_ready now recv (snapshot_fds (sw_networks sw1))
                    (poll_list order (sw_networks sw1)) sw1
              in Some (out, aged, sw2))))"

section \<open>Facts about one frame\<close>

lemma learn_keeps [simp, frame]:
  "sw_networks (learn now net i mac sw) = sw_networks sw"
  "sw_running (learn now net i mac sw) = sw_running sw"
  "sw_tables_poisoned (learn now net i mac sw) = sw_tables_poisoned sw"
  by (simp_all add: learn_def split: option.split)

lemma age_step_keeps [simp, frame]:
  "sw_networks (fst (age_step now la sw)) = sw_networks sw"
  "sw_running (fst (age_step now la sw)) = sw_running sw"
  by (simp_all add: age_step_def)

lemma set_flood:
  "set (flood fds i frame) = {(fds ! j, frame) | j. j < length fds \<and> j \<noteq> i}"
  by (force simp: flood_def in_set_enumerate_eq)

lemma handle_frame_keeps [frame]:
  assumes "handle_frame now pf net i d sw = (out, sw')"
  shows "sw_networks sw' = sw_networks sw" "sw_running sw' = sw_running sw"
  using assms by (auto simp: handle_frame_def Let_def split: if_splits option.splits)

text \<open>The forwarding decision for a frame that is long enough.\<close>

lemma handle_frame_long:
  assumes "MIN_FRAME_SIZE \<le> length d"
  shows "handle_frame now pf net i d sw =
    (let sw1 = learn now net i (MacAddress (window d 6 6)) sw;
         mac = MacAddress (window d 0 6); f = take MAX_FRAME_SIZE d
     in case pf net of None \<Rightarrow> ([], sw1)
        | Some fds \<Rightarrow>
          if is_broadcast mac \<or> is_multicast mac then (flood fds i f, sw1)
          else (case lookup_port net mac sw1 of
                  Some j \<Rightarrow> ((if j \<noteq> i \<and> j < length fds then [(fds ! j, f)] else []), sw1)
                | None \<Rightarrow> (flood fds i f, sw1)))"
proof -
  have "window (take MAX_FRAME_SIZE d) off 6 = window d off 6" if "off \<le> 6" for off
    using that by (simp add: window_def MAX_FRAME_SIZE_def drop_take min_def)
  then have "mac_from_bytes (window (take MAX_FRAME_SIZE d) 0 6) = Some (MacAddress (window d 0 6))"
      "mac_from_bytes (window (take MAX_FRAME_SIZE d) 6 6) = Some (MacAddress (window d 6 6))"
    using assms by (simp_all add: mac_from_bytes_def MIN_FRAME_SIZE_def)
  moreover have "\<not> length (take MAX_FRAME_SIZE d) < MIN_FRAME_SIZE"
    using assms by (simp add: MIN_FRAME_SIZE_def MAX_FRAME_SIZE_def)
  ultimately show ?thesis unfolding handle_frame_def Let_def by (simp only: if_False option.case)
qed

text \<open>A frame goes to other ports of the network it came from, and nowhere else.\<close>

lemma handle_frame_targets:
  assumes "handle_frame now pf net i d sw = (out, sw')" "(fd, f) \<in> set out"
  shows "\<exists>fds j. pf net = Some fds \<and> j < length fds \<and> j \<noteq> i \<and> fd = fds ! j
    \<and> f = take MAX_FRAME_SIZE d"
  using assms by (auto simp: handle_frame_def Let_def set_flood split: if_splits option.splits)

section \<open>The switch and its thread\<close>

text \<open>
  The forwarding thread between two frames of a round: when it last aged the tables, the ports
  of the round still to be looked at, and the descriptors it works with.  \<open>ss_sent\<close> records
  every frame sent, with the port it was received on.
\<close>

record loop_state =
  lp_last_aged :: nat
  lp_pending :: "(string \<times> nat \<times> int) list"
  lp_port_fds :: "string \<rightharpoonup> int list"

record switch_sys =
  ss_switch :: NetworkSwitch
  ss_loops :: "loop_state list"
  ss_sent :: "(int \<times> int \<times> bytes) list"

definition port_fds_of :: "NetworkSwitch \<Rightarrow> string \<Rightarrow> int list" where
  "port_fds_of sw n = (case sw_networks sw n of None \<Rightarrow> [] | Some ps \<Rightarrow> map sp_fd ps)"

definition open_fd :: "NetworkSwitch \<Rightarrow> int \<Rightarrow> bool" where
  "open_fd sw fd \<longleftrightarrow> (\<exists>n. fd \<in> set (port_fds_of sw n))"

text \<open>
  The kernel hands out descriptors that are not open: the premise of \<open>added\<close>.  There may be several
  forwarding threads: a \<open>start\<close> that comes between the clearing of the flag and the end of
  the thread it should end creates another one.
\<close>

inductive switch_step :: "switch_sys \<Rightarrow> switch_sys \<Rightarrow> bool" where
  added: "\<not> open_fd (ss_switch s) (fst (so_fds sys)) \<Longrightarrow> add_port sys net (ss_switch s) = (r, closed, sw') \<Longrightarrow>
     switch_step s (s\<lparr>ss_switch := sw'\<rparr>)"
| started: "switch_start spawn (ss_switch s) = (r, sw', spawned) \<Longrightarrow>
     switch_step s (s\<lparr>ss_switch := sw', ss_loops := ss_loops s @ (if spawned
       then [\<lparr>lp_last_aged = now, lp_pending = [], lp_port_fds = (\<lambda>_. None)\<rparr>] else [])\<rparr>)"
| stopping: "switch_step s (s\<lparr>ss_switch := (ss_switch s)\<lparr>sw_running := False\<rparr>\<rparr>)"
| round: "k < length (ss_loops s) \<Longrightarrow> ss_loops s ! k = lp \<Longrightarrow> lp_pending lp = [] \<Longrightarrow> sw_running (ss_switch s) \<Longrightarrow>
     age_step now (lp_last_aged lp) (ss_switch s) = (sw', aged) \<Longrightarrow> \<not> sw_networks_poisoned sw' \<Longrightarrow>
     set order = dom (sw_networks sw') \<Longrightarrow>
     switch_step s (s\<lparr>ss_switch := sw', ss_loops := (ss_loops s)[k := \<lparr>lp_last_aged = aged,
       lp_pending = poll_list order (sw_networks sw'), lp_port_fds = snapshot_fds (sw_networks sw')\<rparr>]\<rparr>)"
| frame: "k < length (ss_loops s) \<Longrightarrow> ss_loops s ! k = lp \<Longrightarrow> lp_pending lp = (net, idx, fd) # rest \<Longrightarrow>
     handle_frame now (lp_port_fds lp) net idx dgram (ss_switch s) = (out, sw') \<Longrightarrow>
     switch_step s (s\<lparr>ss_switch := sw', ss_loops := (ss_loops s)[k := lp\<lparr>lp_pending := rest\<rparr>],
       ss_sent := ss_sent s @ map (\<lambda>(dst, f). (fd, dst, f)) out\<rparr>)"
| idle: "k < length (ss_loops s) \<Longrightarrow> ss_loops s ! k = lp \<Longrightarrow> lp_pending lp = e # rest \<Longrightarrow>
     switch_step s (s\<lparr>ss_loops := (ss_loops s)[k := lp\<lparr>lp_pending := rest\<rparr>]\<rparr>)"
| leave: "k < length (ss_loops s) \<Longrightarrow> lp_pending (ss_loops s ! k) = [] \<Longrightarrow>
     \<not> sw_running (ss_switch s) \<or> sw_networks_poisoned (ss_switch s) \<Longrightarrow>
     switch_step s (s\<lparr>ss_switch := (ss_switch s)\<lparr>sw_running := False\<rparr>,
       ss_loops := take k (ss_loops s) @ drop (Suc k) (ss_loops s)\<rparr>)"

inductive_cases switch_stepE: "switch_step s t"

definition sys_new :: switch_sys where
  "sys_new = \<lparr>ss_switch = switch_new, ss_loops = [], ss_sent = []\<rparr>"

text \<open>
  No descriptor is a port twice; what the thread works with is a port of the network it says;
  and every frame sent so far went between two ports of one network.
\<close>

definition fds_inj :: "NetworkSwitch \<Rightarrow> bool" where
  "fds_inj sw \<longleftrightarrow> (\<forall>n n' i j. i < length (port_fds_of sw n) \<and> j < length (port_fds_of sw n')
     \<and> port_fds_of sw n ! i = port_fds_of sw n' ! j \<longrightarrow> n = n' \<and> i = j)"

definition loop_ok :: "NetworkSwitch \<Rightarrow> loop_state \<Rightarrow> bool" where
  "loop_ok sw lp \<longleftrightarrow>
     (\<forall>n fds. lp_port_fds lp n = Some fds \<longrightarrow> prefix fds (port_fds_of sw n))
     \<and> (\<forall>(n, i, fd) \<in> set (lp_pending lp). i < length (port_fds_of sw n) \<and> fd = port_fds_of sw n ! i)"

definition same_network :: "NetworkSwitch \<Rightarrow> int \<Rightarrow> int \<Rightarrow> bool" where
  "same_network sw a b \<longleftrightarrow> (\<exists>n i j. i < length (port_fds_of sw n) \<and> j < length (port_fds_of sw n)
     \<and> i \<noteq> j \<and> a = port_fds_of sw n ! i \<and> b = port_fds_of sw n ! j)"

definition sys_inv :: "switch_sys \<Rightarrow> bool" where
  "sys_inv s \<longleftrightarrow> fds_inj (ss_switch s)
     \<and> (\<forall>lp \<in> set (ss_loops s). loop_ok (ss_switch s) lp)
     \<and> (\<forall>(a, b, f) \<in> set (ss_sent s). same_network (ss_switch s) a b)"

definition ports_grow :: "NetworkSwitch \<Rightarrow> NetworkSwitch \<Rightarrow> bool" where
  "ports_grow sw sw' \<longleftrightarrow> (\<forall>n. prefix (port_fds_of sw n) (port_fds_of sw' n))"

lemma ports_grow_same: "sw_networks sw' = sw_networks sw \<Longrightarrow> ports_grow sw sw'"
  by (simp add: ports_grow_def port_fds_of_def)

lemma prefix_nth: "prefix xs ys \<Longrightarrow> i < length xs \<Longrightarrow> i < length ys \<and> ys ! i = xs ! i"
  by (auto simp: prefix_def nth_append)

lemma loop_ok_grow: "loop_ok sw lp \<Longrightarrow> ports_grow sw sw' \<Longrightarrow> loop_ok sw' lp"
  unfolding loop_ok_def ports_grow_def using prefix_nth by (fastforce intro: prefix_order.trans)

lemma same_network_grow: "same_network sw a b \<Longrightarrow> ports_grow sw sw' \<Longrightarrow> same_network sw' a b"
  unfolding same_network_def ports_grow_def by (metis prefix_nth)

lemma fds_inj_same: "sw_networks sw' = sw_networks sw \<Longrightarrow> fds_inj sw \<Longrightarrow> fds_inj sw'"
  by (simp add: fds_inj_def port_fds_of_def)

lemma add_port_fds:
  assumes "add_port sys net sw = (r, closed, sw')"
  shows "port_fds_of sw' = port_fds_of sw
    \<or> port_fds_of sw' = (port_fds_of sw)(net := port_fds_of sw net @ [fst (so_fds sys)])"
proof -
  obtain a b where ab: "so_fds sys = (a, b)" by fastforce
  have "sw_networks sw' = sw_networks sw \<or> (\<exists>ports. sw_networks sw' = (sw_networks sw)(net \<mapsto> ports @ [\<lparr>sp_fd = a\<rparr>])
      \<and> port_fds_of sw net = map sp_fd ports)"
    using assms ab by (simp add: add_port_def create_socketpair_def port_fds_of_def Let_def
        split: if_splits option.splits) auto
  then show ?thesis by (auto simp: ab port_fds_of_def fun_eq_iff)
qed

lemma fds_inj_snoc:
  assumes "fds_inj sw" "\<not> open_fd sw fd"
    "port_fds_of sw' = (port_fds_of sw)(net := port_fds_of sw net @ [fd])"
  shows "fds_inj sw'"
proof -
  have "fd \<noteq> port_fds_of sw n ! i" if "i < length (port_fds_of sw n)" for n i
    using assms(2) that nth_mem unfolding open_fd_def by metis
  then show ?thesis
    using assms(1) unfolding fds_inj_def assms(3)
    by (simp add: nth_append less_Suc_eq split: if_splits) (metis less_irrefl)
qed

lemma add_port_inv:
  assumes "add_port sys net sw = (r, closed, sw')" "\<not> open_fd sw (fst (so_fds sys))" "fds_inj sw"
  shows "fds_inj sw' \<and> ports_grow sw sw'"
  using add_port_fds [OF assms(1)]
proof
  assume "port_fds_of sw' = port_fds_of sw"
  then show ?thesis using assms(3) by (simp add: ports_grow_def fds_inj_def)
next
  assume "port_fds_of sw' = (port_fds_of sw)(net := port_fds_of sw net @ [fst (so_fds sys)])"
  then show ?thesis using fds_inj_snoc [OF assms(3,2)] by (simp add: ports_grow_def)
qed

text \<open>A step that leaves the tables of ports alone or extends them keeps what was said of the
  thread and of the frames sent.\<close>

lemma sys_inv_grow:
  assumes "sys_inv s" "fds_inj sw'" "ports_grow (ss_switch s) sw'" "ss_switch t = sw'"
    "\<And>lp. lp \<in> set (ss_loops t) \<Longrightarrow> lp \<in> set (ss_loops s) \<or> loop_ok sw' lp" "ss_sent t = ss_sent s"
  shows "sys_inv t"
proof -
  have "same_network sw' a b" if "(a, b, f) \<in> set (ss_sent s)" for a b f
    using that assms(1,3) same_network_grow by (auto simp: sys_inv_def)
  moreover have "loop_ok sw' lp" if "lp \<in> set (ss_loops t)" for lp
    using assms(1,3) assms(5) [OF that] loop_ok_grow [of "ss_switch s" lp sw'] unfolding sys_inv_def by metis
  ultimately show ?thesis using assms(2,4,6) by (auto simp: sys_inv_def)
qed

lemma poll_list_ok:
  "(n, i, fd) \<in> set (poll_list order nets) \<Longrightarrow>
     \<exists>ps. nets n = Some ps \<and> i < length ps \<and> fd = sp_fd (ps ! i)"
  by (cases "nets n") (auto simp: poll_list_def in_set_enumerate_eq split: option.splits)

lemma sys_inv_frame:
  assumes "sys_inv s" "lp \<in> set (ss_loops s)" "lp_pending lp = (net, idx, fd) # rest"
    and h: "handle_frame now (lp_port_fds lp) net idx dgram (ss_switch s) = (out, sw')"
    and "(dst, f) \<in> set out"
  shows "same_network sw' fd dst"
proof -
  let ?p = "port_fds_of (ss_switch s) net"
  have lp: "loop_ok (ss_switch s) lp" using assms by (auto simp: sys_inv_def)
  have p: "port_fds_of sw' = port_fds_of (ss_switch s)"
    using handle_frame_keeps(1) [OF h] by (simp add: port_fds_of_def fun_eq_iff)
  obtain fds j where "lp_port_fds lp net = Some fds" "j < length fds" "j \<noteq> idx" "dst = fds ! j"
    using handle_frame_targets [OF h assms(5)] by blast
  then have "j < length ?p" "dst = ?p ! j" 
    using lp prefix_nth unfolding loop_ok_def by metis+
  moreover have "idx < length ?p" "fd = ?p ! idx" using lp assms(3) by (auto simp: loop_ok_def)
  ultimately show ?thesis unfolding same_network_def p using \<open>j \<noteq> idx\<close> by blast
qed

lemma sys_inv_step:
  assumes "switch_step s t" "sys_inv s"
  shows "sys_inv t"
  using assms(1)
proof cases
  case (added sys net r closed sw')
  then show ?thesis
    using add_port_inv [OF added(3,2)] assms(2) by (intro sys_inv_grow [OF assms(2)]) (auto simp: sys_inv_def)
next
  case (started spawn r sw' spawned now)
  then have "sw_networks sw' = sw_networks (ss_switch s)"
    by (auto simp: switch_start_def Let_def split: if_splits result.splits)
  then show ?thesis
    using assms(2) started fds_inj_same ports_grow_same
    by (intro sys_inv_grow [OF assms(2), of sw']) (auto simp: sys_inv_def loop_ok_def split: if_splits)
next
  case stopping
  then show ?thesis
    using assms(2) by (intro sys_inv_grow [OF assms(2)])
      (auto simp: sys_inv_def intro: fds_inj_same ports_grow_same)
next
  case (round k lp now sw' aged order)
  have same: "sw_networks sw' = sw_networks (ss_switch s)"
    using age_step_keeps(1) [of now "lp_last_aged lp" "ss_switch s"] round(6) by simp
  have "loop_ok sw' \<lparr>lp_last_aged = aged, lp_pending = poll_list order (sw_networks sw'),
      lp_port_fds = snapshot_fds (sw_networks sw')\<rparr>"
    by (auto simp: loop_ok_def snapshot_fds_def port_fds_of_def dest!: poll_list_ok)
  then show ?thesis
    using assms(2) round same fds_inj_same ports_grow_same
    by (intro sys_inv_grow [OF assms(2), of sw'])
      (auto simp: sys_inv_def dest: subsetD [OF set_update_subset_insert])
next
  case (frame k lp net idx fd rest now dgram out sw')
  note same = handle_frame_keeps(1) [OF frame(5)]
  have lp: "lp \<in> set (ss_loops s)" using frame(2,3) nth_mem by blast
  then have new: "loop_ok sw' (lp\<lparr>lp_pending := rest\<rparr>)"
    using assms(2) frame(4) same by (fastforce simp: sys_inv_def loop_ok_def port_fds_of_def)
  have "sys_inv (s\<lparr>ss_switch := sw', ss_loops := (ss_loops s)[k := lp\<lparr>lp_pending := rest\<rparr>]\<rparr>)"
    using assms(2) new same fds_inj_same ports_grow_same
    by (intro sys_inv_grow [OF assms(2), of sw'])
      (auto simp: sys_inv_def dest: subsetD [OF set_update_subset_insert])
  then show ?thesis
    using frame(1) sys_inv_frame [OF assms(2) lp frame(4,5)] by (auto simp: sys_inv_def)
next
  case (idle k lp e rest)
  then have "loop_ok (ss_switch s) (lp\<lparr>lp_pending := rest\<rparr>)"
    using assms(2) nth_mem [OF idle(2)] by (auto simp: sys_inv_def loop_ok_def)
  then show ?thesis
    using assms(2) idle(1) by (auto simp: sys_inv_def dest: subsetD [OF set_update_subset_insert])
next
  case (leave k)
  then show ?thesis
    using assms(2) by (intro sys_inv_grow [OF assms(2)])
      (auto simp: sys_inv_def intro: fds_inj_same ports_grow_same dest: in_set_takeD in_set_dropD)
qed

lemma sys_inv_reachable: "switch_step\<^sup>*\<^sup>* sys_new s \<Longrightarrow> sys_inv s"
proof (induction rule: rtranclp_induct)
  case base
  show ?case by (simp add: sys_inv_def sys_new_def switch_new_def fds_inj_def port_fds_of_def)
qed (rule sys_inv_step)

section \<open>Properties\<close>

text \<open>C1: isolation.  In every interleaving of \<open>add_port\<close>, \<open>start\<close>, \<open>stop\<close> and the forwarding
  threads, a frame received on one port is only ever sent to a different port of the same
  network; a port of any other network never sees it.\<close>

theorem switch_isolation:
  assumes "switch_step\<^sup>*\<^sup>* sys_new s" and "(src, dst, f) \<in> set (ss_sent s)"
  shows "src \<noteq> dst \<and> (\<exists>net. src \<in> set (port_fds_of (ss_switch s) net)
    \<and> (\<forall>net'. dst \<in> set (port_fds_of (ss_switch s) net') \<longleftrightarrow> net' = net))"
proof -
  let ?p = "port_fds_of (ss_switch s)"
  have inv: "fds_inj (ss_switch s)" "same_network (ss_switch s) src dst"
    using sys_inv_reachable [OF assms(1)] assms(2) by (auto simp: sys_inv_def)
  then obtain n i j where ij: "i < length (?p n)" "j < length (?p n)" "i \<noteq> j"
      "src = ?p n ! i" "dst = ?p n ! j"
    by (auto simp: same_network_def)
  have "net' = n" if "dst \<in> set (?p net')" for net'
    using that ij inv(1) unfolding fds_inj_def in_set_conv_nth by metis
  moreover have "src \<noteq> dst" using ij inv(1) unfolding fds_inj_def by metis
  ultimately show ?thesis using ij nth_mem by metis
qed

text \<open>Two ports on one network and one on another; a broadcast reaches the neighbour only.\<close>

definition sock_ok :: "int \<Rightarrow> sock_sys" where
  "sock_ok fd = \<lparr>so_ret = 0, so_fds = (fd, fd + 1), so_getfl = 0, so_setfl = 0, so_errno = io_not_found\<rparr>"

definition broadcast_frame :: bytes where
  "broadcast_frame = [0xFF, 0xFF, 0xFF, 0xFF, 0xFF, 0xFF] @ [2, 0, 0, 0, 0, 1] @ [8, 0]"

definition three_ports :: NetworkSwitch where
  "three_ports =
     snd (snd (add_port (sock_ok 14) ''b'' (snd (snd (add_port (sock_ok 12) ''a''
       (snd (snd (add_port (sock_ok 10) ''a'' switch_new))))))))"

definition sys_ports :: "NetworkSwitch \<Rightarrow> switch_sys" where
  "sys_ports sw = \<lparr>ss_switch = sw, ss_loops = [], ss_sent = []\<rparr>"

lemma add_port_step:
  "\<not> open_fd sw fd \<Longrightarrow>
     switch_step (sys_ports sw) (sys_ports (snd (snd (add_port (sock_ok fd) net sw))))"
  using switch_step.added [of "sys_ports sw" "sock_ok fd" net]
  by (cases "add_port (sock_ok fd) net sw") (auto simp: sys_ports_def sock_ok_def)

lemma add_port_ok_networks:
  "sw_networks_poisoned sw = False \<Longrightarrow> sw_tables_poisoned sw = False \<Longrightarrow>
     add_port (sock_ok fd) net sw = (Ok \<lparr>ep_fd = fd + 1\<rparr>, [], sw\<lparr>
       sw_networks := (sw_networks sw)(net \<mapsto>
         (case sw_networks sw net of None \<Rightarrow> [] | Some ps \<Rightarrow> ps) @ [\<lparr>sp_fd = fd\<rparr>]),
       sw_mac_tables := (sw_mac_tables sw)(net \<mapsto>
         (case sw_mac_tables sw net of None \<Rightarrow> (\<lambda>_. None) | Some t \<Rightarrow> t))\<rparr>)"
  by (simp add: add_port_def create_socketpair_def sock_ok_def Let_def)

lemma three_ports_eq:
  "three_ports = switch_new\<lparr>
     sw_networks := [''a'' \<mapsto> [\<lparr>sp_fd = 10\<rparr>, \<lparr>sp_fd = 12\<rparr>], ''b'' \<mapsto> [\<lparr>sp_fd = 14\<rparr>]],
     sw_mac_tables := [''a'' \<mapsto> (\<lambda>_. None), ''b'' \<mapsto> (\<lambda>_. None)]\<rparr>"
  by (simp add: three_ports_def add_port_ok_networks switch_new_def)

lemma three_ports_reachable: "switch_step\<^sup>*\<^sup>* sys_new (sys_ports three_ports)"
proof -
  let ?s1 = "snd (snd (add_port (sock_ok 10) ''a'' switch_new))"
  let ?s2 = "snd (snd (add_port (sock_ok 12) ''a'' ?s1))"
  have "\<not> open_fd switch_new 10" "\<not> open_fd ?s1 12" "\<not> open_fd ?s2 14"
    by (simp_all add: open_fd_def port_fds_of_def add_port_ok_networks switch_new_def)
  then have "switch_step (sys_ports switch_new) (sys_ports ?s1)"
    "switch_step (sys_ports ?s1) (sys_ports ?s2)" "switch_step (sys_ports ?s2) (sys_ports three_ports)"
    unfolding three_ports_def by (blast intro: add_port_step)+
  moreover have "sys_new = sys_ports switch_new" by (simp add: sys_new_def sys_ports_def)
  ultimately show ?thesis by (metis converse_rtranclp_into_rtranclp rtranclp.rtrancl_refl)
qed

theorem switch_isolation_witness:
  "\<exists>s. switch_step\<^sup>*\<^sup>* sys_new s \<and> (10, 12, broadcast_frame) \<in> set (ss_sent s)
     \<and> 14 \<in> set (port_fds_of (ss_switch s) ''b'') \<and> 12 \<notin> set (port_fds_of (ss_switch s) ''b'')"
proof -
  define sw where "sw = three_ports\<lparr>sw_running := True, sw_worker := True\<rparr>"
  define lp where "lp = \<lparr>lp_last_aged = 0, lp_pending = [], lp_port_fds = (\<lambda>_. None)\<rparr>"
  define s1 where "s1 = \<lparr>ss_switch = sw, ss_loops = [lp], ss_sent = []\<rparr>"
  define pl where "pl = poll_list [''a'', ''b''] (sw_networks sw)"
  define pf where "pf = snapshot_fds (sw_networks sw)"
  define s2 where "s2 = s1\<lparr>ss_loops := [\<lparr>lp_last_aged = 0, lp_pending = pl, lp_port_fds = pf\<rparr>]\<rparr>"
  obtain out sw' where h: "handle_frame 1 pf ''a'' 0 broadcast_frame sw = (out, sw')" by fastforce
  define s3 where "s3 = s2\<lparr>ss_switch := sw',
    ss_loops := [\<lparr>lp_last_aged = 0, lp_pending = tl pl, lp_port_fds = pf\<rparr>],
    ss_sent := map (\<lambda>(dst, f). (10, dst, f)) out\<rparr>"
  have sw: "sw_networks sw = [''a'' \<mapsto> [\<lparr>sp_fd = 10\<rparr>, \<lparr>sp_fd = 12\<rparr>], ''b'' \<mapsto> [\<lparr>sp_fd = 14\<rparr>]]"
    by (simp add: sw_def three_ports_eq)
  have pl: "pl = [(''a'', 0, 10), (''a'', 1, 12), (''b'', 0, 14)]"
    by (simp add: pl_def poll_list_def sw)
  have "switch_start (Ok ()) three_ports = (Ok (), sw, True)"
    by (simp add: switch_start_def three_ports_eq switch_new_def sw_def)
  then have "switch_step (sys_ports three_ports) s1"
    using switch_step.started [of "Ok ()" "sys_ports three_ports" "Ok ()" sw True 0]
    by (simp add: sys_ports_def s1_def lp_def)
  moreover have "switch_step s1 s2"
    using switch_step.round [of 0 s1 lp 1 sw 0 "[''a'', ''b'']"]
    by (simp add: s1_def s2_def lp_def pl_def pf_def age_step_def elapsed_secs_def sw insert_commute
        MAC_AGE_INTERVAL_SECS_def) (simp add: sw_def three_ports_eq switch_new_def)
  moreover have "switch_step s2 s3"
    using switch_step.frame [of 0 s2 _ "''a''" 0 10 "tl pl" 1 broadcast_frame out sw'] h
    by (simp add: s2_def s1_def s3_def pl)
  ultimately have reach: "switch_step\<^sup>*\<^sup>* sys_new s3"
    using three_ports_reachable by (metis rtranclp.rtrancl_into_rtrancl)
  have "out = [(12, broadcast_frame)]"
    using h by (simp add: handle_frame_def broadcast_frame_def MIN_FRAME_SIZE_def MAX_FRAME_SIZE_def
        mac_from_bytes_def window_def pf_def snapshot_fds_def sw is_broadcast_def flood_def Let_def
        numeral_eq_Suc)
  then have sent: "(10, 12, broadcast_frame) \<in> set (ss_sent s3)" by (simp add: s3_def)
  have ports: "port_fds_of (ss_switch s3) ''b'' = [14]" "port_fds_of (ss_switch s3) ''a'' = [10, 12]"
    using handle_frame_keeps(1) [OF h] by (simp_all add: s3_def s2_def port_fds_of_def sw)
  show ?thesis using reach sent switch_isolation [OF reach sent] ports by auto
qed

text \<open>A \<open>start\<close> that overlaps with a \<open>stop\<close>: \<open>stop\<close> clears the flag and waits for the thread; if \<open>start\<close> sets
  the flag before the thread has looked at it, the thread goes on beside a second one.
  \<open>stop\<close> then waits, with the lock that \<open>start\<close> needs next, for a thread that does not end.\<close>

theorem start_during_stop:
  "\<exists>s. switch_step\<^sup>*\<^sup>* sys_new s \<and> length (ss_loops s) = 2 \<and> sw_running (ss_switch s)
     \<and> (\<forall>k < 2. \<exists>s'. switch_step s s' \<and> length (ss_loops s') = 2 \<and> ss_loops s' ! k \<noteq> ss_loops s ! k)"
proof -
  define lp where "lp = \<lparr>lp_last_aged = 0, lp_pending = [], lp_port_fds = (\<lambda>_. None)\<rparr>"
  define sw where "sw = three_ports\<lparr>sw_running := True, sw_worker := True\<rparr>"
  define s1 where "s1 = \<lparr>ss_switch = sw, ss_loops = [lp], ss_sent = []\<rparr>"
  define s2 where "s2 = s1\<lparr>ss_switch := sw\<lparr>sw_running := False\<rparr>\<rparr>"
  define s3 where "s3 = \<lparr>ss_switch = sw, ss_loops = [lp, lp], ss_sent = []\<rparr>"
  have sw: "sw_networks sw = [''a'' \<mapsto> [\<lparr>sp_fd = 10\<rparr>, \<lparr>sp_fd = 12\<rparr>], ''b'' \<mapsto> [\<lparr>sp_fd = 14\<rparr>]]"
    "\<not> sw_networks_poisoned sw" "sw_running sw"
    by (simp_all add: sw_def three_ports_eq switch_new_def)
  have "switch_start (Ok ()) three_ports = (Ok (), sw, True)"
    "switch_start (Ok ()) (sw\<lparr>sw_running := False\<rparr>) = (Ok (), sw, True)"
    by (simp_all add: switch_start_def three_ports_eq switch_new_def sw_def)
  then have "switch_step (sys_ports three_ports) s1" "switch_step s1 s2" "switch_step s2 s3"
    using switch_step.started [of "Ok ()" "sys_ports three_ports" "Ok ()" sw True 0]
      switch_step.stopping [of s1] switch_step.started [of "Ok ()" s2 "Ok ()" sw True 0]
    by (simp_all add: sys_ports_def s1_def s2_def s3_def lp_def)
  then have "switch_step\<^sup>*\<^sup>* sys_new s3"
    using three_ports_reachable by (metis rtranclp.rtrancl_into_rtrancl)
  moreover have "\<exists>s'. switch_step s3 s' \<and> length (ss_loops s') = 2 \<and> ss_loops s' ! k \<noteq> lp" if "k < 2" for k
  proof -
    let ?lp = "\<lparr>lp_last_aged = 0, lp_pending = poll_list [''a'', ''b''] (sw_networks sw), lp_port_fds = snapshot_fds (sw_networks sw)\<rparr>"
    have "switch_step s3 (s3\<lparr>ss_switch := sw, ss_loops := [lp, lp][k := ?lp]\<rparr>)"
      using switch_step.round [of k s3 lp 1 sw 0 "[''a'', ''b'']"] that sw
      by (simp add: s3_def lp_def age_step_def elapsed_secs_def MAC_AGE_INTERVAL_SECS_def insert_commute nth_Cons' less_2_cases_iff)
    moreover have "?lp \<noteq> lp" by (simp add: lp_def poll_list_def sw)
    ultimately show ?thesis
      using that by (intro exI [of _ "s3\<lparr>ss_switch := sw, ss_loops := [lp, lp][k := ?lp]\<rparr>"])
        (auto simp: less_2_cases_iff)
  qed
  ultimately show ?thesis
    using sw(3) by (intro exI [of _ s3]) (auto simp: s3_def less_2_cases_iff nth_Cons')
qed

text \<open>What changes the tables of addresses: frames on any network, sweeps, and new ports.\<close>

datatype table_event =
    Heard nat "string \<rightharpoonup> int list" string nat bytes
  | Swept nat nat
  | Joined sock_sys string

fun apply_event :: "table_event \<Rightarrow> NetworkSwitch \<Rightarrow> NetworkSwitch" where
  "apply_event (Heard now pf net idx d) sw = snd (handle_frame now pf net idx d sw)"
| "apply_event (Swept now last_aged) sw = fst (age_step now last_aged sw)"
| "apply_event (Joined sys net) sw = snd (snd (add_port sys net sw))"

text \<open>An event that leaves what was learned about \<open>mac\<close> at time \<open>t\<close> alone: a frame from another address,
  or on another network, and a sweep before the entry is 120 s old.\<close>

fun spares :: "string \<Rightarrow> MacAddress \<Rightarrow> nat \<Rightarrow> table_event \<Rightarrow> bool" where
  "spares net mac t (Heard now pf net' idx d) \<longleftrightarrow> net' \<noteq> net \<or> MacAddress (window d 6 6) \<noteq> mac"
| "spares net mac t (Swept now last_aged) \<longleftrightarrow> elapsed_secs now t < MAC_ENTRY_LIFETIME_SECS"
| "spares net mac t (Joined sys net') \<longleftrightarrow> True"

definition knows :: "string \<Rightarrow> MacAddress \<Rightarrow> nat \<Rightarrow> nat \<Rightarrow> NetworkSwitch \<Rightarrow> bool" where
  "knows net mac j t sw \<longleftrightarrow> \<not> sw_tables_poisoned sw
     \<and> (\<exists>table. sw_mac_tables sw net = Some table \<and> table mac = Some (j, t))"

lemma knows_lookup: "knows net mac j t sw \<Longrightarrow> lookup_port net mac sw = Some j"
  by (auto simp: knows_def lookup_port_def)

lemma knows_learn:
  "knows net mac j t sw \<Longrightarrow> net' \<noteq> net \<or> src \<noteq> mac \<Longrightarrow> knows net mac j t (learn now net' idx src sw)"
  by (auto simp: knows_def learn_def split: option.split)

lemma handle_frame_table:
  "snd (handle_frame now pf net idx d sw) =
     (if length d < MIN_FRAME_SIZE then sw else learn now net idx (MacAddress (window d 6 6)) sw)"
proof (cases "MIN_FRAME_SIZE \<le> length d")
  case True
  show ?thesis using True unfolding handle_frame_long [OF True] by (auto simp: Let_def split: option.split)
qed (simp add: handle_frame_def MAX_FRAME_SIZE_def MIN_FRAME_SIZE_def Let_def)

lemma knows_event:
  assumes "knows net mac j t sw" "spares net mac t e"
  shows "knows net mac j t (apply_event e sw)"
proof (cases e)
  case (Heard now pf net' idx d)
  then show ?thesis using assms knows_learn by (auto simp: handle_frame_table)
next
  case (Swept now last_aged)
  then show ?thesis using assms by (auto simp: knows_def age_step_def age_table_def)
next
  case (Joined sys net')
  then show ?thesis
    using assms by (auto simp: knows_def add_port_def Let_def split: prod.split result.split option.split)
qed

lemma knows_events:
  "knows net mac j t sw \<Longrightarrow> list_all (spares net mac t) es \<Longrightarrow> knows net mac j t (fold apply_event es sw)"
  by (induction es arbitrary: sw) (simp_all add: knows_event)


definition frame_between :: "u8 \<Rightarrow> u8 \<Rightarrow> bytes" where
  "frame_between dst src = [2, 0, 0, 0, 0, dst] @ [2, 0, 0, 0, 0, src] @ [8, 0]"


text \<open>A frame to a broadcast, multicast or unknown address is offered exactly once to every
  port of the network except the one it came from; it carries the first 1518 bytes of what was
  received, so a longer frame is cut rather than dropped.\<close>

theorem flood_every_other_port:
  assumes "MIN_FRAME_SIZE \<le> length d" "pf net = Some fds"
    and "mac = MacAddress (window d 0 6)" "src = MacAddress (window d 6 6)"
    and "is_broadcast mac \<or> is_multicast mac
       \<or> lookup_port net mac sw = None \<and> mac \<noteq> src"
  shows "fst (handle_frame now pf net i d sw) =
    map (\<lambda>j. (fds ! j, take 1518 d)) (filter (\<lambda>j. j \<noteq> i) [0..<length fds])"
proof -
  have "lookup_port net mac (learn now net i src sw) = lookup_port net mac sw" if "mac \<noteq> src"
    using that by (simp add: lookup_port_def learn_def split: option.split)
  then have "fst (handle_frame now pf net i d sw) = flood fds i (take MAX_FRAME_SIZE d)"
    using assms(2-5) unfolding handle_frame_long [OF assms(1)] by (auto simp: Let_def)
  also have "\<dots> = map (\<lambda>j. (fds ! j, take 1518 d)) (filter (\<lambda>j. j \<noteq> i) [0..<length fds])"
  proof -
    have "enumerate 0 fds = map (\<lambda>j. (j, fds ! j)) [0..<length fds]"
      by (auto intro: nth_equalityI simp: nth_enumerate_eq)
    then show ?thesis by (simp add: flood_def filter_map o_def MAX_FRAME_SIZE_def)
  qed
  finally show ?thesis .
qed

theorem flood_every_other_port_witness:
  "fst (handle_frame 1 (snapshot_fds (sw_networks three_ports)) ''a'' 1
     (broadcast_frame @ zeros 2000) three_ports) = [(10, broadcast_frame @ zeros 1504)]"
proof -
  have win: "window (broadcast_frame @ zeros 2000) 0 6 = [0xFF, 0xFF, 0xFF, 0xFF, 0xFF, 0xFF]"
    by (simp add: window_def broadcast_frame_def numeral_eq_Suc)
  have "take 1518 (broadcast_frame @ zeros 2000) = broadcast_frame @ zeros 1504"
    by (simp add: broadcast_frame_def zeros_def min_def)
  then show ?thesis
    using flood_every_other_port [of "broadcast_frame @ zeros 2000" "snapshot_fds (sw_networks three_ports)"
        "''a''" "[10, 12]" _ _ three_ports 1 1, OF _ _ refl refl]
    by (simp add: win MIN_FRAME_SIZE_def is_broadcast_def snapshot_fds_def three_ports_eq)
qed

text \<open>A \<open>start\<close> whose thread cannot be created leaves the switch marked as running: every
  later \<open>start\<close> reports success without creating a thread, until \<open>stop\<close> is called.\<close>

theorem failed_start_sticks:
  assumes "\<not> sw_running sw" "switch_start (Err e) sw = (r, sw', spawned)"
  shows "r = Err e \<and> \<not> spawned \<and> switch_start any sw' = (Ok (), sw', False)
    \<and> (\<not> sw_worker_poisoned sw \<longrightarrow>
         switch_start (Ok ()) (switch_stop sw') = (Ok (), sw'\<lparr>sw_worker := True\<rparr>, True))"
  using assms by (auto simp: switch_start_def switch_stop_def Let_def)

theorem failed_start_sticks_witness:
  "\<exists>sw'. switch_start (Err io_not_found) switch_new = (Err io_not_found, sw', False)
     \<and> switch_start (Ok ()) sw' = (Ok (), sw', False)"
proof -
  obtain r sw' b where "switch_start (Err io_not_found) switch_new = (r, sw', b)"
    by (metis prod_cases3)
  then show ?thesis
    using failed_start_sticks [of switch_new io_not_found r sw' b "Ok ()"]
    by (auto simp: switch_new_def)
qed

end
