(* ===== verification/Setup.thy ===== *)
theory Setup
  imports Config
begin

text \<open>
  \<open>src/setup/mod.rs\<close> and \<open>src/setup/ssh.rs\<close>: the error type of image preparation, the data
  directory, and the SSH key pair, which is created at most once by the external
  \<open>ssh-keygen\<close>.
\<close>

datatype SetupError =
    SetupIo io_error
  | IsoCreation string
  | AssetDownload string
  | SetupConfig string
  | UnsupportedImage string

fun setup_error_display :: "SetupError \<Rightarrow> string" where
  "setup_error_display (SetupIo e) = ''I/O error: '' @ io_text e"
| "setup_error_display (IsoCreation s) = ''ISO creation failed: '' @ s"
| "setup_error_display (AssetDownload s) = ''asset download failed: '' @ s"
| "setup_error_display (SetupConfig s) = ''configuration error: '' @ s"
| "setup_error_display (UnsupportedImage s) = ''unsupported image: '' @ s"

text \<open>\<open>var\<close> is \<open>std::env::var\<close>.\<close>

definition data_dir :: "(string \<Rightarrow> string option) \<Rightarrow> (path, SetupError) result" where
  "data_dir var =
     (case var ''VMRS_DATA_DIR'' of Some dir \<Rightarrow> Ok (path_of dir)
      | None \<Rightarrow>
        (case var ''HOME'' of
           None \<Rightarrow> Err (SetupConfig
             ''HOME environment variable not set. Set VMRS_DATA_DIR explicitly.'')
         | Some home \<Rightarrow> Ok (path_join (path_of home) [Normal ''.vm-rs''])))"

definition generate_ssh_key :: "exec \<Rightarrow> path \<Rightarrow> fs \<Rightarrow> (path, SetupError) result \<times> fs" where
  "generate_ssh_key exec dir w =
     (case fs_create_dir_all dir w of (Err e, w1) \<Rightarrow> (Err (SetupIo e), w1)
      | (Ok _, w1) \<Rightarrow>
        (let key_path = path_join dir [Normal ''id_ed25519''];
             pub_path = path_join dir [Normal ''id_ed25519.pub'']
         in if fs_exists w1 key_path \<and> fs_exists w1 pub_path then (Ok pub_path, w1)
            else (case exec \<lparr>cmd_program = ''ssh-keygen'',
                       cmd_args = [''-t'', ''ed25519'', ''-f'', display_path key_path,
                                   ''-N'', [], ''-q'']\<rparr> w1 of
                    (Err e, w2) \<Rightarrow> (Err (SetupIo e), w2)
                  | (Ok out, w2) \<Rightarrow>
                    if \<not> out_success out
                    then (Err (SetupConfig (''ssh-keygen failed (exit '' @ out_status out @ ''): ''
                            @ str_trim (from_utf8_lossy (out_stderr out)))), w2)
                    else (Ok pub_path, w2))))"

text \<open>A second call finds the key and runs nothing: it changes no file and keeps the key.\<close>

lemma generate_ssh_key_again:
  assumes "fs_exists w (path_join dir [Normal ''id_ed25519''])"
    "fs_exists w (path_join dir [Normal ''id_ed25519.pub''])" "dir \<noteq> []"
    "fs_create_dir_all dir w = (Ok (), w1)"
  shows "generate_ssh_key exec dir w = (Ok (dir @ [Normal ''id_ed25519.pub'']), w1)
    \<and> fs_files w1 = fs_files w"
proof -
  have "fs_files w1 = fs_files w" "fs_dirs w \<subseteq> fs_dirs w1"
    using assms(4) by (auto simp: fs_create_dir_all_def split: option.splits if_splits)
  then show ?thesis
    using assms by (auto simp: generate_ssh_key_def Let_def fs_exists_def fs_is_dir_def)
qed

end
