(* ===== verification/Seed.thy ===== *)
theory Seed
  imports Setup
begin

text \<open>
  \<open>src/setup/seed.rs\<close>: the cloud-init seed of a VM.  User-supplied strings go into a YAML
  document whose \<open>runcmd\<close> entries are shell commands; the validators and \<open>shell_quote\<close> are what
  keeps them data.  The ISO tool (\<open>genisoimage\<close>, \<open>mkisofs\<close>, \<open>hdiutil\<close>) is an external command.
\<close>

section \<open>Configuration\<close>

record NicConfig =
  nic_name :: string
  nic_ip :: string
  nic_gateway :: "string option"

record ProcessConfig =
  proc_command :: string
  proc_workdir :: "string option"
  proc_env :: "(string \<times> string) list"

record VolumeMountConfig =
  vol_tag :: string
  vol_mount_point :: string
  vol_read_only :: bool

record HealthCheckConfig =
  hc_command :: string
  hc_interval_secs :: u32
  hc_retries :: u32

record SeedConfig =
  seed_hostname :: string
  seed_ssh_pubkey :: string
  seed_nics :: "NicConfig list"
  seed_process :: "ProcessConfig option"
  seed_volumes :: "VolumeMountConfig list"
  seed_healthcheck :: "HealthCheckConfig option"
  seed_extra_hosts :: "(string \<times> string) list"

section \<open>Quoting and validation\<close>

definition shell_quote_char :: "char \<Rightarrow> string" where
  "shell_quote_char c = (if [c] = squote then squote @ [CHR 0x5C] @ squote @ squote else [c])"

definition shell_quote :: "string \<Rightarrow> string" where
  "shell_quote s = squote @ concat (map shell_quote_char s) @ squote"

definition is_safe_env_name :: "string \<Rightarrow> bool" where
  "is_safe_env_name s \<longleftrightarrow> s \<noteq> [] \<and> length s \<le> 256
     \<and> list_all (\<lambda>c. is_ascii_alphanumeric c \<or> c = CHR ''_'') s \<and> \<not> is_ascii_digit (hd s)"

definition is_safe_hostname :: "string \<Rightarrow> bool" where
  "is_safe_hostname s \<longleftrightarrow> s \<noteq> [] \<and> length s \<le> 253
     \<and> list_all (\<lambda>c. is_ascii_alphanumeric c \<or> c = CHR ''-'' \<or> c = CHR ''.'') s"

definition is_safe_ip :: "string \<Rightarrow> bool" where
  "is_safe_ip s \<longleftrightarrow> s \<noteq> [] \<and> length s \<le> 45
     \<and> list_all (\<lambda>c. is_ascii_hexdigit c \<or> c = CHR ''.'' \<or> c = CHR '':'') s"

definition is_safe_cidr :: "string \<Rightarrow> bool" where
  "is_safe_cidr s \<longleftrightarrow>
     (case split_once (CHR ''/'') s of None \<Rightarrow> False
      | Some (ip, len) \<Rightarrow>
        if \<not> is_safe_ip ip then False
        else (case parse_u8 len of None \<Rightarrow> False | Some bits \<Rightarrow> bits \<le> 128))"

definition is_safe_mount_tag :: "string \<Rightarrow> bool" where
  "is_safe_mount_tag s \<longleftrightarrow> s \<noteq> [] \<and> length s \<le> 128
     \<and> list_all (\<lambda>c. is_ascii_alphanumeric c \<or> c = CHR ''-'' \<or> c = CHR ''_'' \<or> c = CHR ''.'') s"

definition is_safe_shell_fragment :: "string \<Rightarrow> bool" where
  "is_safe_shell_fragment s \<longleftrightarrow>
     CHR 0x00 \<notin> set s \<and> CHR 0x0A \<notin> set s \<and> CHR 0x0D \<notin> set s"

definition is_safe_mount_point :: "string \<Rightarrow> bool" where
  "is_safe_mount_point s \<longleftrightarrow> starts_with ''/'' s
     \<and> CHR 0x00 \<notin> set s \<and> CHR 0x0A \<notin> set s \<and> CHR 0x0D \<notin> set s \<and> length s \<le> 1024"

definition is_safe_iface_name :: "string \<Rightarrow> bool" where
  "is_safe_iface_name s \<longleftrightarrow> s \<noteq> [] \<and> length s \<le> 15
     \<and> list_all (\<lambda>c. is_ascii_alphanumeric c \<or> c = CHR ''-'' \<or> c = CHR ''_'') s"

definition validate_ssh_pubkey :: "string \<Rightarrow> (unit, SetupError) result" where
  "validate_ssh_pubkey s =
     (if CHR 0x00 \<in> set s \<or> CHR 0x0A \<in> set s \<or> CHR 0x0D \<in> set s
      then Err (SetupConfig ''SSH public key must be a single line without NUL bytes'')
      else (case split_whitespace s of
              [] \<Rightarrow> Err (SetupConfig ''SSH public key is empty'')
            | [_] \<Rightarrow> Err (SetupConfig ''SSH public key is missing key material'')
            | key_type # key_material # _ \<Rightarrow>
              if \<not> starts_with ''ssh-'' key_type \<and> \<not> starts_with ''ecdsa-'' key_type
              then Err (SetupConfig (''unsupported SSH public key type '' @ squote @ key_type @ squote))
              else if key_material = []
              then Err (SetupConfig ''SSH public key is missing key material'')
              else Ok ()))"

section \<open>The documents\<close>

definition quoted_error :: "string \<Rightarrow> string \<Rightarrow> SetupError" where
  "quoted_error what s = SetupConfig (what @ '' '' @ squote @ s @ squote)"

text \<open>The entries of \<open>runcmd\<close>, each one line; the loops of \<open>build_user_data\<close> check and append
  them.\<close>

definition volume_cmd :: "VolumeMountConfig \<Rightarrow> string" where
  "volume_cmd vol =
     ''  - mkdir -p '' @ shell_quote (vol_mount_point vol) @ '' && mount -t virtiofs ''
     @ shell_quote (vol_tag vol) @ '' '' @ shell_quote (vol_mount_point vol)
     @ (if vol_read_only vol then '' -o ro'' else [])"

definition host_cmd :: "string \<times> string \<Rightarrow> string" where
  "host_cmd entry =
     (let (host, ip) = entry
      in ''  - echo '' @ squote @ ip @ '' '' @ host @ squote @ '' >> /etc/hosts'')"

definition env_cmd :: "string \<times> string \<Rightarrow> string" where
  "env_cmd entry = (let (k, v) = entry in ''  - export '' @ k @ ''='' @ shell_quote v)"

definition process_cmd :: "ProcessConfig \<Rightarrow> string" where
  "process_cmd p =
     (case proc_workdir p of
        Some wd \<Rightarrow> ''  - cd '' @ shell_quote wd @ '' && sh -lc '' @ shell_quote (proc_command p)
      | None \<Rightarrow> ''  - sh -lc '' @ shell_quote (proc_command p))"

definition healthcheck_cmd :: "HealthCheckConfig \<Rightarrow> string" where
  "healthcheck_cmd hc =
     ''  - while true; do sh -lc '' @ shell_quote (hc_command hc)
     @ '' > /tmp/vmrs-health 2>&1 && echo '' @ squote @ ''healthy'' @ squote
     @ '' >> /tmp/vmrs-health || echo '' @ squote @ ''unhealthy'' @ squote
     @ '' >> /tmp/vmrs-health; sleep '' @ nat_to_str (unat (hc_interval_secs hc)) @ ''; done &''"

definition ready_cmd :: string where
  "ready_cmd = ''  - echo '' @ dquote @ READY_MARKER @ '' $(hostname -I | awk '' @ squote
     @ ''{print $1}'' @ squote @ '')'' @ dquote"

definition volume_line :: "VolumeMountConfig \<Rightarrow> (string, SetupError) result" where
  "volume_line vol =
     (if \<not> is_safe_mount_tag (vol_tag vol)
      then Err (quoted_error ''invalid VirtioFS tag'' (vol_tag vol))
      else if \<not> is_safe_mount_point (vol_mount_point vol)
      then Err (quoted_error ''invalid mount point'' (vol_mount_point vol))
      else Ok (volume_cmd vol @ newline))"

definition host_line :: "string \<times> string \<Rightarrow> (string, SetupError) result" where
  "host_line entry =
     (let (host, ip) = entry in
      if \<not> is_safe_hostname host \<or> \<not> is_safe_ip ip
      then Err (SetupConfig (''unsafe /etc/hosts entry: '' @ ip @ '' '' @ host))
      else Ok (host_cmd entry @ newline))"

definition env_line :: "string \<times> string \<Rightarrow> (string, SetupError) result" where
  "env_line entry =
     (let (k, v) = entry in
      if \<not> is_safe_env_name k then Err (quoted_error ''unsafe environment variable name'' k)
      else Ok (env_cmd entry @ newline))"

definition process_lines :: "ProcessConfig option \<Rightarrow> (string, SetupError) result" where
  "process_lines process =
     (case process of None \<Rightarrow> Ok []
      | Some p \<Rightarrow>
        if \<not> is_safe_shell_fragment (proc_command p)
        then Err (SetupConfig ''process command contains unsafe control characters'')
        else and_then (traverse env_line (proc_env p)) (\<lambda>env.
          (case proc_workdir p of
             Some wd \<Rightarrow>
               if \<not> is_safe_mount_point wd
               then Err (quoted_error ''invalid working directory'' wd)
               else Ok (concat env @ process_cmd p @ newline)
           | None \<Rightarrow> Ok (concat env @ process_cmd p @ newline))))"

definition healthcheck_lines :: "HealthCheckConfig option \<Rightarrow> (string, SetupError) result" where
  "healthcheck_lines healthcheck =
     (case healthcheck of None \<Rightarrow> Ok []
      | Some hc \<Rightarrow>
        if \<not> is_safe_shell_fragment (hc_command hc)
        then Err (SetupConfig ''healthcheck command contains unsafe control characters'')
        else Ok (healthcheck_cmd hc @ newline))"

definition build_user_data :: "SeedConfig \<Rightarrow> (string, SetupError) result" where
  "build_user_data c =
     and_then (validate_ssh_pubkey (seed_ssh_pubkey c)) (\<lambda>_.
     and_then (traverse volume_line (seed_volumes c)) (\<lambda>volumes.
     and_then (traverse host_line (seed_extra_hosts c)) (\<lambda>hosts.
     and_then (process_lines (seed_process c)) (\<lambda>process.
     and_then (healthcheck_lines (seed_healthcheck c)) (\<lambda>health.
       Ok (''#cloud-config'' @ newline @ ''ssh_authorized_keys:'' @ newline
           @ ''  - '' @ seed_ssh_pubkey c @ newline @ ''disable_root: false'' @ newline
           @ ''runcmd:'' @ newline
           @ concat volumes @ concat hosts @ process @ health @ ready_cmd @ newline))))))"

definition nic_lines :: "NicConfig \<Rightarrow> (string, SetupError) result" where
  "nic_lines nic =
     (if \<not> is_safe_iface_name (nic_name nic)
      then Err (quoted_error ''invalid interface name'' (nic_name nic))
      else if \<not> is_safe_cidr (nic_ip nic)
      then Err (quoted_error ''invalid interface address'' (nic_ip nic))
      else (let head = ''  '' @ nic_name nic @ '':'' @ newline
                     @ ''    addresses: ['' @ nic_ip nic @ '']'' @ newline
            in case nic_gateway nic of None \<Rightarrow> Ok head
               | Some gw \<Rightarrow>
                 if \<not> is_safe_ip gw then Err (quoted_error ''invalid gateway'' gw)
                 else Ok (head @ ''    routes:'' @ newline @ ''      - to: default'' @ newline
                          @ ''        via: '' @ gw @ newline)))"

definition build_network_config :: "SeedConfig \<Rightarrow> (string, SetupError) result" where
  "build_network_config c =
     and_then (traverse nic_lines (seed_nics c)) (\<lambda>nics.
       Ok (''version: 2'' @ newline @ ''ethernets:'' @ newline @ concat nics))"

section \<open>The ISO\<close>

definition create_iso_image ::
  "target_os \<Rightarrow> exec \<Rightarrow> path \<Rightarrow> path \<Rightarrow> fs \<Rightarrow> (unit, SetupError) result \<times> fs" where
  "create_iso_image os exec iso_path source_dir w =
     (case os of
        MacOs \<Rightarrow>
          (case exec \<lparr>cmd_program = ''hdiutil'', cmd_args = [''makehybrid'', ''-o'',
                 display_path iso_path, display_path source_dir, ''-joliet'', ''-iso'',
                 ''-default-volume-name'', ''cidata'']\<rparr> w of
             (Err e, w1) \<Rightarrow> (Err (SetupIo e), w1)
           | (Ok out, w1) \<Rightarrow>
             if \<not> out_success out
             then (Err (IsoCreation (''hdiutil makehybrid failed (exit '' @ out_status out
                     @ ''): '' @ str_trim (from_utf8_lossy (out_stderr out)))), w1)
             else (Ok (), w1))
      | Linux \<Rightarrow>
          (let args = [''-output'', display_path iso_path, ''-volid'', ''cidata'', ''-joliet'',
                       ''-rock'', display_path source_dir];
               (result, w1) = exec \<lparr>cmd_program = ''genisoimage'', cmd_args = args\<rparr> w
           in if (case result of Ok out \<Rightarrow> out_success out | Err _ \<Rightarrow> False) then (Ok (), w1)
              else (case exec \<lparr>cmd_program = ''mkisofs'', cmd_args = args\<rparr> w1 of
                      (Err e, w2) \<Rightarrow> (Err (SetupIo e), w2)
                    | (Ok out, w2) \<Rightarrow>
                      if \<not> out_success out
                      then (Err (IsoCreation (''neither genisoimage nor mkisofs succeeded. ''
                              @ ''Install: apt install genisoimage. Last error: ''
                              @ str_trim (from_utf8_lossy (out_stderr out)))), w2)
                      else (Ok (), w2)))
      | Windows \<Rightarrow> (Ok (), w))"

text \<open>The closure of \<open>create_seed_iso\<close>: what happens inside the temporary directory.\<close>

definition seed_contents ::
  "target_os \<Rightarrow> exec \<Rightarrow> path \<Rightarrow> path \<Rightarrow> SeedConfig \<Rightarrow> fs \<Rightarrow> (unit, SetupError) result \<times> fs" where
  "seed_contents os exec iso_path tmp_dir c w =
     (let meta_data = ''instance-id: '' @ seed_hostname c @ newline
            @ ''local-hostname: '' @ seed_hostname c @ newline
      in case fs_write (path_join tmp_dir [Normal ''meta-data'']) (as_bytes meta_data) w of
           (Err e, w1) \<Rightarrow> (Err (SetupIo e), w1)
         | (Ok _, w1) \<Rightarrow>
           (case build_user_data c of Err e \<Rightarrow> (Err e, w1)
            | Ok user_data \<Rightarrow>
              (case fs_write (path_join tmp_dir [Normal ''user-data'']) (as_bytes user_data) w1 of
                 (Err e, w2) \<Rightarrow> (Err (SetupIo e), w2)
               | (Ok _, w2) \<Rightarrow>
                 if seed_nics c = [] then create_iso_image os exec iso_path tmp_dir w2
                 else (case build_network_config c of Err e \<Rightarrow> (Err e, w2)
                       | Ok network_config \<Rightarrow>
                         (case fs_write (path_join tmp_dir [Normal ''network-config''])
                                 (as_bytes network_config) w2 of
                            (Err e, w3) \<Rightarrow> (Err (SetupIo e), w3)
                          | (Ok _, w3) \<Rightarrow> create_iso_image os exec iso_path tmp_dir w3)))))"

text \<open>\<open>stamp\<close> is the process id, the time in nanoseconds and the counter of the call.\<close>

definition seed_tmp_dir :: "path \<Rightarrow> string \<Rightarrow> nat \<times> nat \<times> nat \<Rightarrow> path" where
  "seed_tmp_dir parent hostname stamp =
     (let (pid, nanos, counter) = stamp
      in path_join parent (path_of (''.seed-'' @ hostname @ ''-'' @ nat_to_str pid @ ''-''
           @ nat_to_str nanos @ ''-'' @ nat_to_str counter)))"

definition create_seed_iso ::
  "target_os \<Rightarrow> exec \<Rightarrow> nat \<times> nat \<times> nat \<Rightarrow> path \<Rightarrow> SeedConfig \<Rightarrow> fs
     \<Rightarrow> (unit, SetupError) result \<times> fs" where
  "create_seed_iso os exec stamp iso_path c w =
     (if \<not> is_safe_hostname (seed_hostname c)
      then (Err (quoted_error ''invalid hostname'' (seed_hostname c)), w)
      else (case path_parent iso_path of
              None \<Rightarrow> (Err (SetupConfig ''no parent directory for ISO path''), w)
            | Some parent \<Rightarrow>
              (let tmp_dir = seed_tmp_dir parent (seed_hostname c) stamp
               in case fs_create_dir_all tmp_dir w of
                    (Err e, w1) \<Rightarrow> (Err (SetupIo e), w1)
                  | (Ok _, w1) \<Rightarrow>
                    (let (result, w2) = seed_contents os exec iso_path tmp_dir c w1
                     in (result, snd (fs_remove_dir_all tmp_dir w2))))))"

section \<open>The shell's view of a quoted string\<close>

text \<open>
  A word of the POSIX shell with its quotes removed, and the rest of the input: single quotes
  keep everything, a backslash keeps the next character, blanks and operators end the word.
  Anything the shell would expand or that leaves a quote open is \<open>None\<close>: such a word is not
  plain text.
\<close>

definition sh_word_end :: "char \<Rightarrow> bool" where
  "sh_word_end c \<longleftrightarrow> c \<in> set ('' ;&|<>()'' @ newline @ [CHR 0x09])"

definition sh_expands :: "char \<Rightarrow> bool" where
  "sh_expands c \<longleftrightarrow> c \<in> set (''$`*?[~#'' @ dquote)"

lemma split_once_shorter: "split_once x s = Some (a, b) \<Longrightarrow> length b < length s"
  by (induction s arbitrary: a) (auto split: if_splits simp: less_Suc_eq)

function sh_word :: "string \<Rightarrow> (string \<times> string) option" where
  "sh_word s =
     (case s of [] \<Rightarrow> Some ([], [])
      | c # cs \<Rightarrow>
        if sh_word_end c then Some ([], s)
        else if [c] = squote then
          (case split_once (CHR 0x27) cs of None \<Rightarrow> None
           | Some (a, rest) \<Rightarrow> map_option (\<lambda>(w, r). (a @ w, r)) (sh_word rest))
        else if c = CHR 0x5C then
          (case cs of [] \<Rightarrow> None
           | d # rest \<Rightarrow> if d = CHR 0x0A then sh_word rest
                        else map_option (\<lambda>(w, r). (d # w, r)) (sh_word rest))
        else if sh_expands c then None
        else map_option (\<lambda>(w, r). (c # w, r)) (sh_word cs))"
  by pat_completeness auto
termination
  by (relation "measure length") (auto dest: split_once_shorter)

declare sh_word.simps [simp del]

lemma sh_word_quoted:
  "CHR 0x27 \<notin> set a \<Longrightarrow>
     sh_word (squote @ a @ squote @ rest) = map_option (\<lambda>(w, r). (a @ w, r)) (sh_word rest)"
  by (subst sh_word.simps) (simp add: sh_word_end_def split_once_first)

text \<open>The quoted text up to its first quote, and the rest.\<close>

lemma shell_quote_body_no_quote:
  "CHR 0x27 \<notin> set a \<Longrightarrow> concat (map shell_quote_char a) = a"
  by (induction a) (auto simp: shell_quote_char_def)

lemma sh_word_escaped_quote:
  "sh_word (CHR 0x5C # CHR 0x27 # rest) = map_option (\<lambda>(w, r). (CHR 0x27 # w, r)) (sh_word rest)"
  by (subst sh_word.simps) (simp add: sh_word_end_def)

lemma sh_word_shell_quote:
  assumes "rest = [] \<or> sh_word_end (hd rest)"
  shows "sh_word (shell_quote s @ rest) = Some (s, rest)"
proof (induction s rule: length_induct)
  case (1 s)
  have done_: "sh_word rest = Some ([], rest)"
    using assms by (cases rest) (simp_all add: sh_word.simps)
  show ?case
  proof (cases "CHR 0x27 \<in> set s")
    case False
    then show ?thesis
      using sh_word_quoted [OF False, of rest] done_
      by (simp add: shell_quote_def shell_quote_body_no_quote)
  next
    case True
    then obtain a b where s: "s = a @ CHR 0x27 # b" "CHR 0x27 \<notin> set a"
      by (metis split_list_first)
    then have "shell_quote s @ rest
        = squote @ a @ squote @ CHR 0x5C # CHR 0x27 # (shell_quote b @ rest)"
      by (simp add: shell_quote_def shell_quote_body_no_quote shell_quote_char_def)
    then show ?thesis
      using sh_word_quoted [OF s(2)] 1 s(1) by (simp add: sh_word_escaped_quote)
  qed
qed

section \<open>The documents line by line\<close>

definition user_data_lines :: "SeedConfig \<Rightarrow> string list" where
  "user_data_lines c =
     [''#cloud-config'', ''ssh_authorized_keys:'', ''  - '' @ seed_ssh_pubkey c,
      ''disable_root: false'', ''runcmd:'']
     @ map volume_cmd (seed_volumes c) @ map host_cmd (seed_extra_hosts c)
     @ (case seed_process c of None \<Rightarrow> [] | Some p \<Rightarrow> map env_cmd (proc_env p) @ [process_cmd p])
     @ (case seed_healthcheck c of None \<Rightarrow> [] | Some hc \<Rightarrow> [healthcheck_cmd hc])
     @ [ready_cmd]"

definition env_single_line :: "SeedConfig \<Rightarrow> bool" where
  "env_single_line c \<longleftrightarrow>
     (case seed_process c of None \<Rightarrow> True
      | Some p \<Rightarrow> list_all (\<lambda>(k, v). CHR 0x0A \<notin> set v) (proc_env p))"

lemma traverse_unlines:
  assumes "traverse f xs = Ok ys" "\<And>x y. f x = Ok y \<Longrightarrow> y = g x @ newline \<and> P x"
  shows "concat ys = unlines (map g xs) \<and> list_all P xs"
proof -
  have "list_all2 (\<lambda>x y. f x = Ok y) xs ys" using assms(1) by (simp add: ok_iff)
  then show ?thesis by (induction) (auto dest: assms(2))
qed

lemma newline_shell_quote [simp]: "CHR 0x0A \<in> set (shell_quote s) \<longleftrightarrow> CHR 0x0A \<in> set s"
  by (auto simp: shell_quote_def shell_quote_char_def)

lemma last_shell_quote [simp]: "shell_quote s \<noteq> []" "last (shell_quote s) = CHR 0x27"
  by (simp_all add: shell_quote_def)

lemma newline_nat_to_str [simp]: "CHR 0x0A \<notin> set (nat_to_str n)"
proof -
  have "CHR 0x0A \<noteq> digit_char d" if "d < 10" for d
  proof
    assume "CHR 0x0A = digit_char d"
    then have "code (CHR 0x0A) = code (digit_char d)" by simp
    then show False using that by (simp add: digit_char_def)
  qed
  then have "CHR 0x0A \<notin> set (nat_to_str_base 10 n)"
    by (induction "10::nat" n rule: nat_to_str_base.induct) (subst nat_to_str_base.simps, auto)
  then show ?thesis by (simp add: nat_to_str_def)
qed

text \<open>The validators keep line feeds out.\<close>

lemma safe_no_newline:
  "is_safe_hostname s \<Longrightarrow> CHR 0x0A \<notin> set s" "is_safe_ip s \<Longrightarrow> CHR 0x0A \<notin> set s"
  "is_safe_mount_tag s \<Longrightarrow> CHR 0x0A \<notin> set s" "is_safe_env_name s \<Longrightarrow> CHR 0x0A \<notin> set s"
  "is_safe_iface_name s \<Longrightarrow> CHR 0x0A \<notin> set s"
  unfolding is_safe_hostname_def is_safe_ip_def is_safe_mount_tag_def is_safe_env_name_def
    is_safe_iface_name_def list_all_iff
  by (fastforce simp: is_ascii_alphanumeric_def is_ascii_alphabetic_def is_ascii_digit_def
      is_ascii_hexdigit_def)+

lemma volume_line_ok: "volume_line v = Ok y \<Longrightarrow> y = volume_cmd v @ newline \<and> line_ok (volume_cmd v)"
  by (auto simp: volume_line_def volume_cmd_def line_ok_def safe_no_newline is_safe_mount_point_def
      split: if_splits)

lemma host_line_ok: "host_line e = Ok y \<Longrightarrow> y = host_cmd e @ newline \<and> line_ok (host_cmd e)"
  by (auto simp: host_line_def host_cmd_def line_ok_def safe_no_newline split: if_splits prod.splits)

lemma env_line_ok:
  "env_line e = Ok y \<Longrightarrow> y = env_cmd e @ newline \<and> (CHR 0x0A \<notin> set (snd e) \<longrightarrow> line_ok (env_cmd e))"
  by (auto simp: env_line_def env_cmd_def line_ok_def safe_no_newline split: if_splits prod.splits)

lemma process_lines_ok:
  assumes "process_lines p = Ok t" "case p of None \<Rightarrow> True | Some q \<Rightarrow> list_all (\<lambda>(k, v). CHR 0x0A \<notin> set v) (proc_env q)"
  defines "ls \<equiv> case p of None \<Rightarrow> [] | Some q \<Rightarrow> map env_cmd (proc_env q) @ [process_cmd q]"
  shows "t = unlines ls \<and> list_all line_ok ls"
proof (cases p)
  case (Some q)
  then obtain env where env: "traverse env_line (proc_env q) = Ok env"
    using assms(1) by (auto simp: process_lines_def and_then_def split: if_splits result.splits)
  have e: "concat env = unlines (map env_cmd (proc_env q))
      \<and> list_all (\<lambda>e. CHR 0x0A \<notin> set (snd e) \<longrightarrow> line_ok (env_cmd e)) (proc_env q)"
    using env by (rule traverse_unlines) (rule env_line_ok)
  have "list_all line_ok (map env_cmd (proc_env q))"
    using e assms(2) Some by (auto simp: list_all_iff)
  moreover have "line_ok (process_cmd q)"
    using assms(1) Some env
    by (auto simp: process_lines_def process_cmd_def line_ok_def is_safe_shell_fragment_def
        is_safe_mount_point_def split: if_splits option.splits)
  moreover have "t = concat env @ process_cmd q @ newline"
    using assms(1) Some env by (auto simp: process_lines_def split: if_splits option.splits)
  ultimately show ?thesis using e Some by (simp add: ls_def)
qed (use assms in \<open>simp_all add: process_lines_def\<close>)

lemma healthcheck_lines_ok:
  assumes "healthcheck_lines h = Ok t"
  defines "ls \<equiv> case h of None \<Rightarrow> [] | Some hc \<Rightarrow> [healthcheck_cmd hc]"
  shows "t = unlines ls \<and> list_all line_ok ls"
  using assms
  by (cases h) (auto simp: healthcheck_lines_def healthcheck_cmd_def line_ok_def
      is_safe_shell_fragment_def split: if_splits)

lemma build_user_data_OkE:
  assumes "build_user_data c = Ok ud"
  obtains vs hs pr he where "validate_ssh_pubkey (seed_ssh_pubkey c) = Ok ()"
    "traverse volume_line (seed_volumes c) = Ok vs" "traverse host_line (seed_extra_hosts c) = Ok hs"
    "process_lines (seed_process c) = Ok pr" "healthcheck_lines (seed_healthcheck c) = Ok he"
    "ud = unlines [''#cloud-config'', ''ssh_authorized_keys:'', ''  - '' @ seed_ssh_pubkey c,
        ''disable_root: false'', ''runcmd:''] @ concat vs @ concat hs @ pr @ he @ unlines [ready_cmd]"
  using assms by (auto simp: build_user_data_def ok_iff)

text \<open>C10: the user data has exactly the intended entries.  When \<open>build_user_data\<close> accepts a
  configuration whose environment values are single lines, the lines of the document are the
  header, the key and one \<open>runcmd\<close> entry per volume, host, variable, process and health check,
  in that order, and the readiness entry last: no value adds, splits or swallows a line.\<close>

theorem user_data_exact:
  assumes "build_user_data c = Ok ud" and "env_single_line c"
  shows "str_lines ud = user_data_lines c"
proof -
  obtain vs hs pr he where parts: "validate_ssh_pubkey (seed_ssh_pubkey c) = Ok ()"
      "traverse volume_line (seed_volumes c) = Ok vs" "traverse host_line (seed_extra_hosts c) = Ok hs"
      "process_lines (seed_process c) = Ok pr" "healthcheck_lines (seed_healthcheck c) = Ok he"
    and ud: "ud = unlines [''#cloud-config'', ''ssh_authorized_keys:'', ''  - '' @ seed_ssh_pubkey c,
        ''disable_root: false'', ''runcmd:''] @ concat vs @ concat hs @ pr @ he @ unlines [ready_cmd]"
    using assms(1) by (rule build_user_data_OkE)
  have key: "CHR 0x0A \<notin> set (seed_ssh_pubkey c)" "CHR 0x0D \<notin> set (seed_ssh_pubkey c)"
    using parts(1) by (auto simp: validate_ssh_pubkey_def split: if_splits)
  have "seed_ssh_pubkey c = [] \<or> last (seed_ssh_pubkey c) \<noteq> CHR 0x0D"
    using key(2) by (metis last_in_set)
  then have head: "line_ok (''  - '' @ seed_ssh_pubkey c)" "line_ok ''#cloud-config''" "line_ok ''ssh_authorized_keys:''"
      "line_ok ''disable_root: false''" "line_ok ''runcmd:''" "line_ok ready_cmd"
    using key(1) by (auto simp: line_ok_def ready_cmd_def READY_MARKER_def)
  have single: "env_single_line c = (case seed_process c of None \<Rightarrow> True
      | Some q \<Rightarrow> list_all (\<lambda>(k, v). CHR 0x0A \<notin> set v) (proc_env q))"
    by (simp add: env_single_line_def)
  have body: "concat vs = unlines (map volume_cmd (seed_volumes c))"
      "list_all (\<lambda>v. line_ok (volume_cmd v)) (seed_volumes c)"
      "concat hs = unlines (map host_cmd (seed_extra_hosts c))"
      "list_all (\<lambda>v. line_ok (host_cmd v)) (seed_extra_hosts c)"
    using traverse_unlines [OF parts(2), of volume_cmd, OF volume_line_ok]
      traverse_unlines [OF parts(3), of host_cmd, OF host_line_ok] by blast+
  note rest = process_lines_ok [OF parts(4) assms(2) [unfolded single]] healthcheck_lines_ok [OF parts(5)]
  have "ud = unlines (user_data_lines c)"
    using body rest by (simp add: ud user_data_lines_def)
  moreover have "list_all line_ok (user_data_lines c)"
    using body rest head by (simp add: user_data_lines_def list.pred_map o_def)
  ultimately show ?thesis by (simp add: str_lines_unlines)
qed

definition web_seed :: SeedConfig where
  "web_seed = \<lparr>seed_hostname = ''web'', seed_ssh_pubkey = ''ssh-ed25519 AAAA'', seed_nics = [],
     seed_process = Some \<lparr>proc_command = ''serve'', proc_workdir = Some ''/srv'',
       proc_env = [(''A'', ''1 2'')]\<rparr>,
     seed_volumes = [\<lparr>vol_tag = ''data'', vol_mount_point = ''/data'', vol_read_only = True\<rparr>],
     seed_healthcheck = None, seed_extra_hosts = [(''db'', ''10.0.0.3'')]\<rparr>"

theorem user_data_exact_witness:
  "\<exists>ud. build_user_data web_seed = Ok ud \<and> str_lines ud = user_data_lines web_seed
     \<and> length (user_data_lines web_seed) = 10"
proof -
  have "is_ok (build_user_data web_seed)" by code_simp
  then obtain ud where ud: "build_user_data web_seed = Ok ud" by (auto simp: is_ok_iff)
  moreover have "env_single_line web_seed" "length (user_data_lines web_seed) = 10" by code_simp+
  ultimately show ?thesis using user_data_exact [OF ud] by simp
qed

text \<open>C11: a quoted string is one word of the shell.  Whatever the string, the shell reads
  \<open>shell_quote s\<close>, followed by the end of the input, a blank or an operator, as the single word
  \<open>s\<close>: nothing in it is expanded and nothing ends the quotes early.\<close>

theorem shell_quote_is_one_word:
  assumes "rest = [] \<or> sh_word_end (hd rest)"
  shows "sh_word (shell_quote s @ rest) = Some (s, rest)"
  using assms by (rule sh_word_shell_quote)

theorem shell_quote_is_one_word_witness:
  "sh_word (shell_quote (''it'' @ squote @ ''s; rm $HOME'') @ '' && true'')
   = Some (''it'' @ squote @ ''s; rm $HOME'', '' && true'')"
  by (rule shell_quote_is_one_word) (simp add: sh_word_end_def)

text \<open>A line feed in an environment value is not caught.  If an accepted configuration has
  a variable whose value continues on a second line, that second line is a line of the
  document of its own, outside the quotes as far as YAML is concerned: a value can add
  \<open>runcmd\<close> entries.\<close>

theorem env_newline_injects:
  assumes "build_user_data c = Ok ud" "seed_process c = Some p"
    and "(k, a @ newline @ b) \<in> set (proc_env p)" "CHR 0x0A \<notin> set b" "CHR 0x27 \<notin> set b"
  shows "b @ squote \<in> set (str_lines ud)"
proof -
  have "\<exists>pre pr post. process_lines (seed_process c) = Ok pr \<and> ud = pre @ pr @ post"
    using assms(1)
  proof (rule build_user_data_OkE)
    fix vs hs pr he
    assume "process_lines (seed_process c) = Ok pr" and
      "ud = unlines [''#cloud-config'', ''ssh_authorized_keys:'', ''  - '' @ seed_ssh_pubkey c,
        ''disable_root: false'', ''runcmd:''] @ concat vs @ concat hs @ pr @ he @ unlines [ready_cmd]"
      (is "_ = ?head @ _")
    then have "process_lines (seed_process c) = Ok pr
        \<and> ud = (?head @ concat vs @ concat hs) @ pr @ he @ unlines [ready_cmd]" by simp
    then show ?thesis by blast
  qed
  then obtain pre pr post where pr: "process_lines (Some p) = Ok pr" and ud: "ud = pre @ pr @ post"
    using assms(2) by auto
  then obtain env where env: "traverse env_line (proc_env p) = Ok env"
    by (auto simp: process_lines_def and_then_def split: if_splits result.splits)
  have "concat env = unlines (map env_cmd (proc_env p)) \<and> list_all (\<lambda>_. True) (proc_env p)"
    using env by (rule traverse_unlines) (auto dest: env_line_ok)
  then obtain rest where pr': "pr = unlines (map env_cmd (proc_env p)) @ rest"
    using pr env by (auto simp: process_lines_def split: if_splits option.splits)
  obtain xs ys where env_split: "proc_env p = xs @ (k, a @ newline @ b) # ys"
    using assms(3) by (metis split_list)
  let ?before = "pre @ unlines (map env_cmd xs) @ ''  - export '' @ k @ ''='' @ squote
    @ concat (map shell_quote_char a)"
  have "ud = ?before @ newline @ (b @ squote) @ newline @ unlines (map env_cmd ys) @ rest @ post"
    using assms(5) by (simp add: ud pr' env_split env_cmd_def shell_quote_def
        shell_quote_body_no_quote shell_quote_char_def)
  moreover have "line_ok (b @ squote)" using assms(4) by (simp add: line_ok_def)
  ultimately show ?thesis using str_lines_between by metis
qed

definition evil_seed :: SeedConfig where
  "evil_seed = web_seed\<lparr>seed_process := Some \<lparr>proc_command = ''serve'', proc_workdir = None,
     proc_env = [(''A'', ''x'' @ newline @ ''  - touch /pwned #'')]\<rparr>\<rparr>"

theorem env_newline_injects_witness:
  "\<exists>ud. build_user_data evil_seed = Ok ud
     \<and> ''  - touch /pwned #'' @ squote \<in> set (str_lines ud)"
proof -
  have "is_ok (build_user_data evil_seed)" by code_simp
  then obtain ud where ud: "build_user_data evil_seed = Ok ud" by (auto simp: is_ok_iff)
  then show ?thesis
    using env_newline_injects [of evil_seed ud _ "''A''" "''x''" "''  - touch /pwned #''"]
    by (simp add: evil_seed_def)
qed

lemma shell_quote_char_id: "CHR 0x27 \<notin> set a \<Longrightarrow> concat (map shell_quote_char a) = a"
  by (induction a) (auto simp: shell_quote_char_def)

text \<open>In a YAML plain scalar a hash sign after a blank starts a comment.\<close>

fun yaml_uncomment :: "string \<Rightarrow> string" where
  "yaml_uncomment [] = []"
| "yaml_uncomment (c # s) = (if c = CHR '' '' \<and> starts_with ''#'' s then [] else c # yaml_uncomment s)"

lemma yaml_uncomment_cut: "CHR ''#'' \<notin> set a \<Longrightarrow> yaml_uncomment (a @ '' #'' @ b) = a"
proof (induction a)
  case (Cons c a)
  then show ?case by (cases a) (auto simp: starts_with_def)
qed (simp add: starts_with_def)

text \<open>A command with a comment sign is cut off inside its quotes.  The entries of \<open>runcmd\<close> are plain scalars, and
  a hash sign after a blank is allowed in a command: YAML takes it for the start of a comment, and
  what is left for the shell has an open quote.\<close>

theorem hash_cuts_command:
  assumes "proc_command p = a @ '' #'' @ b" "proc_workdir p = None" "CHR ''#'' \<notin> set a" "CHR 0x27 \<notin> set a"
  shows "yaml_uncomment (process_cmd p) = ''  - sh -lc '' @ squote @ a \<and> sh_word (squote @ a) = None"
proof -
  have "shell_quote (a @ '' #'' @ b) = squote @ a @ '' #'' @ concat (map shell_quote_char b) @ squote"
    using assms(4) shell_quote_char_id [of a] by (simp add: shell_quote_def shell_quote_char_def)
  then have "yaml_uncomment (process_cmd p) = yaml_uncomment ((''  - sh -lc '' @ squote @ a) @ '' #'' @ concat (map shell_quote_char b) @ squote)"
    using assms(1,2) by (simp add: process_cmd_def)
  moreover have "CHR ''#'' \<notin> set (''  - sh -lc '' @ squote @ a)" using assms(3) by simp
  ultimately show ?thesis
    using yaml_uncomment_cut [of "''  - sh -lc '' @ squote @ a"] assms(4)
    by (simp only:) (simp add: sh_word.simps sh_word_end_def split_once_None)
qed

section \<open>The temporary directory\<close>

text \<open>What the ISO tools may do: write the image, and nothing else.\<close>

definition writes_only :: "path \<Rightarrow> exec \<Rightarrow> bool" where
  "writes_only img exec \<longleftrightarrow> (\<forall>cmd w. let w' = snd (exec cmd w) in
     fs_dirs w' = fs_dirs w \<and> fs_fault w' = fs_fault w
     \<and> (\<forall>q. q \<noteq> img \<longrightarrow> fs_files w' q = fs_files w q))"

text \<open>Nothing but the files below \<open>d\<close> and the image changes, and no directory.\<close>

definition within :: "path \<Rightarrow> path \<Rightarrow> fs \<Rightarrow> fs \<Rightarrow> bool" where
  "within img d w w' \<longleftrightarrow> fs_dirs w' = fs_dirs w \<and> fs_fault w' = fs_fault w
     \<and> (\<forall>q. q \<noteq> img \<and> \<not> strict_prefix d q \<longrightarrow> fs_files w' q = fs_files w q)"

lemma within_trans: "within img d w w' \<Longrightarrow> within img d w' w'' \<Longrightarrow> within img d w w''"
  by (simp add: within_def)

lemma within_refl [simp]: "within img d w w"
  by (simp add: within_def)

lemma within_exec: "writes_only img exec \<Longrightarrow> within img d w (snd (exec cmd w))"
  by (simp add: writes_only_def within_def Let_def)

lemma within_write: "d \<noteq> [] \<Longrightarrow> within img d w (snd (fs_write (path_join d [Normal n]) b w))"
  by (auto simp: within_def fs_write_def strict_prefix_def split: option.splits)

lemma within_iso:
  assumes "writes_only img exec"
  shows "within img d w (snd (create_iso_image os exec img d w))"
proof (cases os)
  case Linux
  define args where "args = [''-output'', display_path img, ''-volid'', ''cidata'', ''-joliet'',
    ''-rock'', display_path d]"
  obtain r1 w1 where 1: "exec \<lparr>cmd_program = ''genisoimage'', cmd_args = args\<rparr> w = (r1, w1)" by fastforce
  obtain r2 w2 where 2: "exec \<lparr>cmd_program = ''mkisofs'', cmd_args = args\<rparr> w1 = (r2, w2)" by fastforce
  have "within img d w w1" "within img d w1 w2"
    using within_exec [OF assms, of d] 1 2 by (metis snd_conv)+
  moreover have "snd (create_iso_image os exec img d w) \<in> {w1, w2}"
    using Linux 1 2 by (cases r2) (simp_all add: create_iso_image_def args_def [symmetric])
  ultimately show ?thesis using within_trans by fastforce
next
  case MacOs
  then show ?thesis
    using within_exec [OF assms, of d w] unfolding create_iso_image_def
    by (simp split: prod.splits result.splits) (metis snd_conv)
next
  case Windows
  then show ?thesis by (simp add: create_iso_image_def)
qed

lemma within_contents:
  assumes "writes_only img exec" "d \<noteq> []"
  shows "within img d w (snd (seed_contents os exec img d c w))"
proof -
  note wr = within_write [OF assms(2), of img] and fin = within_iso [OF assms(1), of d _ os]
  have step: "within img d w (snd (case fs_write (path_join d [Normal n]) b w of
      (Err e, w1) \<Rightarrow> (Err (SetupIo e), w1) | (Ok _, w1) \<Rightarrow> f w1))"
    if "\<And>w. within img d w (snd (f w))" for n b w and f :: "fs \<Rightarrow> (unit, SetupError) result \<times> fs"
    using wr [of w n b] that by (auto split: prod.splits result.splits intro: within_trans)
  show ?thesis
    unfolding seed_contents_def Let_def
    by (intro step) (auto split: result.split intro!: step fin)
qed

lemma slash_nat_to_str [simp]: "CHR ''/'' \<notin> set (nat_to_str n)"
proof -
  have "CHR ''/'' \<noteq> digit_char d" if "d < 10" for d
  proof
    assume "CHR ''/'' = digit_char d"
    then have "code (CHR ''/'') = code (digit_char d)" by simp
    then show False using that by (simp add: digit_char_def)
  qed
  then have "CHR ''/'' \<notin> set (nat_to_str_base 10 n)"
    by (induction "10::nat" n rule: nat_to_str_base.induct) (subst nat_to_str_base.simps, auto)
  then show ?thesis by (simp add: nat_to_str_def)
qed

lemma path_of_single:
  assumes "CHR ''/'' \<notin> set n" "n \<noteq> []" "n \<noteq> ''.''" "n \<noteq> ''..''"
  shows "path_of n = [Normal n]"
proof -
  have "\<not> starts_with ''/'' n" using assms(1,2) by (cases n) (auto simp: starts_with_iff)
  then show ?thesis using assms by (simp add: path_of_def str_split_no_sep)
qed

text \<open>The hostname, once validated, cannot move the directory elsewhere.\<close>

lemma seed_tmp_dir_child:
  assumes "is_safe_hostname h" "parent \<noteq> []"
  shows "\<exists>n. seed_tmp_dir parent h stamp = parent @ [Normal n] \<and> prefix ''.seed-'' n"
proof -
  obtain pid nanos counter where st: "stamp = (pid, nanos, counter)" by (metis prod_cases3)
  let ?n = "''.seed-'' @ h @ ''-'' @ nat_to_str pid @ ''-'' @ nat_to_str nanos @ ''-'' @ nat_to_str counter"
  have "CHR ''/'' \<notin> set h"
    using assms(1) unfolding is_safe_hostname_def list_all_iff
    by (fastforce simp: is_ascii_alphanumeric_def is_ascii_alphabetic_def is_ascii_digit_def)
  then have "path_of ?n = [Normal ?n]" by (intro path_of_single) simp_all
  then show ?thesis using assms(2) by (simp add: seed_tmp_dir_def st)
qed

text \<open>Making a seed touches only its own temporary directory and the image.  If the ISO tool
  writes nothing but the image, then on every outcome every other file is as before; once the
  temporary directory has been created, and unless its removal fails, no file of it is left,
  also after an error half-way; and an unsafe hostname is rejected before anything is created.\<close>

theorem create_seed_iso_frame:
  assumes "writes_only img exec" "create_seed_iso os exec stamp img c w = (r, w')"
    and "img = parent @ [Normal n]" "parent \<noteq> []" "\<not> prefix ''.seed-'' n"
  defines "tmp \<equiv> seed_tmp_dir parent (seed_hostname c) stamp"
  shows "(\<not> is_safe_hostname (seed_hostname c) \<longrightarrow> \<not> is_ok r \<and> w' = w)
    \<and> (\<forall>q. q \<noteq> img \<and> \<not> prefix tmp q \<longrightarrow> fs_files w' q = fs_files w q)
    \<and> (is_safe_hostname (seed_hostname c) \<and> is_ok (fst (fs_create_dir_all tmp w))
        \<and> fs_fault w FsRemoveDir tmp = None
       \<longrightarrow> (\<forall>q. prefix tmp q \<longrightarrow> fs_files w' q = None))"
proof (cases "is_safe_hostname (seed_hostname c)")
  case False
  then show ?thesis using assms(2) by (auto simp: create_seed_iso_def)
next
  case safe: True
  obtain t where t: "tmp = parent @ [Normal t]" "prefix ''.seed-'' t"
    using seed_tmp_dir_child [OF safe assms(4)] unfolding tmp_def by blast
  then have tmp: "tmp \<noteq> []" "tmp \<noteq> img" using assms(3,5) by auto
  have par: "path_parent img = Some parent" using assms(3,4) by simp
  obtain r1 w1 where cd: "fs_create_dir_all tmp w = (r1, w1)" by fastforce
  then have w1: "fs_files w1 = fs_files w" "fs_fault w1 = fs_fault w"
    using fs_create_dir_all_files [of tmp w]
    by (auto simp: fs_create_dir_all_def split: option.splits if_splits)
  show ?thesis
  proof (cases r1)
    case (Err e)
    then show ?thesis
      using assms(2) safe par cd w1 by (auto simp: create_seed_iso_def tmp_def Let_def)
  next
    case (Ok u)
    then have dir: "tmp \<in> fs_dirs w1" and nofile: "fs_files w tmp = None"
      using cd by (auto simp: fs_create_dir_all_def split: option.splits if_splits)
    obtain r2 w2 where sc: "seed_contents os exec img tmp c w1 = (r2, w2)" by fastforce
    have w': "w' = snd (fs_remove_dir_all tmp w2)"
      using assms(2) safe par cd Ok sc by (auto simp: create_seed_iso_def tmp_def Let_def)
    have in2: "within img tmp w1 w2" using within_contents [OF assms(1) tmp(1), of w1 os c] sc by simp
    have out: "fs_files w' q = fs_files w q" if "q \<noteq> img" "\<not> prefix tmp q" for q
      using in2 that w1 by (auto simp: w' within_def fs_remove_dir_all_def split: option.splits)
    have "fs_files w2 tmp = None"
      using in2 nofile tmp(2) w1 by (simp add: within_def)
    then have "fs_files w' q = None" if "fs_fault w FsRemoveDir tmp = None" "prefix tmp q" for q
      using in2 that w1 dir by (auto simp: w' within_def fs_remove_dir_all_def fs_is_dir_def split: option.splits)
    then show ?thesis using out safe by blast
  qed
qed

definition mkiso :: "path \<Rightarrow> exec" where
  "mkiso img cmd w =
     (Ok \<lparr>out_success = True, out_status = ''exit status: 0'', out_stdout = [], out_stderr = []\<rparr>,
      w\<lparr>fs_files := (fs_files w)(img \<mapsto> [1])\<rparr>)"

theorem create_seed_iso_frame_witness:
  "let img = [Normal ''d'', Normal ''s.iso'']; w = quiet_fs\<lparr>fs_files := [[Normal ''k''] \<mapsto> [7]]\<rparr>;
       w' = snd (create_seed_iso Linux (mkiso img) (1, 2, 3) img web_seed w)
   in is_ok (fst (create_seed_iso Linux (mkiso img) (1, 2, 3) img web_seed w))
      \<and> fs_files w' [Normal ''k''] = Some [7]
      \<and> (\<forall>q. prefix (seed_tmp_dir [Normal ''d''] ''web'' (1, 2, 3)) q \<longrightarrow> fs_files w' q = None)"
proof -
  let ?img = "[Normal ''d'', Normal ''s.iso'']"
  let ?w = "quiet_fs\<lparr>fs_files := [[Normal ''k''] \<mapsto> [7]]\<rparr>"
  let ?t = "seed_tmp_dir [Normal ''d''] (seed_hostname web_seed) (1, 2, 3)"
  obtain r w' where run: "create_seed_iso Linux (mkiso ?img) (1, 2, 3) ?img web_seed ?w = (r, w')"
    by fastforce
  have only: "writes_only ?img (mkiso ?img)" by (simp add: writes_only_def mkiso_def)
  have host: "is_safe_hostname (seed_hostname web_seed)" "seed_hostname web_seed = ''web''"
    by code_simp+
  have ok: "is_ok (fst (create_seed_iso Linux (mkiso ?img) (1, 2, 3) ?img web_seed ?w))"
    by code_simp
  have dir: "is_ok (fst (fs_create_dir_all ?t ?w))" "\<not> prefix ?t [Normal ''k'']" by code_simp+
  have "fs_fault ?w FsRemoveDir ?t = None" by (simp add: quiet_fs_def)
  then show ?thesis
    using create_seed_iso_frame [OF only run, of "[Normal ''d'']" "''s.iso''"] run ok dir host by simp
qed

end
