(* ===== verification/Disk.thy ===== *)
theory Disk
  imports Config
begin

text \<open>
  \<open>src/vm/disk.rs\<close>: cloning a base image for a VM.  The copy is made by the external \<open>cp\<close>, which
  shares blocks where the file system can, with \<open>std::fs::copy\<close> as the fallback.
\<close>

definition cp_cmd :: "target_os \<Rightarrow> path \<Rightarrow> path \<Rightarrow> Command" where
  "cp_cmd os base target = \<lparr>cmd_program = ''cp'',
     cmd_args = [(if os = MacOs then ''-c'' else ''--reflink=auto''), display_path base, display_path target]\<rparr>"

text \<open>The copy proper, once the target's directory is there.\<close>

definition copy_disk ::
  "target_os \<Rightarrow> exec \<Rightarrow> path \<Rightarrow> path \<Rightarrow> fs \<Rightarrow> (unit, VmError) result \<times> fs" where
  "copy_disk os exec base target w =
     (if os = Windows then map_prod (map_err Io) id (fs_copy base target w)
      else (case exec (cp_cmd os base target) w of
              (Err e, w) \<Rightarrow> (Err (Io e), w)
            | (Ok out, w) \<Rightarrow>
              if \<not> out_success out then map_prod (map_err Io) id (fs_copy base target w)
              else (Ok (), w)))"

text \<open>Making the directory and copying.\<close>

definition make_clone ::
  "target_os \<Rightarrow> exec \<Rightarrow> path \<Rightarrow> path \<Rightarrow> fs \<Rightarrow> (unit, VmError) result \<times> fs" where
  "make_clone os exec base target w =
     (case path_parent target of None \<Rightarrow> copy_disk os exec base target w
      | Some parent \<Rightarrow>
        (case fs_create_dir_all parent w of
           (Err e, w) \<Rightarrow> (Err (Io e), w)
         | (Ok _, w) \<Rightarrow> copy_disk os exec base target w))"

definition clone_disk ::
  "target_os \<Rightarrow> exec \<Rightarrow> path \<Rightarrow> path \<Rightarrow> fs \<Rightarrow> (unit, VmError) result \<times> fs" where
  "clone_disk os exec base target w =
     (if \<not> fs_exists w target then make_clone os exec base target w
      else (case (fs_len base w, fs_len target w) of
        (Ok base_len, Ok target_len) \<Rightarrow>
          if base_len = target_len then (Ok (), w)
          else (case fs_remove_file target w of
                  (Err e, w) \<Rightarrow> (Err (Io e), w)
                | (Ok _, w) \<Rightarrow> make_clone os exec base target w)
      | _ \<Rightarrow> make_clone os exec base target w))"

section \<open>What the copy relies on\<close>

text \<open>\<open>cp\<close>, with a target that is not a directory: it changes no file but the target, and when it succeeds
  the target holds what the source holds.\<close>

definition cp_copies :: "exec \<Rightarrow> target_os \<Rightarrow> path \<Rightarrow> path \<Rightarrow> bool" where
  "cp_copies exec os base target \<longleftrightarrow>
     (\<forall>w r w'. exec (cp_cmd os base target) w = (r, w') \<and> \<not> fs_is_dir w target \<longrightarrow>
        (\<forall>p. p \<noteq> target \<longrightarrow> fs_files w' p = fs_files w p)
        \<and> (\<forall>out. r = Ok out \<and> out_success out \<longrightarrow> fs_files w' target = fs_files w base))"

lemma fs_copy_other: "fs_copy p q w = (r, w') \<Longrightarrow> x \<noteq> q \<Longrightarrow> fs_files w' x = fs_files w x"
  by (auto simp: fs_copy_def split: option.splits result.splits dest: fs_write_other)

lemma fs_copy_ok: "fs_copy p q w = (Ok u, w') \<Longrightarrow> fs_files w' q = fs_files w p \<and> fs_files w p \<noteq> None"
  by (auto simp: fs_copy_def fs_read_def ok_or_def split: option.splits result.splits dest!: fs_write_ok)

lemma copy_disk_other:
  assumes "copy_disk os exec base target w = (r, w')" "cp_copies exec os base target" "p \<noteq> target"
    and "\<not> fs_is_dir w target"
  shows "fs_files w' p = fs_files w p"
proof -
  have copy: "fs_files w2 p = fs_files w1 p" if "map_prod (map_err Io) id (fs_copy base target w1) = (r', w2)" for w1 w2 r'
    using that fs_copy_other [of base target w1] assms(3) by (cases "fs_copy base target w1") auto
  obtain x w1 where x: "exec (cp_cmd os base target) w = (x, w1)" by force
  then have "fs_files w1 p = fs_files w p" using assms(2-4) unfolding cp_copies_def by blast
  then show ?thesis
    using assms(1) x copy by (cases x) (auto simp: copy_disk_def split: if_splits)
qed

lemma copy_disk_ok:
  assumes "copy_disk os exec base target w = (Ok u, w')" "cp_copies exec os base target" "base \<noteq> target"
    and "\<not> fs_is_dir w target"
  shows "fs_files w' target = fs_files w base"
proof (cases "os = Windows")
  case True
  then show ?thesis
    using assms(1) fs_copy_ok [of base target w] by (cases "fs_copy base target w") (auto simp: copy_disk_def)
next
  case False
  obtain r w1 where x: "exec (cp_cmd os base target) w = (r, w1)" by force
  have keep: "fs_files w1 base = fs_files w base" using assms(2-4) x unfolding cp_copies_def by blast
  show ?thesis
  proof (cases "\<exists>out. r = Ok out \<and> out_success out")
    case True
    then show ?thesis
      using False assms(1,2,4) x unfolding cp_copies_def copy_disk_def by auto
  next
    case fail: False
    then have "map_prod (map_err Io) id (fs_copy base target w1) = (Ok u, w')"
      using False assms(1) x by (cases r) (auto simp: copy_disk_def)
    then show ?thesis
      using keep fs_copy_ok [of base target w1] by (cases "fs_copy base target w1") auto
  qed
qed

lemma make_clone_cases:
  assumes "make_clone os exec base target w = (r, w')"
  obtains (dir) e where "r = Err e" "fs_files w' = fs_files w"
  | (copied) w1 where "fs_files w1 = fs_files w" "fs_is_dir w1 target \<longleftrightarrow> fs_is_dir w target"
      "copy_disk os exec base target w1 = (r, w')"
proof (cases "path_parent target")
  case (Some parent)
  obtain x w1 where x: "fs_create_dir_all parent w = (x, w1)" by force
  then have "fs_files w1 = fs_files w" using fs_create_dir_all_files [of parent w] by simp
  moreover have "target \<noteq> []" "parent = butlast target" using Some by (auto simp: path_parent_def split: if_splits)
  then have "\<not> prefix target parent" using prefix_length_le [of target "butlast target"] by (cases target) auto
  then have "fs_is_dir w1 target \<longleftrightarrow> fs_is_dir w target"
    using x by (auto simp: fs_is_dir_def fs_create_dir_all_def split: option.splits if_splits)
  ultimately show thesis using assms Some x dir copied by (cases x) (auto simp: make_clone_def)
qed (use assms copied in \<open>auto simp: make_clone_def\<close>)

text \<open>C36: a clone is the size of its base.  When \<open>clone_disk\<close> returns \<open>Ok\<close> for an existing base image and
  a target that is not a directory, the target exists with the base's size and every other file
  is as before; a target that was missing or of another size now holds exactly the base image.  A
  target of the same size is left alone, whatever it holds.  For a directory as target, \<open>Ok\<close> means
  that the size reported for it happens to be the base's, and nothing has been done.  The target's
  path is not empty and not that of a file and a directory at once.\<close>

theorem clone_disk_outcome:
  assumes "clone_disk os exec base target w = (Ok (), w')" "cp_copies exec os base target"
    and "base \<noteq> target" "fs_files w base = Some b" "fs_fault w FsMetadata = (\<lambda>_. None)" "target \<noteq> []"
    and "fs_is_dir w target \<Longrightarrow> fs_files w target = None"
  shows "if fs_is_dir w target then w' = w \<and> fs_dir_len w target = length b
    else (\<exists>b'. fs_files w' target = Some b' \<and> length b' = length b)
    \<and> (\<forall>p. p \<noteq> target \<longrightarrow> fs_files w' p = fs_files w p)
    \<and> (case fs_files w target of
         None \<Rightarrow> fs_files w' target = Some b
       | Some t \<Rightarrow> fs_files w' target = Some (if length t = length b then t else b))"
proof -
  have len: "fs_len base w = Ok (length b)" using assms(4,5) by (simp add: fs_len_def)
  show ?thesis
  proof (cases "fs_is_dir w target")
    case True
    then show ?thesis
      using assms(1,5-7) len
      by (auto simp: clone_disk_def fs_exists_def fs_len_def fs_remove_file_def split: if_splits option.splits)
  next
    case nd: False
    have clone: "fs_files w2 target = Some b \<and> (\<forall>p. p \<noteq> target \<longrightarrow> fs_files w2 p = fs_files w p)"
      if "make_clone os exec base target w1 = (Ok (), w2)" "\<And>p. p \<noteq> target \<Longrightarrow> fs_files w1 p = fs_files w p"
        "\<not> fs_is_dir w1 target" for w1 w2
      using that(1)
    proof (cases rule: make_clone_cases)
      case (copied w3)
      then show ?thesis
        using copy_disk_ok [OF copied(3) assms(2,3)] copy_disk_other [OF copied(3) assms(2)] assms(3,4) that(2,3)
        by auto
    qed simp
    show ?thesis
    proof (cases "fs_files w target")
      case None
      then have "make_clone os exec base target w = (Ok (), w')"
        using assms(1) len nd by (auto simp: clone_disk_def fs_exists_def split: if_splits)
      then show ?thesis using clone None nd by auto
    next
      case (Some t)
      then have ex: "fs_exists w target" "fs_len target w = Ok (length t)"
        using assms(5) by (simp_all add: fs_exists_def fs_len_def)
      show ?thesis
      proof (cases "length b = length t")
        case True
        then show ?thesis using assms(1) Some ex len nd by (auto simp: clone_disk_def)
      next
        case False
        then obtain w1 where "fs_remove_file target w = (Ok (), w1)" "make_clone os exec base target w1 = (Ok (), w')"
          using assms(1) ex len by (auto simp: clone_disk_def split: prod.splits result.splits)
        moreover from this(1) have "fs_files w1 p = fs_files w p" if "p \<noteq> target" for p
          using that by (auto simp: fs_remove_file_def split: option.splits)
        moreover have "\<not> fs_is_dir w1 target"
          using nd \<open>fs_remove_file target w = (Ok (), w1)\<close> Some
          by (auto simp: fs_remove_file_def fs_is_dir_def split: option.splits)
        ultimately show ?thesis using clone Some False nd by auto
      qed
    qed
  qed
qed

text \<open>A \<open>cp\<close> that copies, and a machine with one base image.\<close>

definition plain_cp :: exec where
  "plain_cp cmd w = (Ok \<lparr>out_success = True, out_status = ''exit status: 0'', out_stdout = [], out_stderr = []\<rparr>,
     w\<lparr>fs_files := (fs_files w)([RootDir, Normal ''vm'', Normal ''d''] := fs_files w [RootDir, Normal ''base''])\<rparr>)"

definition base_fs :: fs where
  "base_fs = quiet_fs\<lparr>fs_files := [[RootDir, Normal ''base''] \<mapsto> [1, 2, 3]]\<rparr>"

theorem clone_disk_outcome_witness:
  "\<exists>w'. clone_disk Linux plain_cp [RootDir, Normal ''base''] [RootDir, Normal ''vm'', Normal ''d''] base_fs = (Ok (), w')
     \<and> fs_files w' [RootDir, Normal ''vm'', Normal ''d''] = Some [1, 2, 3]"
proof -
  let ?b = "[RootDir, Normal ''base'']" and ?t = "[RootDir, Normal ''vm'', Normal ''d'']"
  have "\<exists>w'. clone_disk Linux plain_cp ?b ?t base_fs = (Ok (), w')"
    by (simp add: clone_disk_def fs_exists_def fs_is_dir_def base_fs_def quiet_fs_def make_clone_def
        path_parent_def fs_create_dir_all_def copy_disk_def plain_cp_def)
  then obtain w' where c: "clone_disk Linux plain_cp ?b ?t base_fs = (Ok (), w')" by blast
  have "cp_copies plain_cp Linux ?b ?t" by (auto simp: cp_copies_def plain_cp_def)
  then show ?thesis
    using clone_disk_outcome [OF c, of "[1, 2, 3]"] c by (auto simp: base_fs_def quiet_fs_def fs_is_dir_def)
qed

end
