(* ===== verification/Bridge.thy ===== *)
theory Bridge
  imports Config
begin

text \<open>
  \<open>src/network/bridge.rs\<close>: Linux bridges and TAP devices, set up by running \<open>ip\<close> and \<open>iptables\<close>.  The
  programs and the kernel are an oracle: the call of number \<open>i\<close> is answered by a field of
  \<open>net_tools\<close>, and \<open>nc_log\<close> records every command run and every file written.
\<close>

datatype net_call = Run Command | WriteFile path bytes

record net_tools =
  nt_run :: "nat \<Rightarrow> Command \<Rightarrow> (Output, io_error) result"
  nt_write :: "nat \<Rightarrow> path \<Rightarrow> bytes \<Rightarrow> (unit, io_error) result"

record net_config =
  nc_tools :: net_tools
  nc_log :: "net_call list"

type_synonym 'a configuring = "net_config \<Rightarrow> ('a, VmError) result \<times> net_config"

definition run_command :: "Command \<Rightarrow> net_config \<Rightarrow> (Output, io_error) result \<times> net_config" where
  "run_command cmd w = (nt_run (nc_tools w) (length (nc_log w)) cmd, w\<lparr>nc_log := nc_log w @ [Run cmd]\<rparr>)"

definition ip_cmd :: "string list \<Rightarrow> Command" where
  "ip_cmd args = \<lparr>cmd_program = ''ip'', cmd_args = args\<rparr>"

definition validate_interface_name :: "string \<Rightarrow> (unit, VmError) result" where
  "validate_interface_name name =
     (if name = [] \<or> 15 < length name
      then Err (InvalidConfig (''interface name must be 1-15 characters, got '' @ nat_to_str (length name) @ '' characters''))
      else if \<not> list_all (\<lambda>c. is_ascii_alphanumeric c \<or> c = CHR ''-'' \<or> c = CHR ''_'') name
      then Err (InvalidConfig (''interface name '' @ squote @ name @ squote
             @ '' contains invalid characters (only alphanumeric, hyphen, underscore allowed)''))
      else Ok ())"

definition run_ip :: "string list \<Rightarrow> unit configuring" where
  "run_ip args w =
     (case run_command (ip_cmd args) w of
        (Err e, w) \<Rightarrow> (Err (Hypervisor (''failed to run ip '' @ str_join '' '' args @ '': '' @ io_text e)), w)
      | (Ok output, w) \<Rightarrow>
        if \<not> out_success output
        then (let stderr = from_utf8_lossy (out_stderr output) in
              if str_contains ''File exists'' stderr then (Ok (), w)
              else (Err (Hypervisor (''ip '' @ str_join '' '' args @ '' failed: '' @ str_trim stderr)), w))
        else (Ok (), w))"

definition link_exists :: "string \<Rightarrow> net_config \<Rightarrow> bool \<times> net_config" where
  "link_exists name w =
     (case run_command (ip_cmd [''link'', ''show'', ''dev'', name]) w of
        (Ok s, w) \<Rightarrow> (out_success s, w)
      | (Err e, w) \<Rightarrow> (False, w))"

text \<open>The check for the link, and its creation.\<close>

definition ensure_link :: "string \<Rightarrow> unit configuring" where
  "ensure_link name w = (case link_exists name w of
     (True, w) \<Rightarrow> (Ok (), w) | (False, w) \<Rightarrow> run_ip [''link'', ''add'', name, ''type'', ''bridge''] w)"

definition nat_rule :: "string \<Rightarrow> string \<Rightarrow> string \<Rightarrow> Command" where
  "nat_rule flag bridge subnet = \<lparr>cmd_program = ''iptables'',
     cmd_args = [''-t'', ''nat'', flag, ''POSTROUTING'', ''-s'', subnet, ''!'', ''-o'', bridge, ''-j'', ''MASQUERADE'']\<rparr>"

definition setup_nat :: "string \<Rightarrow> string \<Rightarrow> unit configuring" where
  "setup_nat bridge subnet w =
     (case run_command (nat_rule ''-C'' bridge subnet) w of
        (check, w) \<Rightarrow>
          if (case check of Ok s \<Rightarrow> out_success s | Err _ \<Rightarrow> False) then (Ok (), w)
          else (case run_command (nat_rule ''-A'' bridge subnet) w of
                  (Err e, w) \<Rightarrow> (Err (Hypervisor (''failed to add iptables NAT rule: '' @ io_text e)), w)
                | (Ok status, w) \<Rightarrow>
                  if \<not> out_success status
                  then (Err (Hypervisor (''iptables MASQUERADE rule failed (exit '' @ out_status status
                         @ ''). Are you running as root?'')), w)
                  else (Ok (), w)))"

text \<open>The gateway's address with the prefix length of the subnet.\<close>

definition gateway_cidr :: "string \<Rightarrow> string \<Rightarrow> string" where
  "gateway_cidr gateway_ip subnet_cidr = gateway_ip @ ''/'' @ last (str_split (CHR ''/'') subnet_cidr)"

definition assign_address :: "string \<Rightarrow> string \<Rightarrow> unit configuring" where
  "assign_address name cidr w =
     (case run_command (ip_cmd [''addr'', ''show'', ''dev'', name]) w of
        (Err e, w) \<Rightarrow> (Err (Hypervisor (''failed to check bridge address: '' @ io_text e)), w)
      | (Ok addr_output, w) \<Rightarrow>
        if str_contains cidr (from_utf8_lossy (out_stdout addr_output)) then (Ok (), w)
        else run_ip [''addr'', ''add'', cidr, ''dev'', name] w)"

definition ip_forward_file :: path where
  "ip_forward_file = path_of ''/proc/sys/net/ipv4/ip_forward''"

definition enable_forwarding :: "string \<Rightarrow> unit configuring" where
  "enable_forwarding name w =
     (map_err (\<lambda>e. Hypervisor (''failed to enable IPv4 forwarding for bridge '' @ squote @ name @ squote @ '': '' @ io_text e))
        (nt_write (nc_tools w) (length (nc_log w)) ip_forward_file (as_bytes ''1'')),
      w\<lparr>nc_log := nc_log w @ [WriteFile ip_forward_file (as_bytes ''1'')]\<rparr>)"

definition ensure_bridge :: "string \<Rightarrow> string \<Rightarrow> string \<Rightarrow> unit configuring" where
  "ensure_bridge name gateway_ip subnet_cidr =
     st_then (\<lambda>w. (validate_interface_name name, w)) (\<lambda>_.
     st_then (ensure_link name) (\<lambda>_.
     st_then (run_ip [''link'', ''set'', name, ''up'']) (\<lambda>_.
     st_then (assign_address name (gateway_cidr gateway_ip subnet_cidr)) (\<lambda>_.
     st_then (enable_forwarding name) (\<lambda>_.
     setup_nat name subnet_cidr)))))"

definition create_tap :: "string \<Rightarrow> unit configuring" where
  "create_tap name =
     st_then (\<lambda>w. (validate_interface_name name, w)) (\<lambda>_.
     st_then (run_ip [''tuntap'', ''add'', ''dev'', name, ''mode'', ''tap'']) (\<lambda>_.
     run_ip [''link'', ''set'', name, ''up'']))"

definition add_to_bridge :: "string \<Rightarrow> string \<Rightarrow> unit configuring" where
  "add_to_bridge tap bridge =
     st_then (\<lambda>w. (validate_interface_name tap, w)) (\<lambda>_.
     st_then (\<lambda>w. (validate_interface_name bridge, w)) (\<lambda>_.
     run_ip [''link'', ''set'', tap, ''master'', bridge]))"

text \<open>Deletion is best effort: nothing is returned.\<close>

definition delete_tap :: "string \<Rightarrow> net_config \<Rightarrow> net_config" where
  "delete_tap name w = snd (run_command (ip_cmd [''tuntap'', ''del'', ''dev'', name, ''mode'', ''tap'']) w)"

definition delete_bridge :: "string \<Rightarrow> net_config \<Rightarrow> net_config" where
  "delete_bridge name w =
     snd (run_command (ip_cmd [''link'', ''del'', name, ''type'', ''bridge''])
       (snd (run_command (ip_cmd [''link'', ''set'', name, ''down'']) w)))"

section \<open>What was run\<close>

text \<open>A command was run and answered in a way.\<close>

definition answered :: "net_config \<Rightarrow> Command \<Rightarrow> (Output \<Rightarrow> bool) \<Rightarrow> bool" where
  "answered w cmd P \<longleftrightarrow> (\<exists>i out. i < length (nc_log w) \<and> nc_log w ! i = Run cmd \<and> nt_run (nc_tools w) i cmd = Ok out \<and> P out)"

definition wrote :: "net_config \<Rightarrow> path \<Rightarrow> bytes \<Rightarrow> bool" where
  "wrote w p b \<longleftrightarrow> (\<exists>i. i < length (nc_log w) \<and> nc_log w ! i = WriteFile p b \<and> nt_write (nc_tools w) i p b = Ok ())"

text \<open>What counts as done: success, or a complaint that it is done already.\<close>

definition ip_done :: "Output \<Rightarrow> bool" where
  "ip_done out \<longleftrightarrow> out_success out \<or> str_contains ''File exists'' (from_utf8_lossy (out_stderr out))"

definition nc_extends :: "net_config \<Rightarrow> net_config \<Rightarrow> bool" where
  "nc_extends w w' \<longleftrightarrow> nc_tools w' = nc_tools w \<and> prefix (nc_log w) (nc_log w')"

lemma nc_extends_refl [simp]: "nc_extends w w"
  by (simp add: nc_extends_def)

lemma nc_extends_trans: "nc_extends w w1 \<Longrightarrow> nc_extends w1 w2 \<Longrightarrow> nc_extends w w2"
  unfolding nc_extends_def by auto

lemma ran_mono: "nc_extends w w' \<Longrightarrow> answered w cmd P \<Longrightarrow> answered w' cmd P"
  unfolding nc_extends_def answered_def prefix_def by (metis length_append nth_append trans_less_add1)

lemma wrote_mono: "nc_extends w w' \<Longrightarrow> wrote w p b \<Longrightarrow> wrote w' p b"
  unfolding nc_extends_def wrote_def prefix_def by (metis length_append nth_append trans_less_add1)

lemma run_command_ran:
  assumes "run_command cmd w = (r, w')"
  shows "nc_extends w w'" "r = Ok out \<Longrightarrow> P out \<Longrightarrow> answered w' cmd P"
  using assms by (auto simp: run_command_def nc_extends_def answered_def nth_append intro!: exI [of _ "length (nc_log w)"])

lemma run_ip_ran:
  assumes "run_ip args w = (r, w')"
  shows "nc_extends w w'" "r = Ok () \<Longrightarrow> answered w' (ip_cmd args) ip_done"
proof -
  obtain ro w1 where ro: "run_command (ip_cmd args) w = (ro, w1)" by force
  have "w' = w1" using assms ro by (cases ro) (auto simp: run_ip_def Let_def split: if_splits)
  then show "nc_extends w w'" using run_command_ran(1) [OF ro] by simp
  show "answered w' (ip_cmd args) ip_done" if "r = Ok ()"
    using assms ro that run_command_ran(2) [OF ro, of _ ip_done] \<open>w' = w1\<close>
    by (cases ro) (auto simp: run_ip_def Let_def ip_done_def split: if_splits)
qed

lemma assign_address_ran:
  assumes "assign_address name cidr w = (r, w')"
  shows "nc_extends w w'"
    "r = Ok () \<Longrightarrow> answered w' (ip_cmd [''addr'', ''show'', ''dev'', name]) (\<lambda>out. str_contains cidr (from_utf8_lossy (out_stdout out)))
       \<or> answered w' (ip_cmd [''addr'', ''add'', cidr, ''dev'', name]) ip_done"
proof -
  obtain ro w1 where ro: "run_command (ip_cmd [''addr'', ''show'', ''dev'', name]) w = (ro, w1)" by force
  note one = run_command_ran [OF ro]
  have rest: "w' = w1 \<or> run_ip [''addr'', ''add'', cidr, ''dev'', name] w1 = (r, w')"
    using assms ro by (cases ro) (auto simp: assign_address_def split: if_splits)
  then show "nc_extends w w'" using one(1) run_ip_ran(1) nc_extends_trans by blast
  show "answered w' (ip_cmd [''addr'', ''show'', ''dev'', name]) (\<lambda>out. str_contains cidr (from_utf8_lossy (out_stdout out)))
       \<or> answered w' (ip_cmd [''addr'', ''add'', cidr, ''dev'', name]) ip_done" if "r = Ok ()"
    using assms ro that one(2) run_ip_ran(2)
    by (cases ro) (auto simp: assign_address_def split: if_splits)
qed

lemma setup_nat_ran:
  assumes "setup_nat bridge subnet w = (r, w')"
  shows "nc_extends w w'" "r = Ok () \<Longrightarrow> answered w' (nat_rule ''-C'' bridge subnet) out_success \<or> answered w' (nat_rule ''-A'' bridge subnet) out_success"
proof -
  obtain rc w1 where rc: "run_command (nat_rule ''-C'' bridge subnet) w = (rc, w1)" by force
  obtain ra w2 where ra: "run_command (nat_rule ''-A'' bridge subnet) w1 = (ra, w2)" by force
  note c = run_command_ran [OF rc] and a = run_command_ran [OF ra]
  have w': "w' = w1 \<or> w' = w2"
    using assms rc ra by (auto simp: setup_nat_def split: if_splits result.splits)
  then show "nc_extends w w'" using c(1) a(1) nc_extends_trans by blast
  show "answered w' (nat_rule ''-C'' bridge subnet) out_success \<or> answered w' (nat_rule ''-A'' bridge subnet) out_success" if "r = Ok ()"
    using assms rc ra that c(2) a(2) by (auto simp: setup_nat_def split: if_splits result.splits)
qed

lemma enable_forwarding_wrote:
  assumes "enable_forwarding name w = (r, w')"
  shows "nc_extends w w'" "r = Ok () \<Longrightarrow> wrote w' ip_forward_file (as_bytes ''1'')"
  using assms by (auto simp: enable_forwarding_def nc_extends_def wrote_def nth_append intro!: exI [of _ "length (nc_log w)"])

lemma ensure_link_ran:
  assumes "ensure_link name w = (r, w')"
  shows "nc_extends w w'" "r = Ok () \<Longrightarrow> answered w' (ip_cmd [''link'', ''show'', ''dev'', name]) out_success
       \<or> answered w' (ip_cmd [''link'', ''add'', name, ''type'', ''bridge'']) ip_done"
proof -
  obtain rl w1 where rl: "run_command (ip_cmd [''link'', ''show'', ''dev'', name]) w = (rl, w1)" by force
  note one = run_command_ran [OF rl]
  have "w' = w1 \<or> run_ip [''link'', ''add'', name, ''type'', ''bridge''] w1 = (r, w')"
    using assms rl by (auto simp: ensure_link_def link_exists_def split: result.splits bool.splits)
  then show "nc_extends w w'" using one(1) run_ip_ran(1) nc_extends_trans by blast
  show "answered w' (ip_cmd [''link'', ''show'', ''dev'', name]) out_success
       \<or> answered w' (ip_cmd [''link'', ''add'', name, ''type'', ''bridge'']) ip_done" if "r = Ok ()"
    using assms rl that one(2) run_ip_ran(2) by (auto simp: ensure_link_def link_exists_def split: result.splits bool.splits)
qed

lemma invalid_name_runs_nothing:
  assumes "validate_interface_name n = Err e"
  shows "ensure_bridge n gw subnet w = (Err e, w)" "create_tap n w = (Err e, w)" "add_to_bridge n b w = (Err e, w)"
  using assms by (simp_all add: ensure_bridge_def create_tap_def add_to_bridge_def st_then_def)

text \<open>C21: a bridge that is reported ready has been set up.  When \<open>ensure_bridge\<close> succeeds, the name was
  valid and each of its steps was answered: the link was there or was added, it was brought up,
  \<open>ip addr\<close> mentioned the gateway's address or the address was added, forwarding was switched on, and
  the masquerading rule for the subnet was there or was appended.  (An \<open>ip\<close> command that fails because
  what it asks for exists counts as done.)  With an invalid name, nothing is run at all.\<close>

theorem ensure_bridge_outcome:
  assumes "ensure_bridge name gateway_ip subnet_cidr w = (r, w')" "nc_log w = []"
  shows "(nc_log w' \<noteq> [] \<longrightarrow> validate_interface_name name = Ok ()) \<and>
    (r = Ok () \<longrightarrow>
       (answered w' (ip_cmd [''link'', ''show'', ''dev'', name]) out_success
        \<or> answered w' (ip_cmd [''link'', ''add'', name, ''type'', ''bridge'']) ip_done)
     \<and> answered w' (ip_cmd [''link'', ''set'', name, ''up'']) ip_done
     \<and> (answered w' (ip_cmd [''addr'', ''show'', ''dev'', name])
          (\<lambda>out. str_contains (gateway_cidr gateway_ip subnet_cidr) (from_utf8_lossy (out_stdout out)))
        \<or> answered w' (ip_cmd [''addr'', ''add'', gateway_cidr gateway_ip subnet_cidr, ''dev'', name]) ip_done)
     \<and> wrote w' ip_forward_file (as_bytes ''1'')
     \<and> (answered w' (nat_rule ''-C'' name subnet_cidr) out_success \<or> answered w' (nat_rule ''-A'' name subnet_cidr) out_success))"
proof (cases "validate_interface_name name")
  case (Err e)
  then have "r = Err e" "w' = w" using assms(1) invalid_name_runs_nothing(1) by simp_all
  then show ?thesis using assms(2) by simp
next
  case (Ok u)
  then have valid': "validate_interface_name name = Ok ()" by simp
  show ?thesis
  proof (cases "r = Ok ()")
    case True
    then obtain w1 w2 w3 w4 where l: "ensure_link name w = (Ok (), w1)"
      and up: "run_ip [''link'', ''set'', name, ''up''] w1 = (Ok (), w2)"
      and a: "assign_address name (gateway_cidr gateway_ip subnet_cidr) w2 = (Ok (), w3)"
      and f: "enable_forwarding name w3 = (Ok (), w4)" and n: "setup_nat name subnet_cidr w4 = (Ok (), w')"
      using assms(1) by (auto simp: ensure_bridge_def st_then_Ok_iff)
    note e4 = setup_nat_ran(1) [OF n]
    note e3 = nc_extends_trans [OF enable_forwarding_wrote(1) [OF f] e4]
    note e2 = nc_extends_trans [OF assign_address_ran(1) [OF a] e3]
    note e1 = nc_extends_trans [OF run_ip_ran(1) [OF up] e2]
    show ?thesis
      using ran_mono [OF e1] ran_mono [OF e2] ran_mono [OF e3] wrote_mono [OF e4] setup_nat_ran(2) [OF n refl]
        ensure_link_ran(2) [OF l refl] run_ip_ran(2) [OF up refl] assign_address_ran(2) [OF a refl]
        enable_forwarding_wrote(2) [OF f refl] valid' by blast
  qed (simp add: valid')
qed

definition quiet_tools :: net_config where
  "quiet_tools = \<lparr>nc_tools = \<lparr>nt_run = (\<lambda>_ _. Ok \<lparr>out_success = True, out_status = ''exit status: 0'', out_stdout = [], out_stderr = []\<rparr>),
     nt_write = (\<lambda>_ _ _. Ok ())\<rparr>, nc_log = []\<rparr>"

theorem ensure_bridge_outcome_witness:
  "\<exists>w. ensure_bridge ''br0'' ''10.0.0.1'' ''10.0.0.0/24'' quiet_tools = (Ok (), w)
     \<and> answered w (ip_cmd [''link'', ''set'', ''br0'', ''up'']) ip_done \<and> wrote w ip_forward_file (as_bytes ''1'')"
proof -
  have "fst (ensure_bridge ''br0'' ''10.0.0.1'' ''10.0.0.0/24'' quiet_tools) = Ok ()" by code_simp
  then obtain w where e: "ensure_bridge ''br0'' ''10.0.0.1'' ''10.0.0.0/24'' quiet_tools = (Ok (), w)" by (metis prod.collapse)
  have "nc_log quiet_tools = []" by (simp add: quiet_tools_def)
  from ensure_bridge_outcome [OF e this] e show ?thesis by blast
qed

end
