(* ===== verification/Sock_Addr.thy ===== *)
theory Sock_Addr
  imports Rust_Str
begin

text \<open>
  \<open>SocketAddr\<close> and its \<open>FromStr\<close> as the standard library has them: a parser that reads an IPv4
  address and a port, or an IPv6 address in brackets with an optional scope and a port, and
  must reach the end of the text.  The port forwarder formats an address and a port with a
  colon between them and parses the result; the last part shows what that gives.
\<close>

section \<open>The parser\<close>

datatype SocketAddr = V4 "u8 list" u16 | V6 "u16 list" u16 u32

text \<open>A reader returns what it has read and the rest of the text; \<open>None\<close> leaves the text as it
  was (\<open>read_atomically\<close>).\<close>

type_synonym 'a reader = "string \<Rightarrow> ('a \<times> string) option"

definition read_then :: "'a reader \<Rightarrow> ('a \<Rightarrow> 'b reader) \<Rightarrow> 'b reader" where
  "read_then p f s = (case p s of None \<Rightarrow> None | Some (x, r) \<Rightarrow> f x r)"

definition read_done :: "'a \<Rightarrow> 'a reader" where
  "read_done x s = Some (x, s)"

definition read_given_char :: "char \<Rightarrow> unit reader" where
  "read_given_char c s = (case s of [] \<Rightarrow> None | d # r \<Rightarrow> if d = c then Some ((), r) else None)"

definition to_digit :: "nat \<Rightarrow> char \<Rightarrow> nat option" where
  "to_digit radix c =
     (let d = (if is_ascii_digit c then code c - 48
               else if is_ascii_alphabetic c then code (to_ascii_lowercase_char c) - 87
               else radix)
      in if d < radix then Some d else None)"

definition is_digit_of :: "nat \<Rightarrow> char \<Rightarrow> bool" where
  "is_digit_of radix c \<longleftrightarrow> to_digit radix c \<noteq> None"

definition digits_value :: "nat \<Rightarrow> string \<Rightarrow> nat" where
  "digits_value radix ds = foldl (\<lambda>n c. n * radix + the (to_digit radix c)) 0 ds"

text \<open>\<open>read_number\<close>: the longest run of digits, if it has at least one and at most \<open>max_digits\<close>
  of them, no forbidden leading zero, and its value fits the type.\<close>

definition read_number :: "nat \<Rightarrow> nat option \<Rightarrow> bool \<Rightarrow> 'a::len word reader" where
  "read_number radix max_digits allow_zero_prefix s =
     (let ds = takeWhile (is_digit_of radix) s; n = digits_value radix ds in
      if ds = [] \<or> (case max_digits of None \<Rightarrow> False | Some m \<Rightarrow> m < length ds)
         \<or> (\<not> allow_zero_prefix \<and> hd ds = CHR ''0'' \<and> 1 < length ds) \<or> 2 ^ LENGTH('a) \<le> n
      then None
      else Some (word_of_nat n, dropWhile (is_digit_of radix) s))"

text \<open>\<open>read_separator\<close>: the separator comes before every item but the first.\<close>

definition read_separator :: "char \<Rightarrow> bool \<Rightarrow> 'a reader \<Rightarrow> 'a reader" where
  "read_separator sep first inner =
     (if first then inner else read_then (read_given_char sep) (\<lambda>_. inner))"

fun read_octets :: "nat \<Rightarrow> bool \<Rightarrow> u8 list reader" where
  "read_octets 0 first = read_done []"
| "read_octets (Suc n) first =
     read_then (read_separator (CHR ''.'') first (read_number 10 (Some 3) False)) (\<lambda>x.
     read_then (read_octets n False) (\<lambda>xs. read_done (x # xs)))"

definition read_ipv4_addr :: "u8 list reader" where
  "read_ipv4_addr = read_octets 4 True"

definition u16_from_be_bytes :: "u8 \<Rightarrow> u8 \<Rightarrow> u16" where
  "u16_from_be_bytes a b = push_bit 8 (ucast a) OR ucast b"

definition octet_groups :: "u8 list \<Rightarrow> u16 list" where
  "octet_groups v4 = [u16_from_be_bytes (v4 ! 0) (v4 ! 1), u16_from_be_bytes (v4 ! 2) (v4 ! 3)]"

text \<open>\<open>read_groups\<close> for \<open>n\<close> slots: the groups read, whether the last two came from an embedded
  IPv4 address (which needs two free slots), and the rest.\<close>

fun read_groups :: "nat \<Rightarrow> bool \<Rightarrow> string \<Rightarrow> u16 list \<times> bool \<times> string" where
  "read_groups 0 first s = ([], False, s)"
| "read_groups (Suc n) first s =
     (case (if 1 \<le> n then read_separator (CHR '':'') first read_ipv4_addr s else None) of
        Some (v4, r) \<Rightarrow> (octet_groups v4, True, r)
      | None \<Rightarrow>
        (case read_separator (CHR '':'') first (read_number 16 (Some 4) True) s of
           None \<Rightarrow> ([], False, s)
         | Some (g, r) \<Rightarrow> (let (gs, v4, r') = read_groups n False r in (g # gs, v4, r'))))"

text \<open>What follows the groups before the double colon.\<close>

definition read_ipv6_tail :: "u16 list \<Rightarrow> u16 list reader" where
  "read_ipv6_tail head =
     read_then (read_given_char (CHR '':'')) (\<lambda>_. read_then (read_given_char (CHR '':'')) (\<lambda>_ s.
       (let (tail, _, r) = read_groups (8 - (length head + 1)) True s
        in Some (head @ replicate (8 - length head - length tail) 0 @ tail, r))))"

definition read_ipv6_addr :: "u16 list reader" where
  "read_ipv6_addr s =
     (let (head, head_ipv4, r) = read_groups 8 True s in
      if length head = 8 then Some (head, r)
      else if head_ipv4 then None
      else read_ipv6_tail head r)"

definition read_port :: "u16 reader" where
  "read_port = read_then (read_given_char (CHR '':'')) (\<lambda>_. read_number 10 None True)"

definition read_scope_id :: "u32 reader" where
  "read_scope_id s =
     (case read_then (read_given_char (CHR ''%'')) (\<lambda>_. read_number 10 None True) s of
        None \<Rightarrow> Some (0, s) | Some x \<Rightarrow> Some x)"

definition read_socket_addr_v4 :: "SocketAddr reader" where
  "read_socket_addr_v4 = read_then read_ipv4_addr (\<lambda>ip. read_then read_port (\<lambda>p. read_done (V4 ip p)))"

definition read_socket_addr_v6 :: "SocketAddr reader" where
  "read_socket_addr_v6 =
     read_then (read_given_char (CHR ''['')) (\<lambda>_. read_then read_ipv6_addr (\<lambda>ip.
     read_then read_scope_id (\<lambda>scope. read_then (read_given_char (CHR '']'')) (\<lambda>_.
     read_then read_port (\<lambda>p. read_done (V6 ip p scope))))))"

definition read_socket_addr :: "SocketAddr reader" where
  "read_socket_addr s = (case read_socket_addr_v4 s of Some x \<Rightarrow> Some x | None \<Rightarrow> read_socket_addr_v6 s)"

definition complete :: "('a \<times> string) option \<Rightarrow> 'a option" where
  "complete x = (case x of Some (a, []) \<Rightarrow> Some a | _ \<Rightarrow> None)"

definition parse_socket_addr :: "string \<Rightarrow> (SocketAddr, string) result" where
  "parse_socket_addr s = ok_or ''invalid socket address syntax'' (complete (read_socket_addr s))"

text \<open>The address in front of the port on its own: a dotted quad, or an IPv6 address with its scope
  in brackets.\<close>

definition parse_host_v6 :: "string \<Rightarrow> (u16 list \<times> u32) option" where
  "parse_host_v6 s = complete (read_then (read_given_char (CHR ''['')) (\<lambda>_.
     read_then read_ipv6_addr (\<lambda>ip. read_then read_scope_id (\<lambda>scope.
     read_then (read_given_char (CHR '']'')) (\<lambda>_. read_done (ip, scope))))) s)"

definition host_with_port :: "string \<Rightarrow> u16 \<Rightarrow> SocketAddr option" where
  "host_with_port s p =
     (case complete (read_ipv4_addr s) of Some ip \<Rightarrow> Some (V4 ip p)
      | None \<Rightarrow> map_option (\<lambda>(ip, scope). V6 ip p scope) (parse_host_v6 s))"

section \<open>Reading up to a character that is not part of the address\<close>

lemma read_done_apply [simp]: "read_done x s = Some (x, s)"
  by (simp add: read_done_def)

lemma read_given_char_simps [simp]:
  "read_given_char c [] = None"
  "read_given_char c (d # r) = (if d = c then Some ((), r) else None)"
  by (simp_all add: read_given_char_def)

lemma complete_Some_iff: "complete x = Some a \<longleftrightarrow> x = Some (a, [])"
  by (auto simp: complete_def split: option.splits list.splits)

text \<open>A reader \<open>stops\<close> at a character when it reads a text the same way whether or not the
  character and more text follow.\<close>

definition stops :: "char \<Rightarrow> 'a reader \<Rightarrow> bool" where
  "stops c p \<longleftrightarrow> (\<forall>s t. p (s @ c # t) = map_option (apsnd (\<lambda>r. r @ c # t)) (p s))"

lemma stopsD: "stops c p \<Longrightarrow> p (s @ c # t) = map_option (apsnd (\<lambda>r. r @ c # t)) (p s)"
  by (simp add: stops_def)

lemma stops_done [intro!]: "stops c (read_done x)"
  by (simp add: stops_def)

lemma stops_given_char [intro]: "d \<noteq> c \<Longrightarrow> stops c (read_given_char d)"
  by (auto simp: stops_def read_given_char_def split: list.split)

lemma stops_then [intro!]: "stops c p \<Longrightarrow> (\<And>x. stops c (f x)) \<Longrightarrow> stops c (read_then p f)"
  by (auto simp: stops_def read_then_def split: option.split)

lemma stops_separator [intro]: "sep \<noteq> c \<Longrightarrow> stops c p \<Longrightarrow> stops c (read_separator sep first p)"
  by (auto simp: read_separator_def)

lemma takeWhile_stop: "\<not> P c \<Longrightarrow> takeWhile P (s @ c # t) = takeWhile P s"
  "\<not> P c \<Longrightarrow> dropWhile P (s @ c # t) = dropWhile P s @ c # t"
  by (induction s) auto

lemma stops_number [intro]: "\<not> is_digit_of radix c \<Longrightarrow> stops c (read_number radix m z)"
  by (simp add: stops_def read_number_def takeWhile_stop Let_def)

lemma punctuation_no_digit [simp]:
  "\<not> is_digit_of radix (CHR '':'')" "\<not> is_digit_of radix (CHR '']'')"
  "\<not> is_digit_of radix (CHR ''.'')"
  by (simp_all add: is_digit_of_def to_digit_def is_ascii_digit_def is_ascii_alphabetic_def)

lemma stops_octets: "\<not> is_digit_of 10 c \<Longrightarrow> c \<noteq> CHR ''.'' \<Longrightarrow> stops c (read_octets n first)"
  by (induction n arbitrary: first) auto

lemma stops_ipv4 [intro]: "stops (CHR '':'') read_ipv4_addr" "stops (CHR '']'') read_ipv4_addr"
  by (simp_all add: read_ipv4_addr_def stops_octets)

lemma read_groups_stop:
  "read_groups n first (s @ CHR '']'' # t)
     = (case read_groups n first s of (gs, v4, r) \<Rightarrow> (gs, v4, r @ CHR '']'' # t))"
proof (induction n arbitrary: first s)
  case (Suc n)
  have "stops (CHR '']'') (read_separator (CHR '':'') first read_ipv4_addr)"
    "stops (CHR '']'') (read_separator (CHR '':'') first (read_number 16 (Some 4) True :: u16 reader))"
    by (intro stops_separator; auto)+
  note st = this [THEN stopsD]
  show ?case
    by (simp add: st Suc split: option.split prod.split)
qed simp

lemma stops_ipv6: "stops (CHR '']'') read_ipv6_addr"
proof -
  have "stops (CHR '']'') (read_ipv6_tail head)" for head
    unfolding read_ipv6_tail_def
    by (intro stops_then stops_given_char) (auto simp: stops_def read_groups_stop split: prod.split)
  then show ?thesis
    by (auto simp: stops_def read_ipv6_addr_def read_groups_stop split: prod.split)
qed

lemma stops_scope: "stops (CHR '']'') read_scope_id"
proof -
  have "stops (CHR '']'') (read_then (read_given_char (CHR ''%'')) (\<lambda>_. read_number 10 None True :: u32 reader))"
    by auto
  then show ?thesis by (auto simp: stops_def read_scope_id_def split: option.split)
qed

section \<open>Decimal numbers\<close>

lemma to_digit_digit_char [simp]: "d < 10 \<Longrightarrow> to_digit 10 (digit_char d) = Some d" "d < 10 \<Longrightarrow> is_digit_of 10 (digit_char d)"
  by (simp_all add: is_digit_of_def to_digit_def digit_char_def is_ascii_digit_def)

lemma nat_to_str_induct [case_names less more]:
  assumes "\<And>n. n < 10 \<Longrightarrow> P n" "\<And>n. 10 \<le> n \<Longrightarrow> P (n div 10) \<Longrightarrow> P n"
  shows "P (n::nat)"
proof (induction n rule: less_induct)
  case (less n)
  show ?case using assms less by (cases "n < 10") auto
qed

lemma nat_to_str_simps:
  "n < 10 \<Longrightarrow> nat_to_str n = [digit_char n]"
  "10 \<le> n \<Longrightarrow> nat_to_str n = nat_to_str (n div 10) @ [digit_char (n mod 10)]"
  unfolding nat_to_str_def by (subst nat_to_str_base.simps, simp)+

lemma nat_to_str_digits:
  "nat_to_str n \<noteq> []" "c \<in> set (nat_to_str n) \<Longrightarrow> is_digit_of 10 c"
  by (induction n rule: nat_to_str_induct) (auto simp: nat_to_str_simps)

lemma digits_value_nat_to_str [simp]: "digits_value 10 (nat_to_str n) = n"
  by (induction n rule: nat_to_str_induct) (simp_all add: nat_to_str_simps digits_value_def)

lemma hd_nat_to_str: "0 < n \<Longrightarrow> hd (nat_to_str n) \<noteq> CHR ''0''"
proof (induction n rule: nat_to_str_induct)
  case (less n)
  then have "to_digit 10 (hd (nat_to_str n)) = Some n" by (simp add: nat_to_str_simps)
  moreover have "to_digit 10 (CHR ''0'') = Some 0" by code_simp
  ultimately show ?case using less by auto
qed (auto simp: nat_to_str_simps nat_to_str_digits)

lemma length_nat_to_str: "n < 10 ^ k \<Longrightarrow> 0 < k \<Longrightarrow> length (nat_to_str n) \<le> k"
proof (induction n arbitrary: k rule: nat_to_str_induct)
  case (more n)
  then obtain j where "k = Suc j" "0 < j" by (cases k; cases "k - 1") auto
  then show ?case using more.IH [of j] more.hyps more.prems by (simp add: nat_to_str_simps)
qed (simp add: nat_to_str_simps)

lemma takeWhile_digits [simp]:
  "takeWhile (is_digit_of 10) (nat_to_str n) = nat_to_str n"
  "dropWhile (is_digit_of 10) (nat_to_str n) = []"
  using nat_to_str_digits(2) by (simp_all add: takeWhile_eq_all_conv dropWhile_eq_Nil_conv)

lemma read_number_nat_to_str:
  fixes w :: "'a::len word"
  assumes "case m of None \<Rightarrow> True | Some k \<Rightarrow> 0 < k \<and> unat w < 10 ^ k"
  shows "read_number 10 m z (nat_to_str (unat w)) = Some (w, [])"
proof -
  have "unat w < 10 \<or> hd (nat_to_str (unat w)) \<noteq> CHR ''0''" using hd_nat_to_str by fastforce
  then have "hd (nat_to_str (unat w)) \<noteq> CHR ''0'' \<or> length (nat_to_str (unat w)) = 1"
    by (auto simp: nat_to_str_simps)
  moreover have "unat w < 2 ^ LENGTH('a)" by (rule unsigned_less)
  ultimately show ?thesis
    using assms length_nat_to_str [of "unat w"] nat_to_str_digits(1) [of "unat w"]
    by (cases m) (auto simp: read_number_def Let_def not_le leD)
qed

section \<open>An address and a port with a colon between them\<close>

lemma digit_no_punctuation: "CHR '':'' \<notin> set (nat_to_str n)" "CHR '']'' \<notin> set (nat_to_str n)"
  using nat_to_str_digits(2) [of _ n] punctuation_no_digit by blast+

lemma complete_None_iff: "complete x = None \<longleftrightarrow> (\<forall>a. x \<noteq> Some (a, []))"
  by (metis complete_Some_iff not_None_eq)

text \<open>What is left before the colon must be nothing, whatever it is.\<close>

lemma read_port_complete:
  "read_port (r @ CHR '':'' # nat_to_str (unat p)) = Some (q, []) \<longleftrightarrow> r = [] \<and> q = p"
proof (cases r)
  case Nil
  then show ?thesis
    by (auto simp: read_port_def read_then_def read_number_nat_to_str)
next
  case (Cons c r')
  have "stops (CHR '':'') (read_number 10 None True :: u16 reader)" by auto
  from stopsD [OF this, of r' "nat_to_str (unat p)"] Cons show ?thesis
    by (auto simp: read_port_def read_then_def)
qed

lemma complete_then_port:
  assumes "p (s @ CHR '':'' # nat_to_str (unat port)) = map_option (apsnd (\<lambda>r. r @ CHR '':'' # nat_to_str (unat port))) (p s)"
  shows "complete (read_then p (\<lambda>x. read_then read_port (\<lambda>q. read_done (f x q)))
           (s @ CHR '':'' # nat_to_str (unat port)))
         = map_option (\<lambda>x. f x port) (complete (p s))"
proof (cases "p s")
  case (Some xr)
  obtain x r where xr: "xr = (x, r)" by force
  show ?thesis
  proof (cases "r = []")
    case True
    then show ?thesis using Some xr assms read_port_complete [of "[]" port port]
      by (simp add: read_then_def complete_def)
  next
    case False
    then have "read_port (r @ CHR '':'' # nat_to_str (unat port)) \<noteq> Some (q, [])" for q
      by (simp add: read_port_complete)
    then show ?thesis using Some xr assms False
      by (auto simp: read_then_def complete_def split: option.splits list.splits) blast
  qed
qed (use assms in \<open>simp add: read_then_def complete_def\<close>)

text \<open>No reader makes up text.\<close>

definition within :: "'a reader \<Rightarrow> bool" where
  "within p \<longleftrightarrow> (\<forall>s x r. p s = Some (x, r) \<longrightarrow> set r \<subseteq> set s)"

lemma within_done [intro!]: "within (read_done x)"
  by (simp add: within_def)

lemma within_given_char [intro!]: "within (read_given_char c)"
  by (auto simp: within_def read_given_char_def split: list.splits if_splits)

lemma within_then [intro!]: "within p \<Longrightarrow> (\<And>x. within (f x)) \<Longrightarrow> within (read_then p f)"
  unfolding within_def read_then_def by (auto split: option.splits) blast

lemma within_number [intro!]: "within (read_number radix m z)"
  by (auto simp: within_def read_number_def Let_def dest: set_dropWhileD split: if_splits)

lemma within_separator [intro]: "within p \<Longrightarrow> within (read_separator sep first p)"
  by (auto simp: read_separator_def)

lemma within_ipv4 [intro!]: "within read_ipv4_addr"
proof -
  have "within (read_octets n first)" for n first
    by (induction n arbitrary: first) (auto intro!: within_separator)
  then show ?thesis by (simp add: read_ipv4_addr_def)
qed

lemma within_groups: "read_groups n first s = (gs, v4, r) \<Longrightarrow> set r \<subseteq> set s"
proof (induction n arbitrary: first s gs r)
  case (Suc n)
  have "within (read_separator (CHR '':'') first read_ipv4_addr)"
    "within (read_separator (CHR '':'') first (read_number 16 (Some 4) True :: u16 reader))"
    by (auto intro!: within_separator)
  then show ?case using Suc unfolding within_def
    by (fastforce split: option.splits prod.splits if_splits)
qed simp

lemma within_ipv6: "within read_ipv6_addr"
proof -
  have "within (read_ipv6_tail head)" for head
    unfolding read_ipv6_tail_def
    by (intro within_then within_given_char) (auto simp: within_def dest: within_groups split: prod.splits)
  then show ?thesis unfolding within_def read_ipv6_addr_def
    by (fastforce dest: within_groups split: prod.splits if_splits)
qed

lemma within_scope: "within read_scope_id"
proof -
  have "within (read_then (read_given_char (CHR ''%'')) (\<lambda>_. read_number 10 None True :: u32 reader))"
    by auto
  then show ?thesis by (auto simp: within_def read_scope_id_def split: option.splits)
qed

text \<open>The bracketed address: up to the closing bracket nothing depends on what follows it.\<close>

definition read_in_brackets :: "(u16 list \<times> u32) reader" where
  "read_in_brackets = read_then (read_given_char (CHR ''['')) (\<lambda>_. read_then read_ipv6_addr (\<lambda>ip.
     read_then read_scope_id (\<lambda>scope. read_done (ip, scope))))"

definition read_bracketed :: "(u16 list \<times> u32) reader" where
  "read_bracketed =
     read_then read_in_brackets (\<lambda>x. read_then (read_given_char (CHR '']'')) (\<lambda>_. read_done x))"

lemma read_then_assoc: "read_then (read_then p f) g = read_then p (\<lambda>x. read_then (f x) g)"
  by (rule ext) (simp add: read_then_def split: option.split)

lemma read_then_done [simp]: "read_then (read_done x) f = f x"
  by (rule ext) (simp add: read_then_def)

lemma read_socket_addr_v6_eq:
  "read_socket_addr_v6 = read_then read_bracketed (\<lambda>x. read_then read_port (\<lambda>p.
     read_done (V6 (fst x) p (snd x))))"
  by (simp add: read_socket_addr_v6_def read_bracketed_def read_in_brackets_def read_then_assoc)


lemma read_bracketed_stop:
  "read_bracketed (a @ CHR '']'' # c @ t) = map_option (apsnd (\<lambda>r. r @ t)) (read_bracketed (a @ CHR '']'' # c))"
proof -
  have "stops (CHR '']'') read_in_brackets"
    using stops_ipv6 stops_scope by (auto simp: read_in_brackets_def)
  note st = this [THEN stopsD]
  show ?thesis
  proof (cases "read_in_brackets a")
    case (Some xr)
    then show ?thesis
      by (cases "snd xr") (auto simp: read_bracketed_def read_then_def st split_beta)
  qed (simp add: read_bracketed_def read_then_def st)
qed

lemma read_bracketed_needs_bracket:
  assumes "CHR '']'' \<notin> set s"
  shows "read_bracketed s = None"
proof (cases "read_in_brackets s")
  case (Some xr)
  have "within read_in_brackets" using within_ipv6 within_scope by (auto simp: read_in_brackets_def)
  then have "CHR '']'' \<notin> set (snd xr)"
    using Some assms unfolding within_def by (metis prod.collapse subsetD)
  then show ?thesis
    by (cases "snd xr") (auto simp: read_bracketed_def read_then_def Some split_beta)
qed (simp add: read_bracketed_def read_then_def)

lemma parse_host_v6_eq: "parse_host_v6 s = complete (read_bracketed s)"
  by (simp add: parse_host_v6_def read_bracketed_def read_in_brackets_def read_then_assoc)

lemma read_v6_with_port:
  "complete (read_socket_addr_v6 (s @ CHR '':'' # nat_to_str (unat p)))
     = map_option (\<lambda>(ip, scope). V6 ip p scope) (parse_host_v6 s)"
proof (cases "CHR '']'' \<in> set s")
  case True
  then obtain a c where s: "s = a @ CHR '']'' # c" by (meson split_list)
  show ?thesis
    unfolding read_socket_addr_v6_eq parse_host_v6_eq
    by (subst complete_then_port) (simp_all add: s read_bracketed_stop case_prod_unfold)
next
  case False
  then have "read_bracketed (s @ CHR '':'' # nat_to_str (unat p)) = None" "read_bracketed s = None"
    using digit_no_punctuation(2) [of "unat p"] by (auto intro!: read_bracketed_needs_bracket)
  then show ?thesis
    by (simp add: read_socket_addr_v6_eq parse_host_v6_eq read_then_def complete_def)
qed

lemma read_v4_with_port:
  "complete (read_socket_addr_v4 (s @ CHR '':'' # nat_to_str (unat p)))
     = map_option (\<lambda>ip. V4 ip p) (complete (read_ipv4_addr s))"
  unfolding read_socket_addr_v4_def by (rule complete_then_port) (rule stopsD, rule stops_ipv4)

text \<open>An IPv4 address starts with a digit, an IPv6 address with a bracket.\<close>

lemma read_v4_or_v6: "read_socket_addr_v4 s = None \<or> read_socket_addr_v6 s = None"
proof (cases s)
  case (Cons c r)
  have "\<not> is_digit_of 10 (CHR ''['')" by code_simp
  then show ?thesis
    by (auto simp: Cons read_socket_addr_v4_def read_socket_addr_v6_def read_then_def
        read_ipv4_addr_def numeral_eq_Suc read_separator_def read_number_def Let_def)
qed (simp add: read_socket_addr_v6_def read_then_def)

lemma read_socket_addr_with_port:
  "complete (read_socket_addr (s @ CHR '':'' # nat_to_str (unat p))) = host_with_port s p"
proof -
  let ?t = "s @ CHR '':'' # nat_to_str (unat p)"
  show ?thesis
  proof (cases "read_socket_addr_v4 ?t")
    case None
    then show ?thesis using read_v4_with_port [of s p] read_v6_with_port [of s p]
      by (auto simp: read_socket_addr_def host_with_port_def complete_def split: option.split)
  next
    case (Some x)
    then have "read_socket_addr_v6 ?t = None" using read_v4_or_v6 [of ?t] by simp
    then show ?thesis using Some read_v4_with_port [of s p] read_v6_with_port [of s p]
      by (auto simp: read_socket_addr_def host_with_port_def split: option.split)
        (simp_all add: complete_def)
  qed
qed

lemma parse_socket_addr_with_port:
  "parse_socket_addr (s @ '':'' @ nat_to_str (unat p))
     = ok_or ''invalid socket address syntax'' (host_with_port s p)"
  by (simp add: parse_socket_addr_def read_socket_addr_with_port)

text \<open>Dotted quads.\<close>

definition ipv4_display :: "u8 list \<Rightarrow> string" where
  "ipv4_display ip = str_join ''.'' (map (\<lambda>b. nat_to_str (unat b)) ip)"

lemma str_join_Cons: "str_join sep (x # xs) = x @ concat (map (\<lambda>y. sep @ y) xs)"
  by (induction xs arbitrary: x) auto

lemma read_octet_display:
  fixes b :: u8
  assumes "r = [] \<or> hd r = CHR ''.''"
  shows "read_number 10 (Some 3) False (nat_to_str (unat b) @ r) = Some (b, r)"
proof -
  have b: "read_number 10 (Some 3) False (nat_to_str (unat b)) = Some (b, [])"
    using unsigned_less [of b, where 'a = nat] by (intro read_number_nat_to_str) simp
  have "stops (CHR ''.'') (read_number 10 (Some 3) False :: u8 reader)" by auto
  from stopsD [OF this, of "nat_to_str (unat b)" "tl r"] b assms show ?thesis
    by (cases r) auto
qed

lemma read_octets_display:
  "read_octets (length ip) False (concat (map (\<lambda>b. ''.'' @ nat_to_str (unat b)) ip)) = Some (ip, [])"
proof (induction ip)
  case (Cons b ip)
  let ?r = "concat (map (\<lambda>b. ''.'' @ nat_to_str (unat b)) ip)"
  have "?r = [] \<or> hd ?r = CHR ''.''" by (cases ip) auto
  then show ?case using Cons
    by (simp add: read_separator_def read_then_def read_octet_display)
qed simp

lemma read_ipv4_display:
  assumes "length ip = 4"
  shows "read_ipv4_addr (ipv4_display ip) = Some (ip, [])"
proof -
  obtain b bs where ip: "ip = b # bs" "length bs = 3"
    using assms by (cases ip) auto
  let ?r = "concat (map (\<lambda>b. ''.'' @ nat_to_str (unat b)) bs)"
  have "?r = [] \<or> hd ?r = CHR ''.''" by (cases bs) auto
  then have "read_octets (Suc (length bs)) True (nat_to_str (unat b) @ ?r) = Some (ip, [])"
    using read_octets_display [of bs]
    by (simp add: read_separator_def read_then_def read_octet_display ip(1))
  then show ?thesis
    using ip by (simp add: read_ipv4_addr_def ipv4_display_def str_join_Cons comp_def numeral_eq_Suc)
qed

lemma host_with_port_display: "length ip = 4 \<Longrightarrow> host_with_port (ipv4_display ip) p = Some (V4 ip p)"
  by (simp add: host_with_port_def read_ipv4_display complete_def)

end
