(* ===== verification/Port_Forward.thy ===== *)
theory Port_Forward
  imports Host Sock_Addr
begin

text \<open>
  \<open>src/network/port_forward.rs\<close>: a TCP port of the host forwarded to a port of a VM.
  \<open>start_on\<close> parses both addresses, binds a listener and spawns the accept loop; \<open>stop\<close> leaves a
  permit for the loop and aborts its task; every accepted connection is proxied by a task of
  its own.  The runtime keeps the tasks by number.  What the sockets answer (\<open>bind\<close>, \<open>accept\<close>,
  \<open>connect\<close>, \<open>copy_bidirectional\<close>) is an argument; how the tasks are scheduled is a step relation.
\<close>

section \<open>Forwarders and their tasks\<close>

datatype PortForwardError =
    InvalidBindAddress string
  | InvalidTarget string
  | BindFailed SocketAddr string

record PortForwarder =
  pf_handle :: nat
  pf_bind_addr :: SocketAddr
  pf_host_port :: u16
  pf_target :: SocketAddr

text \<open>The task of an accept loop: its listener (open while the task runs), the target it was
  given, the permit of \<open>Notify\<close> and the abort request.\<close>

record accept_task =
  at_listen :: SocketAddr
  at_target :: SocketAddr
  at_running :: bool
  at_permit :: bool
  at_abort :: bool

text \<open>The task of one connection: the loop that accepted it, the address it connects to, and how
  far it is.\<close>

datatype proxy_phase = Connecting | Relaying | Finished

record proxy_task =
  px_from :: nat
  px_client :: nat
  px_target :: SocketAddr
  px_phase :: proxy_phase

record runtime =
  rt_loops :: "accept_task list"
  rt_proxies :: "proxy_task list"

definition start_on ::
  "(runtime \<Rightarrow> SocketAddr \<Rightarrow> (unit, io_error) result) \<Rightarrow> string \<Rightarrow> u16 \<Rightarrow> string \<Rightarrow> u16 \<Rightarrow> runtime
     \<Rightarrow> (PortForwarder, PortForwardError) result \<times> runtime" where
  "start_on os_bind bind_ip host_port target_ip target_port rt =
     (case parse_socket_addr (bind_ip @ '':'' @ nat_to_str (unat host_port)) of
        Err e \<Rightarrow> (Err (InvalidBindAddress e), rt)
      | Ok bind_addr \<Rightarrow>
        (case parse_socket_addr (target_ip @ '':'' @ nat_to_str (unat target_port)) of
           Err e \<Rightarrow> (Err (InvalidTarget e), rt)
         | Ok target \<Rightarrow>
           (case os_bind rt bind_addr of
              Err e \<Rightarrow> (Err (BindFailed bind_addr (io_text e)), rt)
            | Ok _ \<Rightarrow>
              (Ok \<lparr>pf_handle = length (rt_loops rt), pf_bind_addr = bind_addr,
                   pf_host_port = host_port, pf_target = target\<rparr>,
               rt\<lparr>rt_loops := rt_loops rt @ [\<lparr>at_listen = bind_addr, at_target = target,
                   at_running = True, at_permit = False, at_abort = False\<rparr>]\<rparr>))))"

definition pf_start ::
  "(runtime \<Rightarrow> SocketAddr \<Rightarrow> (unit, io_error) result) \<Rightarrow> u16 \<Rightarrow> string \<Rightarrow> u16 \<Rightarrow> runtime
     \<Rightarrow> (PortForwarder, PortForwardError) result \<times> runtime" where
  "pf_start os_bind host_port target_ip target_port =
     start_on os_bind ''127.0.0.1'' host_port target_ip target_port"

definition pf_stop :: "PortForwarder \<Rightarrow> runtime \<Rightarrow> runtime" where
  "pf_stop f rt = (let i = pf_handle f; t = rt_loops rt ! i in
     rt\<lparr>rt_loops := (rt_loops rt)[i := t\<lparr>at_permit := True, at_abort := True\<rparr>]\<rparr>)"

section \<open>The accept loop and the proxies\<close>

text \<open>One turn of the loop when \<open>accept\<close> is ready, and when the permit is.\<close>

definition on_accept :: "nat \<Rightarrow> (nat, io_error) result \<Rightarrow> runtime \<Rightarrow> runtime" where
  "on_accept i result rt = (let t = rt_loops rt ! i in
     case result of
       Ok client \<Rightarrow> rt\<lparr>rt_proxies := rt_proxies rt @
         [\<lparr>px_from = i, px_client = client, px_target = at_target t, px_phase = Connecting\<rparr>]\<rparr>
     | Err e \<Rightarrow> rt\<lparr>rt_loops := (rt_loops rt)[i := t\<lparr>at_running := False\<rparr>]\<rparr>)"

definition on_notified :: "nat \<Rightarrow> runtime \<Rightarrow> runtime" where
  "on_notified i rt = (let t = rt_loops rt ! i in
     rt\<lparr>rt_loops := (rt_loops rt)[i := t\<lparr>at_running := False, at_permit := False\<rparr>]\<rparr>)"

text \<open>The runtime drops the task, and the listener with it.\<close>

definition on_cancelled :: "nat \<Rightarrow> runtime \<Rightarrow> runtime" where
  "on_cancelled i rt =
     rt\<lparr>rt_loops := (rt_loops rt)[i := (rt_loops rt ! i)\<lparr>at_running := False\<rparr>]\<rparr>"

text \<open>\<open>proxy\<close> up to its first await and after it: \<open>None\<close> is the timeout of five seconds.\<close>

definition proxy_connected :: "(unit, io_error) result option \<Rightarrow> proxy_task \<Rightarrow> proxy_task" where
  "proxy_connected outcome c =
     (case outcome of
        Some (Ok _) \<Rightarrow> c\<lparr>px_phase := Relaying\<rparr>
      | Some (Err e) \<Rightarrow> c\<lparr>px_phase := Finished\<rparr>
      | None \<Rightarrow> c\<lparr>px_phase := Finished\<rparr>)"

definition proxy_copied :: "(nat \<times> nat, io_error) result \<Rightarrow> proxy_task \<Rightarrow> proxy_task" where
  "proxy_copied outcome c = c\<lparr>px_phase := Finished\<rparr>"

definition on_proxy :: "nat \<Rightarrow> (proxy_task \<Rightarrow> proxy_task) \<Rightarrow> runtime \<Rightarrow> runtime" where
  "on_proxy j f rt = rt\<lparr>rt_proxies := (rt_proxies rt)[j := f (rt_proxies rt ! j)]\<rparr>"

definition live_loop :: "runtime \<Rightarrow> nat \<Rightarrow> bool" where
  "live_loop rt i \<longleftrightarrow> i < length (rt_loops rt) \<and> at_running (rt_loops rt ! i)"

text \<open>
  The program and the runtime together.  The loop of a task that has been told to stop may
  still find a connection first: \<open>select!\<close> takes either branch when both are ready, and an
  abort is looked at only when the task is next scheduled.
\<close>

datatype pf_event =
    EvStarted "(PortForwarder, PortForwardError) result"
  | EvStopped PortForwarder
  | EvAccepted nat "(nat, io_error) result"
  | EvNotified nat
  | EvCancelled nat
  | EvConnected nat "(unit, io_error) result option"
  | EvCopied nat "(nat \<times> nat, io_error) result"

inductive pf_step ::
  "(runtime \<Rightarrow> SocketAddr \<Rightarrow> (unit, io_error) result) \<Rightarrow> runtime \<Rightarrow> pf_event \<Rightarrow> runtime \<Rightarrow> bool"
  for os_bind where
  started: "start_on os_bind bind_ip host_port target_ip target_port rt = (r, rt') \<Longrightarrow>
     pf_step os_bind rt (EvStarted r) rt'"
| stopped: "pf_handle f < length (rt_loops rt) \<Longrightarrow> pf_step os_bind rt (EvStopped f) (pf_stop f rt)"
| accepted: "live_loop rt i \<Longrightarrow> pf_step os_bind rt (EvAccepted i r) (on_accept i r rt)"
| notified: "live_loop rt i \<Longrightarrow> at_permit (rt_loops rt ! i) \<Longrightarrow>
     pf_step os_bind rt (EvNotified i) (on_notified i rt)"
| cancelled: "live_loop rt i \<Longrightarrow> at_abort (rt_loops rt ! i) \<Longrightarrow>
     pf_step os_bind rt (EvCancelled i) (on_cancelled i rt)"
| connected: "j < length (rt_proxies rt) \<Longrightarrow> px_phase (rt_proxies rt ! j) = Connecting \<Longrightarrow>
     pf_step os_bind rt (EvConnected j r) (on_proxy j (proxy_connected r) rt)"
| copied: "j < length (rt_proxies rt) \<Longrightarrow> px_phase (rt_proxies rt ! j) = Relaying \<Longrightarrow>
     pf_step os_bind rt (EvCopied j n) (on_proxy j (proxy_copied n) rt)"

inductive_cases pf_stepE: "pf_step os_bind rt ev rt'"

inductive pf_run ::
  "(runtime \<Rightarrow> SocketAddr \<Rightarrow> (unit, io_error) result) \<Rightarrow> runtime \<Rightarrow> pf_event list \<Rightarrow> runtime \<Rightarrow> bool"
  for os_bind where
  none: "pf_run os_bind rt [] rt"
| more: "pf_run os_bind rt evs rt' \<Longrightarrow> pf_step os_bind rt' ev rt'' \<Longrightarrow> pf_run os_bind rt (evs @ [ev]) rt''"

definition runtime_new :: runtime where
  "runtime_new = \<lparr>rt_loops = [], rt_proxies = []\<rparr>"

section \<open>What start does\<close>

lemma start_on_eq:
  "start_on os_bind bind_ip hp target_ip tp rt =
     (case host_with_port bind_ip hp of
        None \<Rightarrow> (Err (InvalidBindAddress ''invalid socket address syntax''), rt)
      | Some bind_addr \<Rightarrow>
        (case host_with_port target_ip tp of
           None \<Rightarrow> (Err (InvalidTarget ''invalid socket address syntax''), rt)
         | Some target \<Rightarrow>
           (case os_bind rt bind_addr of
              Err e \<Rightarrow> (Err (BindFailed bind_addr (io_text e)), rt)
            | Ok _ \<Rightarrow> (Ok \<lparr>pf_handle = length (rt_loops rt), pf_bind_addr = bind_addr,
                   pf_host_port = hp, pf_target = target\<rparr>,
               rt\<lparr>rt_loops := rt_loops rt @ [\<lparr>at_listen = bind_addr, at_target = target,
                   at_running = True, at_permit = False, at_abort = False\<rparr>]\<rparr>))))"
  by (simp add: start_on_def parse_socket_addr_with_port [simplified] split: option.split)

lemma start_on_cases:
  assumes "start_on os_bind bind_ip hp target_ip tp rt = (r, rt')"
  obtains (failed) e where "r = Err e" "rt' = rt"
  | (ok) f t where "r = Ok f" "rt' = rt\<lparr>rt_loops := rt_loops rt @ [t]\<rparr>" "pf_handle f = length (rt_loops rt)"
      "at_listen t = pf_bind_addr f" "at_target t = pf_target f" "at_running t"
      "os_bind rt (at_listen t) = Ok ()"
  using assms
  by (auto simp: start_on_eq split: option.splits result.splits)

section \<open>Runs of the runtime\<close>

definition started_by :: "pf_event \<Rightarrow> PortForwarder option" where
  "started_by ev = (case ev of EvStarted (Ok f) \<Rightarrow> Some f | _ \<Rightarrow> None)"

definition accepted_by :: "pf_event \<Rightarrow> (nat \<times> nat) option" where
  "accepted_by ev = (case ev of EvAccepted i (Ok client) \<Rightarrow> Some (i, client) | _ \<Rightarrow> None)"

definition ended_by :: "pf_event \<Rightarrow> nat option" where
  "ended_by ev = (case ev of EvAccepted i (Err e) \<Rightarrow> Some i | EvNotified i \<Rightarrow> Some i
     | EvCancelled i \<Rightarrow> Some i | _ \<Rightarrow> None)"

definition forwarders :: "pf_event list \<Rightarrow> PortForwarder list" where
  "forwarders evs = List.map_filter started_by evs"

definition connections :: "pf_event list \<Rightarrow> (nat \<times> nat) list" where
  "connections evs = List.map_filter accepted_by evs"

definition ended :: "pf_event list \<Rightarrow> nat list" where
  "ended evs = List.map_filter ended_by evs"

lemma history_simps [simp]:
  "forwarders [] = []" "connections [] = []" "ended [] = []"
  "forwarders (evs @ [ev]) = forwarders evs @ (case started_by ev of None \<Rightarrow> [] | Some f \<Rightarrow> [f])"
  "connections (evs @ [ev]) = connections evs @ (case accepted_by ev of None \<Rightarrow> [] | Some c \<Rightarrow> [c])"
  "ended (evs @ [ev]) = ended evs @ (case ended_by ev of None \<Rightarrow> [] | Some i \<Rightarrow> [i])"
  by (simp_all add: forwarders_def connections_def ended_def List.map_filter_def split: option.split)

text \<open>The loops are the forwarders started, in order, and run until they end; the proxies are the
  connections accepted, in order, each with the target of its loop.\<close>

definition loop_of :: "PortForwarder \<Rightarrow> nat \<Rightarrow> accept_task \<Rightarrow> bool" where
  "loop_of f i t \<longleftrightarrow> pf_handle f = i \<and> at_listen t = pf_bind_addr f \<and> at_target t = pf_target f"

definition pf_books :: "pf_event list \<Rightarrow> runtime \<Rightarrow> bool" where
  "pf_books evs rt \<longleftrightarrow>
     length (forwarders evs) = length (rt_loops rt)
     \<and> (\<forall>i < length (rt_loops rt). loop_of (forwarders evs ! i) i (rt_loops rt ! i)
          \<and> (at_running (rt_loops rt ! i) \<longleftrightarrow> i \<notin> set (ended evs)))
     \<and> (\<forall>i \<in> set (ended evs). i < length (rt_loops rt))
     \<and> map (\<lambda>p. (px_from p, px_client p)) (rt_proxies rt) = connections evs
     \<and> (\<forall>p \<in> set (rt_proxies rt). px_from p < length (rt_loops rt)
          \<and> px_target p = at_target (rt_loops rt ! px_from p))"

lemma pf_books_loop:
  assumes "pf_books evs rt" "i < length (rt_loops rt)" "started_by ev = None" "accepted_by ev = None"
    "at_listen t = at_listen (rt_loops rt ! i)" "at_target t = at_target (rt_loops rt ! i)"
    "at_running t \<longleftrightarrow> at_running (rt_loops rt ! i) \<and> ended_by ev \<noteq> Some i"
    "ended_by ev = None \<or> ended_by ev = Some i"
  shows "pf_books (evs @ [ev]) (rt\<lparr>rt_loops := (rt_loops rt)[i := t]\<rparr>)"
  using assms by (auto simp: pf_books_def loop_of_def nth_list_update split: option.split)

lemma pf_books_proxy:
  assumes "pf_books evs rt" "j < length (rt_proxies rt)" "started_by ev = None" "accepted_by ev = None"
    "ended_by ev = None" "px_from c = px_from (rt_proxies rt ! j)" "px_client c = px_client (rt_proxies rt ! j)"
    "px_target c = px_target (rt_proxies rt ! j)"
  shows "pf_books (evs @ [ev]) (rt\<lparr>rt_proxies := (rt_proxies rt)[j := c]\<rparr>)"
proof -
  have "map (\<lambda>p. (px_from p, px_client p)) ((rt_proxies rt)[j := c])
      = map (\<lambda>p. (px_from p, px_client p)) (rt_proxies rt)"
    using assms by (simp add: map_update list_update_same_conv)
  moreover have "rt_proxies rt ! j \<in> set (rt_proxies rt)" using assms(2) by simp
  ultimately show ?thesis
    using assms(1,3-) set_update_subset_insert [of "rt_proxies rt" j c] by (auto simp: pf_books_def)
qed

lemma pf_books_step:
  assumes "pf_books evs rt" "pf_step os_bind rt ev rt'"
  shows "pf_books (evs @ [ev]) rt'"
  using assms(2)
proof cases
  case (started bind_ip hp target_ip tp r)
  from started(2) show ?thesis
  proof (cases rule: start_on_cases)
    case (failed e)
    then show ?thesis using assms(1) started(1)
      by (simp add: pf_books_def started_by_def accepted_by_def ended_by_def)
  next
    case (ok f t)
    then show ?thesis using assms(1) started(1)
      by (auto simp: pf_books_def started_by_def accepted_by_def ended_by_def loop_of_def nth_append less_Suc_eq)
  qed
next
  case (stopped f)
  then show ?thesis
    unfolding stopped(2) pf_stop_def Let_def
    by (intro pf_books_loop [OF assms(1)]) (auto simp: started_by_def accepted_by_def ended_by_def)
next
  case (accepted i r)
  show ?thesis
  proof (cases r)
    case (Ok client)
    then show ?thesis using assms(1) accepted
      by (auto simp: pf_books_def on_accept_def live_loop_def started_by_def accepted_by_def ended_by_def)
  next
    case (Err e)
    then show ?thesis using accepted
      by (auto simp: on_accept_def live_loop_def started_by_def accepted_by_def ended_by_def
          intro!: pf_books_loop [OF assms(1)])
  qed
next
  case (notified i)
  then show ?thesis
    by (auto simp: on_notified_def Let_def live_loop_def started_by_def accepted_by_def ended_by_def
        intro!: pf_books_loop [OF assms(1)])
next
  case (cancelled i)
  then show ?thesis
    by (auto simp: on_cancelled_def live_loop_def started_by_def accepted_by_def ended_by_def
        intro!: pf_books_loop [OF assms(1)])
next
  case (connected j r)
  then show ?thesis
    unfolding connected(2) on_proxy_def
    by (intro pf_books_proxy [OF assms(1)])
      (auto simp: started_by_def accepted_by_def ended_by_def proxy_connected_def split: option.split result.split)
next
  case (copied j n)
  then show ?thesis
    unfolding copied(2) on_proxy_def
    by (intro pf_books_proxy [OF assms(1)])
      (auto simp: started_by_def accepted_by_def ended_by_def proxy_copied_def)
qed

lemma pf_books_run: "pf_run os_bind runtime_new evs rt \<Longrightarrow> pf_books evs rt"
proof (induction "runtime_new" evs rt rule: pf_run.induct)
  case none
  show ?case by (simp add: pf_books_def runtime_new_def)
qed (rule pf_books_step)

section \<open>Listeners and connections\<close>

fun addr_port :: "SocketAddr \<Rightarrow> u16" where
  "addr_port (V4 ip p) = p"
| "addr_port (V6 ip p scope) = p"

text \<open>What the operating system promises of \<open>bind\<close>: an address with a listener, other than an address
  of port 0, is refused.\<close>

definition exclusive_bind :: "(runtime \<Rightarrow> SocketAddr \<Rightarrow> (unit, io_error) result) \<Rightarrow> bool" where
  "exclusive_bind os_bind \<longleftrightarrow> (\<forall>rt i. live_loop rt i \<and> addr_port (at_listen (rt_loops rt ! i)) \<noteq> 0 \<longrightarrow>
     \<not> is_ok (os_bind rt (at_listen (rt_loops rt ! i))))"

definition listeners_distinct :: "runtime \<Rightarrow> bool" where
  "listeners_distinct rt \<longleftrightarrow> (\<forall>i j. live_loop rt i \<and> live_loop rt j
     \<and> at_listen (rt_loops rt ! i) = at_listen (rt_loops rt ! j)
     \<and> addr_port (at_listen (rt_loops rt ! i)) \<noteq> 0 \<longrightarrow> i = j)"

text \<open>Every step but a start keeps the listeners or closes one; none reopens one.\<close>

lemma step_listeners:
  assumes "pf_step os_bind rt ev rt'" "started_by ev = None"
  shows "live_loop rt' i \<Longrightarrow> live_loop rt i"
    "i < length (rt_loops rt) \<Longrightarrow> at_listen (rt_loops rt' ! i) = at_listen (rt_loops rt ! i)"
    "length (rt_loops rt') = length (rt_loops rt)"
proof -
  have "(live_loop rt' i \<longrightarrow> live_loop rt i) \<and> length (rt_loops rt') = length (rt_loops rt)
    \<and> (i < length (rt_loops rt) \<longrightarrow> at_listen (rt_loops rt' ! i) = at_listen (rt_loops rt ! i))"
    using assms(1)
  proof cases
    case (started bind_ip hp target_ip tp r)
    then show ?thesis using assms(2) by (auto simp: started_by_def elim: start_on_cases)
  qed (auto simp: pf_stop_def on_accept_def on_notified_def on_cancelled_def on_proxy_def live_loop_def
      Let_def nth_list_update split: result.split if_splits)
  then show "live_loop rt' i \<Longrightarrow> live_loop rt i"
    "i < length (rt_loops rt) \<Longrightarrow> at_listen (rt_loops rt' ! i) = at_listen (rt_loops rt ! i)"
    "length (rt_loops rt') = length (rt_loops rt)" by auto
qed

lemma start_listeners:
  assumes "exclusive_bind os_bind" "listeners_distinct rt" "os_bind rt (at_listen t) = Ok ()"
  shows "listeners_distinct (rt\<lparr>rt_loops := rt_loops rt @ [t]\<rparr>)"
proof -
  have "at_listen (rt_loops rt ! i) \<noteq> at_listen t \<or> addr_port (at_listen t) = 0" if "live_loop rt i" for i
    using assms(1,3) that unfolding exclusive_bind_def by (metis is_ok_simps(1))
  then show ?thesis
    using assms(2) by (fastforce simp: listeners_distinct_def live_loop_def nth_append less_Suc_eq)
qed

lemma listeners_step:
  assumes "exclusive_bind os_bind" "listeners_distinct rt" "pf_step os_bind rt ev rt'"
  shows "listeners_distinct rt'"
proof (cases "started_by ev")
  case None
  note st = step_listeners [OF assms(3) None]
  show ?thesis using assms(2) st unfolding listeners_distinct_def live_loop_def by metis
next
  case (Some f)
  then obtain bip hp tip tp where "start_on os_bind bip hp tip tp rt = (Ok f, rt')"
    using assms(3) by (auto simp: started_by_def elim: pf_step.cases split: pf_event.splits result.splits)
  then show ?thesis by (cases rule: start_on_cases) (use assms in \<open>auto intro: start_listeners\<close>)
qed

lemma listeners_run:
  "pf_run os_bind runtime_new evs rt \<Longrightarrow> exclusive_bind os_bind \<Longrightarrow> listeners_distinct rt"
proof (induction "runtime_new" evs rt rule: pf_run.induct)
  case none
  show ?case by (simp add: listeners_distinct_def live_loop_def runtime_new_def)
qed (rule listeners_step)

text \<open>A loop that has ended accepts nothing more.\<close>

lemma ended_loop_step:
  assumes "pf_step os_bind rt ev rt'" "\<not> live_loop rt i" "i < length (rt_loops rt)"
  shows "\<not> live_loop rt' i \<and> i < length (rt_loops rt') \<and> (\<forall>c. accepted_by ev \<noteq> Some (i, c))"
proof (cases "started_by ev")
  case None
  note st = step_listeners(1) [OF assms(1) None, of i] step_listeners(3) [OF assms(1) None]
  moreover have "accepted_by ev \<noteq> Some (i, c)" for c
    using assms(1,2) by (cases rule: pf_step.cases) (auto simp: accepted_by_def split: result.splits)
  ultimately show ?thesis using assms by auto
next
  case (Some f)
  then obtain bip hp tip tp where "start_on os_bind bip hp tip tp rt = (Ok f, rt')" "accepted_by ev = None"
    using assms(1) by (auto simp: started_by_def accepted_by_def elim: pf_step.cases split: pf_event.splits result.splits)
  then show ?thesis
    by (cases rule: start_on_cases) (use assms in \<open>auto simp: live_loop_def nth_append\<close>)
qed

lemma ended_loop_run:
  "pf_run os_bind rt evs rt' \<Longrightarrow> \<not> live_loop rt i \<Longrightarrow> i < length (rt_loops rt) \<Longrightarrow>
     \<not> live_loop rt' i \<and> i < length (rt_loops rt') \<and> i \<notin> fst ` set (connections evs)"
proof (induction rule: pf_run.induct)
  case (more rt evs rt' ev rt'')
  then have "\<not> live_loop rt'' i \<and> i < length (rt_loops rt'') \<and> (\<forall>c. accepted_by ev \<noteq> Some (i, c))"
    using ended_loop_step by blast
  then show ?case using more by (cases "accepted_by ev") auto
qed simp

text \<open>A connection is relayed until its own copy ends.\<close>

definition relaying :: "runtime \<Rightarrow> nat \<Rightarrow> bool" where
  "relaying rt j \<longleftrightarrow> j < length (rt_proxies rt) \<and> px_phase (rt_proxies rt ! j) = Relaying"

lemma relaying_step:
  assumes "pf_step os_bind rt ev rt'" "relaying rt j" "\<And>n. ev \<noteq> EvCopied j n"
  shows "relaying rt' j"
  using assms(1)
proof cases
  case (started bind_ip hp target_ip tp r)
  from started(2) show ?thesis by (cases rule: start_on_cases) (use assms(2) in \<open>auto simp: relaying_def\<close>)
qed (use assms(2,3) in \<open>auto simp: relaying_def pf_stop_def on_accept_def on_notified_def on_cancelled_def
      on_proxy_def Let_def nth_append nth_list_update split: result.split\<close>)

lemma relaying_run:
  "pf_run os_bind rt evs rt' \<Longrightarrow> relaying rt j \<Longrightarrow> \<forall>n. EvCopied j n \<notin> set evs \<Longrightarrow> relaying rt' j"
proof (induction rule: pf_run.induct)
  case (more rt evs rt' ev rt'')
  then show ?case using relaying_step [of os_bind rt' ev rt'' j] by fastforce
qed


section \<open>The forwarder\<close>

text \<open>C22: what \<open>start_on\<close> does.  Formatting an address and a port and parsing the text again is exact:
  whatever the texts are, the listener is bound to the host port asked for, at the address the
  text before the colon denotes on its own, and likewise the target; a text that is not an IPv4
  address or an IPv6 address in brackets is refused with the error of the side it is on, before
  anything is bound; a refused \<open>bind\<close> is reported with its address and leaves nothing behind; and on
  success the one loop that is added listens on and forwards to the addresses of the result.
  A dotted quad is always accepted, so \<open>start\<close> never complains about its loopback address.\<close>

theorem start_on_outcome:
  "start_on os_bind bind_ip hp target_ip tp rt =
     (case host_with_port bind_ip hp of
        None \<Rightarrow> (Err (InvalidBindAddress ''invalid socket address syntax''), rt)
      | Some bind_addr \<Rightarrow>
        (case host_with_port target_ip tp of
           None \<Rightarrow> (Err (InvalidTarget ''invalid socket address syntax''), rt)
         | Some target \<Rightarrow>
           (case os_bind rt bind_addr of
              Err e \<Rightarrow> (Err (BindFailed bind_addr (io_text e)), rt)
            | Ok _ \<Rightarrow> (Ok \<lparr>pf_handle = length (rt_loops rt), pf_bind_addr = bind_addr,
                   pf_host_port = hp, pf_target = target\<rparr>,
               rt\<lparr>rt_loops := rt_loops rt @ [\<lparr>at_listen = bind_addr, at_target = target,
                   at_running = True, at_permit = False, at_abort = False\<rparr>]\<rparr>))))
   \<and> host_with_port (ipv4_display [a, b, c, d]) p = Some (V4 [a, b, c, d] p)
   \<and> fst (pf_start os_bind hp target_ip tp rt) \<noteq> Err (InvalidBindAddress e)"
proof -
  have "''127.0.0.1'' = ipv4_display [127, 0, 0, 1]" by code_simp
  then have "host_with_port ''127.0.0.1'' hp = Some (V4 [127, 0, 0, 1] hp)"
    by (simp add: host_with_port_display)
  then show ?thesis
    by (simp add: start_on_eq pf_start_def host_with_port_display split: option.split result.split)
qed

text \<open>C18: forwarders do not mix.  In every run of any number of forwarders, started and stopped in
  any order, with the runtime scheduling their loops and connections as it likes: every
  connection that was accepted has exactly one proxy, in the order of acceptance, and that
  proxy connects to the target of the forwarder whose listener accepted it and to nothing else;
  and if the operating system refuses addresses in use, no two running forwarders listen on
  the same address.\<close>

theorem forwarder_isolation:
  assumes "pf_run os_bind runtime_new evs rt" "exclusive_bind os_bind"
  shows "map (\<lambda>p. (px_from p, px_client p)) (rt_proxies rt) = connections evs
    \<and> (\<forall>p \<in> set (rt_proxies rt). \<exists>f \<in> set (forwarders evs).
         pf_handle f = px_from p \<and> px_target p = pf_target f)
    \<and> (\<forall>f \<in> set (forwarders evs). \<forall>g \<in> set (forwarders evs).
         live_loop rt (pf_handle f) \<and> live_loop rt (pf_handle g)
         \<and> pf_bind_addr f = pf_bind_addr g \<and> addr_port (pf_bind_addr f) \<noteq> 0 \<longrightarrow> f = g)"
proof -
  note books = pf_books_run [OF assms(1), unfolded pf_books_def loop_of_def]
  have idx: "\<exists>i < length (rt_loops rt). f = forwarders evs ! i \<and> pf_handle f = i
      \<and> pf_bind_addr f = at_listen (rt_loops rt ! i)" if "f \<in> set (forwarders evs)" for f
    using that books by (auto simp: in_set_conv_nth)
  have "\<exists>f \<in> set (forwarders evs). pf_handle f = px_from p \<and> px_target p = pf_target f"
    if "p \<in> set (rt_proxies rt)" for p
    using that books by (intro bexI [of _ "forwarders evs ! px_from p"]) auto
  moreover have "f = g" if "f \<in> set (forwarders evs)" "g \<in> set (forwarders evs)"
      "live_loop rt (pf_handle f)" "live_loop rt (pf_handle g)"
      "pf_bind_addr f = pf_bind_addr g" "addr_port (pf_bind_addr f) \<noteq> 0" for f g
    using idx [OF that(1)] idx [OF that(2)] that(3-) listeners_run [OF assms]
    unfolding listeners_distinct_def by metis
  ultimately show ?thesis using books by blast
qed

text \<open>C23: what \<open>stop\<close> does, and what it does not.  It touches no connection and no other loop; the
  runtime can end the loop of the forwarder at once, which drops its listener; once the loop
  has ended, no run brings it back or accepts another connection for it.  But a connection that
  is being relayed goes on, through the stop of its forwarder and anything else, until its own
  copy ends.\<close>

theorem forwarder_stop:
  assumes "pf_run os_bind runtime_new evs rt" "f \<in> set (forwarders evs)"
  defines "i \<equiv> pf_handle f"
  shows "rt_proxies (pf_stop f rt) = rt_proxies rt
    \<and> (\<forall>j. j \<noteq> i \<longrightarrow> rt_loops (pf_stop f rt) ! j = rt_loops rt ! j)
    \<and> (live_loop rt i \<longrightarrow> (\<exists>rt'. pf_run os_bind rt [EvStopped f, EvCancelled i] rt' \<and> \<not> live_loop rt' i))
    \<and> (\<not> live_loop rt i \<longrightarrow> (\<forall>evs' rt'. pf_run os_bind rt evs' rt' \<longrightarrow>
         \<not> live_loop rt' i \<and> i \<notin> fst ` set (connections evs')))
    \<and> (\<forall>evs' rt' j. pf_run os_bind rt evs' rt' \<and> relaying rt j \<and> (\<forall>n. EvCopied j n \<notin> set evs')
         \<longrightarrow> relaying rt' j)"
proof -
  have i: "i < length (rt_loops rt)"
    using pf_books_run [OF assms(1)] assms(2) by (auto simp: i_def pf_books_def loop_of_def in_set_conv_nth)
  have stop: "pf_step os_bind rt (EvStopped f) (pf_stop f rt)"
    using i by (intro stopped) (simp add: i_def)
  have "pf_step os_bind (pf_stop f rt) (EvCancelled i) (on_cancelled i (pf_stop f rt))" if "live_loop rt i"
    using that by (intro cancelled) (auto simp: pf_stop_def i_def live_loop_def Let_def)
  then have "pf_run os_bind rt [EvStopped f, EvCancelled i] (on_cancelled i (pf_stop f rt))" if "live_loop rt i"
    using pf_run.more [OF pf_run.more [OF pf_run.none stop]] that by simp
  moreover have "\<not> live_loop (on_cancelled i (pf_stop f rt)) i"
    using i by (simp add: live_loop_def on_cancelled_def pf_stop_def)
  ultimately show ?thesis
    using ended_loop_run [of os_bind rt _ _ i] relaying_run [of os_bind rt] i
    by (auto simp: pf_stop_def i_def Let_def)
qed


text \<open>Two forwarders on the loopback address, one connection accepted by the first and relayed.\<close>

definition first_come_bind :: "runtime \<Rightarrow> SocketAddr \<Rightarrow> (unit, io_error) result" where
  "first_come_bind rt a =
     (if a \<in> set (map at_listen (filter at_running (rt_loops rt)))
      then Err \<lparr>io_kind = KOther, io_text = ''Address already in use''\<rparr> else Ok ())"

definition demo_forwarder :: "nat \<Rightarrow> u16 \<Rightarrow> u8 \<Rightarrow> PortForwarder" where
  "demo_forwarder i hp d = \<lparr>pf_handle = i, pf_bind_addr = V4 [127, 0, 0, 1] hp, pf_host_port = hp,
     pf_target = V4 [10, 0, 0, d] 80\<rparr>"

definition demo_loop :: "u16 \<Rightarrow> u8 \<Rightarrow> accept_task" where
  "demo_loop hp d = \<lparr>at_listen = V4 [127, 0, 0, 1] hp, at_target = V4 [10, 0, 0, d] 80,
     at_running = True, at_permit = False, at_abort = False\<rparr>"

definition demo_proxy :: "proxy_phase \<Rightarrow> proxy_task" where
  "demo_proxy ph = \<lparr>px_from = 0, px_client = 7, px_target = V4 [10, 0, 0, 2] 80, px_phase = ph\<rparr>"

definition demo_events :: "pf_event list" where
  "demo_events = [EvStarted (Ok (demo_forwarder 0 8080 2)), EvStarted (Ok (demo_forwarder 1 8081 3)),
     EvAccepted 0 (Ok 7), EvConnected 0 (Some (Ok ()))]"

definition demo_runtime :: runtime where
  "demo_runtime = \<lparr>rt_loops = [demo_loop 8080 2, demo_loop 8081 3], rt_proxies = [demo_proxy Relaying]\<rparr>"

lemma first_come_exclusive: "exclusive_bind first_come_bind"
  by (auto simp: exclusive_bind_def first_come_bind_def live_loop_def)

lemma demo_hosts:
  "host_with_port ''127.0.0.1'' p = Some (V4 [127, 0, 0, 1] p)"
  "host_with_port ''10.0.0.2'' p = Some (V4 [10, 0, 0, 2] p)"
  "host_with_port ''10.0.0.3'' p = Some (V4 [10, 0, 0, 3] p)"
proof -
  have "''127.0.0.1'' = ipv4_display [127, 0, 0, 1]" "''10.0.0.2'' = ipv4_display [10, 0, 0, 2]"
    "''10.0.0.3'' = ipv4_display [10, 0, 0, 3]" by code_simp+
  then show "host_with_port ''127.0.0.1'' p = Some (V4 [127, 0, 0, 1] p)"
    "host_with_port ''10.0.0.2'' p = Some (V4 [10, 0, 0, 2] p)"
    "host_with_port ''10.0.0.3'' p = Some (V4 [10, 0, 0, 3] p)"
    by (simp_all add: host_with_port_display)
qed

lemma demo_run: "pf_run first_come_bind runtime_new demo_events demo_runtime"
proof -
  let ?l1 = "demo_loop 8080 2" and ?l2 = "demo_loop 8081 3"
  have "start_on first_come_bind ''127.0.0.1'' 8080 ''10.0.0.2'' 80 runtime_new
      = (Ok (demo_forwarder 0 8080 2), \<lparr>rt_loops = [?l1], rt_proxies = []\<rparr>)"
    by (simp add: start_on_eq demo_hosts first_come_bind_def runtime_new_def demo_forwarder_def demo_loop_def)
  note s1 = started [OF this]
  have "start_on first_come_bind ''127.0.0.1'' 8081 ''10.0.0.3'' 80 \<lparr>rt_loops = [?l1], rt_proxies = []\<rparr>
      = (Ok (demo_forwarder 1 8081 3), \<lparr>rt_loops = [?l1, ?l2], rt_proxies = []\<rparr>)"
    by (simp add: start_on_eq demo_hosts first_come_bind_def demo_forwarder_def demo_loop_def)
  note s2 = started [OF this]
  have s3: "pf_step first_come_bind \<lparr>rt_loops = [?l1, ?l2], rt_proxies = []\<rparr> (EvAccepted 0 (Ok 7))
      \<lparr>rt_loops = [?l1, ?l2], rt_proxies = [demo_proxy Connecting]\<rparr>"
    using accepted [of "\<lparr>rt_loops = [?l1, ?l2], rt_proxies = []\<rparr>" 0 first_come_bind "Ok 7"]
    by (simp add: on_accept_def live_loop_def demo_loop_def demo_proxy_def)
  have s4: "pf_step first_come_bind \<lparr>rt_loops = [?l1, ?l2], rt_proxies = [demo_proxy Connecting]\<rparr>
      (EvConnected 0 (Some (Ok ()))) demo_runtime"
    using connected [of 0 "\<lparr>rt_loops = [?l1, ?l2], rt_proxies = [demo_proxy Connecting]\<rparr>" first_come_bind "Some (Ok ())"]
    by (simp add: on_proxy_def proxy_connected_def demo_runtime_def demo_proxy_def)
  show ?thesis
    using more [OF more [OF more [OF more [OF none s1] s2] s3] s4] by (simp add: demo_events_def)
qed

theorem forwarder_isolation_witness:
  "connections demo_events = [(0, 7)]
   \<and> (\<exists>f \<in> set (forwarders demo_events). pf_handle f = 0 \<and> px_target (demo_proxy Relaying) = pf_target f)"
  using forwarder_isolation [OF demo_run first_come_exclusive]
  by (simp add: demo_runtime_def demo_proxy_def)

theorem forwarder_stop_witness:
  "\<exists>rt'. pf_run first_come_bind demo_runtime [EvStopped (demo_forwarder 0 8080 2), EvCancelled 0] rt'
     \<and> \<not> live_loop rt' 0 \<and> relaying rt' 0"
proof -
  have f: "demo_forwarder 0 8080 2 \<in> set (forwarders demo_events)"
    by (simp add: demo_events_def forwarders_def List.map_filter_def started_by_def)
  have "live_loop demo_runtime 0" "relaying demo_runtime 0"
    by (simp_all add: live_loop_def relaying_def demo_runtime_def demo_loop_def demo_proxy_def)
  then show ?thesis
    using forwarder_stop [OF demo_run f] by (fastforce simp: demo_forwarder_def)
qed

end
