(* ===== verification/Oci_Store.thy ===== *)
theory Oci_Store
  imports Host "HOL-Library.List_Lexorder" "HOL-Library.Char_ord" "HOL-Library.Product_Lexorder"
begin

text \<open>
  \<open>src/oci/store.rs\<close> and the error type of \<open>src/oci/registry.rs\<close>: the content-addressed store of
  image blobs, the cached manifests, and the extraction of layers.  SHA-256 and the JSON decoder
  are parameters.  Extraction works on a machine of its own: the tar and gzip readers and the
  calls that change the target directory are oracles, and the calls made are recorded, so that
  what a layer can make the store do is visible.
\<close>

datatype OciError =
    OciHttp string
  | OciAuth string
  | ManifestParse string
  | ManifestList
  | OciBlob string
  | OciIo io_error

section \<open>Decoded JSON\<close>

record RawDescriptor =
  rd_digest :: "string option"

record RawManifest =
  rm_media_type :: "string option"
  rm_schema_version :: "u64 option"
  rm_config :: "RawDescriptor option"
  rm_layers :: "RawDescriptor list option"

text \<open>The keys of \<open>ExposedPorts\<close> are in the order in which the map yields them.\<close>

record RawContainerConfig =
  rc_Entrypoint :: "string list option"
  rc_Cmd :: "string list option"
  rc_Env :: "string list option"
  rc_WorkingDir :: "string option"
  rc_User :: "string option"
  rc_ExposedPorts :: "string list option"

record serde =
  js_manifest :: "bytes \<Rightarrow> (RawManifest, string) result"
  js_image :: "bytes \<Rightarrow> (RawContainerConfig option, string) result"

record ImageManifest =
  im_config_digest :: string
  im_layer_digests :: "string list"
  im_media_type :: string

record ImageConfig =
  ic_entrypoint :: "string list"
  ic_cmd :: "string list"
  ic_env :: "string list"
  ic_working_dir :: string
  ic_user :: string
  ic_exposed_ports :: "nat list"

definition parse_manifest :: "serde \<Rightarrow> bytes \<Rightarrow> (ImageManifest, OciError) result" where
  "parse_manifest js data =
     (case js_manifest js data of
        Err e \<Rightarrow> Err (ManifestParse (''invalid JSON: '' @ e))
      | Ok raw \<Rightarrow>
        (let media_type = (case rm_media_type raw of Some t \<Rightarrow> t | None \<Rightarrow> []) in
         if str_contains ''manifest.list'' media_type \<or> str_contains ''index'' media_type
         then Err ManifestList
         else
           and_then (ok_or (ManifestParse ''missing config digest'')
                       (Option.bind (rm_config raw) rd_digest)) (\<lambda>config_digest.
           and_then (ok_or (ManifestParse ''missing layers'') (rm_layers raw)) (\<lambda>layers.
           and_then (traverse (\<lambda>l. ok_or (ManifestParse ''missing layer digest'') (rd_digest l)) layers)
             (\<lambda>layer_digests.
           Ok \<lparr>im_config_digest = config_digest, im_layer_digests = layer_digests,
               im_media_type = media_type\<rparr>)))))"

text \<open>The message of a failed \<open>parse::<u16>\<close> is a parameter, \<open>num_error\<close>.\<close>

definition exposed_port :: "(string \<Rightarrow> string) \<Rightarrow> string \<Rightarrow> (nat, OciError) result" where
  "exposed_port num_error key =
     (let first = hd (str_split (CHR ''/'') key) in
      case parse_u16 first of Some p \<Rightarrow> Ok p
      | None \<Rightarrow> Err (ManifestParse (''invalid exposed port '' @ squote @ key @ squote @ '': ''
                  @ num_error first)))"

definition or_default :: "'a \<Rightarrow> 'a option \<Rightarrow> 'a" where
  "or_default d x = (case x of Some y \<Rightarrow> y | None \<Rightarrow> d)"

definition parse_config :: "serde \<Rightarrow> (string \<Rightarrow> string) \<Rightarrow> bytes \<Rightarrow> (ImageConfig, OciError) result" where
  "parse_config js num_error data =
     (case js_image js data of
        Err e \<Rightarrow> Err (ManifestParse (''invalid config JSON: '' @ e))
      | Ok config \<Rightarrow>
        (let cfg = or_default \<lparr>rc_Entrypoint = None, rc_Cmd = None, rc_Env = None, rc_WorkingDir = None,
               rc_User = None, rc_ExposedPorts = None\<rparr> config in
         and_then (case rc_ExposedPorts cfg of None \<Rightarrow> Ok []
                   | Some keys \<Rightarrow> traverse (exposed_port num_error) keys) (\<lambda>exposed_ports.
         Ok \<lparr>ic_entrypoint = or_default [] (rc_Entrypoint cfg), ic_cmd = or_default [] (rc_Cmd cfg),
             ic_env = or_default [] (rc_Env cfg), ic_working_dir = or_default [] (rc_WorkingDir cfg),
             ic_user = or_default [] (rc_User cfg), ic_exposed_ports = exposed_ports\<rparr>)))"

section \<open>Blobs\<close>

record ImageStore =
  store_root :: path

definition store_new :: "path \<Rightarrow> fs \<Rightarrow> (ImageStore, OciError) result \<times> fs" where
  "store_new data_dir w =
     (let root = path_join data_dir [Normal ''images''] in
      case fs_create_dir_all (path_join root [Normal ''blobs'', Normal ''sha256'']) w of
        (Err e, w) \<Rightarrow> (Err (OciIo e), w)
      | (Ok _, w) \<Rightarrow>
        (case fs_create_dir_all (path_join root [Normal ''manifests'']) w of
           (Err e, w) \<Rightarrow> (Err (OciIo e), w)
         | (Ok _, w) \<Rightarrow> (Ok \<lparr>store_root = root\<rparr>, w)))"

definition digest_hash :: "string \<Rightarrow> string" where
  "digest_hash digest = (case strip_prefix ''sha256:'' digest of Some h \<Rightarrow> h | None \<Rightarrow> digest)"

definition blob_path :: "ImageStore \<Rightarrow> string \<Rightarrow> path" where
  "blob_path st digest =
     path_join (path_join (store_root st) [Normal ''blobs'', Normal ''sha256'']) (path_of (digest_hash digest))"

definition has_blob :: "ImageStore \<Rightarrow> string \<Rightarrow> fs \<Rightarrow> bool" where
  "has_blob st digest w = fs_exists w (blob_path st digest)"

definition put_blob ::
  "(bytes \<Rightarrow> bytes) \<Rightarrow> ImageStore \<Rightarrow> string \<Rightarrow> bytes \<Rightarrow> fs \<Rightarrow> (path, OciError) result \<times> fs" where
  "put_blob sha st digest data w =
     (let expected_hash = digest_hash digest; actual_hash = bytes_hex (sha data) in
      if actual_hash \<noteq> expected_hash
      then (Err (OciBlob (''digest mismatch: expected sha256:'' @ expected_hash @ '', got sha256:''
              @ actual_hash)), w)
      else (let p = blob_path st digest in
        case fs_replace p data w of
          (Err e, w) \<Rightarrow> (Err (OciIo e), w)
        | (Ok _, w) \<Rightarrow> (Ok p, w)))"

definition get_blob :: "ImageStore \<Rightarrow> string \<Rightarrow> fs \<Rightarrow> (bytes, OciError) result" where
  "get_blob st digest w =
     map_err (\<lambda>e. OciBlob (''failed to read blob '' @ digest @ '': '' @ io_text e)) (fs_read (blob_path st digest) w)"

section \<open>Manifests\<close>

definition sanitize_name :: "string \<Rightarrow> string" where
  "sanitize_name s = str_replace '':'' ''_colon_'' (str_replace ''/'' ''_slash_'' s)"

definition unsanitize_name :: "string \<Rightarrow> string" where
  "unsanitize_name s = str_replace ''_colon_'' '':'' (str_replace ''_slash_'' ''/'' s)"

definition manifest_dir :: "ImageStore \<Rightarrow> string \<Rightarrow> path" where
  "manifest_dir st img =
     path_join (path_join (store_root st) [Normal ''manifests'']) (path_of (sanitize_name img))"

definition manifest_path :: "ImageStore \<Rightarrow> string \<Rightarrow> string \<Rightarrow> path" where
  "manifest_path st img tag =
     path_join (manifest_dir st img) (path_of (sanitize_name tag @ ''.json''))"

definition put_manifest ::
  "ImageStore \<Rightarrow> string \<Rightarrow> string \<Rightarrow> bytes \<Rightarrow> fs \<Rightarrow> (unit, OciError) result \<times> fs" where
  "put_manifest st img tag data w =
     (case fs_create_dir_all (manifest_dir st img) w of
        (Err e, w) \<Rightarrow> (Err (OciIo e), w)
      | (Ok _, w) \<Rightarrow>
        (case fs_write (manifest_path st img tag) data w of
           (Err e, w) \<Rightarrow> (Err (OciIo e), w)
         | (Ok _, w) \<Rightarrow> (Ok (), w)))"

definition get_manifest ::
  "ImageStore \<Rightarrow> string \<Rightarrow> string \<Rightarrow> fs \<Rightarrow> (bytes option, OciError) result" where
  "get_manifest st img tag w =
     (case fs_read (manifest_path st img tag) w of
        Ok data \<Rightarrow> Ok (Some data)
      | Err e \<Rightarrow> if io_kind e = KNotFound then Ok None else Err (OciIo e))"

text \<open>
  Listing.  \<open>ls\<close> is what \<open>read_dir\<close> yields for a directory: the entries in the order of the file
  system, each with its name and whether it is a directory, or the error of the entry.
\<close>

type_synonym dir_listing = "path \<Rightarrow> ((string \<times> bool, io_error) result list, io_error) result"

definition list_tag ::
  "serde \<Rightarrow> ImageStore \<Rightarrow> fs \<Rightarrow> path \<Rightarrow> string \<Rightarrow> (string \<times> bool, io_error) result
     \<Rightarrow> ((string \<times> string \<times> nat \<times> nat) option, OciError) result" where
  "list_tag js st w dir repo_name entry =
     (case entry of Err e \<Rightarrow> Err (OciIo e)
      | Ok (name, _) \<Rightarrow>
        (let filename = from_utf8_lossy (as_bytes name) in
         if \<not> ends_with ''.json'' filename then Ok None
         else (let tag = unsanitize_name (take (length filename - 5) filename) in
           and_then (map_err OciIo (fs_read (dir @ [Normal name]) w)) (\<lambda>data.
           and_then (parse_manifest js data) (\<lambda>manifest.
           and_then (traverse (\<lambda>d. map_err OciIo (fs_len (blob_path st d) w)) (im_layer_digests manifest))
             (\<lambda>sizes.
           Ok (Some (repo_name, tag, length (im_layer_digests manifest), sum_list sizes))))))))"

definition list_repo ::
  "serde \<Rightarrow> ImageStore \<Rightarrow> dir_listing \<Rightarrow> fs \<Rightarrow> (string \<times> bool, io_error) result
     \<Rightarrow> ((string \<times> string \<times> nat \<times> nat) list, OciError) result" where
  "list_repo js st ls w entry =
     (case entry of Err e \<Rightarrow> Err (OciIo e)
      | Ok (name, is_dir) \<Rightarrow>
        if \<not> is_dir then Ok []
        else (let dir = path_join (store_root st) [Normal ''manifests''] @ [Normal name];
                  repo_name = unsanitize_name (from_utf8_lossy (as_bytes name)) in
          and_then (map_err OciIo (ls dir)) (\<lambda>tags.
          and_then (traverse (list_tag js st w dir repo_name) tags) (\<lambda>rows.
          Ok (List.map_filter (\<lambda>x. x) rows)))))"

definition list_images ::
  "serde \<Rightarrow> ImageStore \<Rightarrow> dir_listing \<Rightarrow> fs \<Rightarrow> ((string \<times> string \<times> nat \<times> nat) list, OciError) result" where
  "list_images js st ls w =
     and_then (map_err OciIo (ls (path_join (store_root st) [Normal ''manifests'']))) (\<lambda>repos.
     and_then (traverse (list_repo js st ls w) repos) (\<lambda>rows.
     Ok (sort_key (\<lambda>(repo, tag, _, _). (repo, tag)) (concat rows))))"

section \<open>Extracting layers\<close>

text \<open>An entry of the archive with the bytes of its path, or the error of reading it.\<close>

datatype tar_item = TarEntry "(string, string) result" nat | TarError string

record layer_io =
  xo_create_dir_all :: "nat \<Rightarrow> path \<Rightarrow> (unit, io_error) result"
  xo_exists :: "nat \<Rightarrow> path \<Rightarrow> bool"
  xo_open :: "nat \<Rightarrow> path \<Rightarrow> (bytes, io_error) result"
  xo_entries :: "bool \<Rightarrow> bytes \<Rightarrow> (tar_item list, string) result"
  xo_read_dir :: "nat \<Rightarrow> path \<Rightarrow> ((path \<times> bool) list, io_error) result"
  xo_remove_file :: "nat \<Rightarrow> path \<Rightarrow> bool"
  xo_remove_dir_all :: "nat \<Rightarrow> path \<Rightarrow> bool"
  xo_unpack :: "nat \<Rightarrow> nat \<Rightarrow> path \<Rightarrow> (unit, string) result"

datatype xaction = RemoveFile path | RemoveDirAll path | Unpack nat path path

record xhost =
  xh_io :: layer_io
  xh_calls :: nat
  xh_log :: "xaction list"

definition x_ask :: "(layer_io \<Rightarrow> nat \<Rightarrow> 'a) \<Rightarrow> xhost \<Rightarrow> 'a \<times> xhost" where
  "x_ask f w = (f (xh_io w) (xh_calls w), w\<lparr>xh_calls := Suc (xh_calls w)\<rparr>)"

definition x_act :: "xaction \<Rightarrow> (layer_io \<Rightarrow> nat \<Rightarrow> 'a) \<Rightarrow> xhost \<Rightarrow> 'a \<times> xhost" where
  "x_act a f w = x_ask f (w\<lparr>xh_log := xh_log w @ [a]\<rparr>)"

definition x_try :: "(layer_io \<Rightarrow> nat \<Rightarrow> ('a, 'e) result) \<Rightarrow> ('e \<Rightarrow> OciError) \<Rightarrow> xhost \<Rightarrow> ('a, OciError) result \<times> xhost" where
  "x_try f err w = (let (r, w) = x_ask f w in (map_err err r, w))"

definition is_gzip :: "path \<Rightarrow> xhost \<Rightarrow> (bool, OciError) result \<times> xhost" where
  "is_gzip p = st_then (x_try (\<lambda>io i. xo_open io i p) OciIo)
     (\<lambda>b. st_ok (2 \<le> length b \<and> b ! 0 = 0x1F \<and> b ! 1 = 0x8B))"

text \<open>The children of a directory with an opaque whiteout; errors are only logged.\<close>

fun remove_children :: "(path \<times> bool) list \<Rightarrow> xhost \<Rightarrow> xhost" where
  "remove_children [] w = w"
| "remove_children ((p, is_dir) # rest) w =
     remove_children rest
       (snd (if is_dir then x_act (RemoveDirAll p) (\<lambda>io i. xo_remove_dir_all io i p) w
             else x_act (RemoveFile p) (\<lambda>io i. xo_remove_file io i p) w))"

definition opaque_whiteout :: "path \<Rightarrow> xhost \<Rightarrow> (unit, OciError) result \<times> xhost" where
  "opaque_whiteout full_parent w =
     (let (found, w) = x_ask (\<lambda>io i. xo_exists io i full_parent) w in
      if \<not> found then (Ok (), w)
      else st_then (x_try (\<lambda>io i. xo_read_dir io i full_parent)
             (\<lambda>e. OciBlob (''opaque whiteout read_dir failed for '' @ display_path full_parent @ '': ''
                @ io_text e)))
           (\<lambda>children w. (Ok (), remove_children children w)) w)"

definition whiteout :: "path \<Rightarrow> xhost \<Rightarrow> (unit, OciError) result \<times> xhost" where
  "whiteout deleted_path w =
     (let (removed, w) = x_act (RemoveFile deleted_path) (\<lambda>io i. xo_remove_file io i deleted_path) w in
      if removed then (Ok (), w)
      else (Ok (), snd (x_act (RemoveDirAll deleted_path) (\<lambda>io i. xo_remove_dir_all io i deleted_path) w)))"

definition has_traversal :: "path \<Rightarrow> bool" where
  "has_traversal p = list_ex (\<lambda>c. c = ParentDir \<or> c = RootDir) p"

text \<open>The name a whiteout entry deletes, if the entry is one.\<close>

definition whiteout_name :: "path \<Rightarrow> string option" where
  "whiteout_name p =
     (case file_name p of None \<Rightarrow> None
      | Some f \<Rightarrow> Option.bind (from_utf8 (as_bytes f)) (strip_prefix ''.wh.''))"

definition extract_entry :: "path \<Rightarrow> tar_item \<Rightarrow> xhost \<Rightarrow> (unit, OciError) result \<times> xhost" where
  "extract_entry target item =
     (case item of
        TarError e \<Rightarrow> st_fail (OciBlob (''tar entry error: '' @ e))
      | TarEntry (Err e) _ \<Rightarrow> st_fail (OciBlob (''tar path error: '' @ e))
      | TarEntry (Ok path_str) entry \<Rightarrow>
        (let p = path_of path_str in
         case whiteout_name p of
           Some deleted_name \<Rightarrow>
             (case path_parent p of None \<Rightarrow> st_ok ()
              | Some parent \<Rightarrow>
                if deleted_name = ''.wh..opq'' then opaque_whiteout (path_join target parent)
                else whiteout (path_join (path_join target parent) (path_of deleted_name)))
         | None \<Rightarrow>
           if has_traversal p then st_ok ()
           else (\<lambda>w. let (r, w) = x_act (Unpack entry target p) (\<lambda>io i. xo_unpack io i entry target) w
                     in (map_err (\<lambda>e. OciBlob (''unpack error for '' @ from_utf8_lossy (as_bytes path_str)
                            @ '': '' @ e)) r, w))))"

definition extract_layer :: "ImageStore \<Rightarrow> path \<Rightarrow> string \<Rightarrow> xhost \<Rightarrow> (unit, OciError) result \<times> xhost" where
  "extract_layer st target digest w =
     (let blob = blob_path st digest; (found, w) = x_ask (\<lambda>io i. xo_exists io i blob) w in
      if \<not> found then (Err (OciBlob (''missing layer blob: '' @ digest)), w)
      else st_then (x_try (\<lambda>io i. xo_open io i blob) OciIo) (\<lambda>data.
           st_then (is_gzip blob) (\<lambda>gz.
           st_then (x_try (\<lambda>io _. xo_entries io gz data) (\<lambda>e. OciBlob (''tar read error: '' @ e))) (\<lambda>items.
           st_then (st_traverse (extract_entry target) items) (\<lambda>_. st_ok ())))) w)"

definition extract_layers ::
  "ImageStore \<Rightarrow> ImageManifest \<Rightarrow> path \<Rightarrow> xhost \<Rightarrow> (unit, OciError) result \<times> xhost" where
  "extract_layers st manifest target =
     st_then (x_try (\<lambda>io i. xo_create_dir_all io i target) OciIo) (\<lambda>_.
     st_then (st_traverse (extract_layer st target) (im_layer_digests manifest)) (\<lambda>_. st_ok ()))"

section \<open>Content addressing\<close>

text \<open>The names SHA-256 gives blobs, and the file a blob is kept in.\<close>

definition blob_name :: "string \<Rightarrow> bool" where
  "blob_name n \<longleftrightarrow> n \<noteq> [] \<and> CHR ''/'' \<notin> set n \<and> CHR ''.'' \<notin> set n"

definition blob_file :: "ImageStore \<Rightarrow> string \<Rightarrow> path" where
  "blob_file st n = store_root st @ [Normal ''blobs'', Normal ''sha256'', Normal n]"

text \<open>The invariant of the store: what is filed under a blob name hashes to that name.\<close>

definition cas_ok :: "(bytes \<Rightarrow> bytes) \<Rightarrow> ImageStore \<Rightarrow> fs \<Rightarrow> bool" where
  "cas_ok sha st w \<longleftrightarrow> store_root st \<noteq> [] \<and>
     (\<forall>n. blob_name n \<longrightarrow> blob_file st n \<notin> fs_dirs w
        \<and> (\<forall>b. fs_files w (blob_file st n) = Some b \<longrightarrow> bytes_hex (sha b) = n))"

lemma blob_path_file:
  assumes "store_root st \<noteq> []" "blob_name (digest_hash d)"
  shows "blob_path st d = blob_file st (digest_hash d)"
proof -
  have "hd (digest_hash d) \<noteq> CHR ''.''"
    using assms(2) by (auto simp: blob_name_def dest: hd_in_set)
  then have "path_of (digest_hash d) = [Normal (digest_hash d)]"
    using assms(2) by (simp add: path_of_plain_name blob_name_def)
  then show ?thesis
    using assms(1) by (simp add: blob_path_def blob_file_def path_join_def is_absolute_def)
qed

lemma blob_file_inject [simp]: "blob_file st n = blob_file st n' \<longleftrightarrow> n = n'"
  by (simp add: blob_file_def)

lemma hex_digit_code: "d < 16 \<Longrightarrow> 48 \<le> code (digit_char d)"
  by (simp add: digit_char_def)

lemma bytes_hex_chars: "c \<in> set (bytes_hex b) \<Longrightarrow> 48 \<le> code c"
proof -
  have "unat x < 2 ^ LENGTH(8)" for x :: u8 by (rule unsigned_less)
  then have "unat x div 16 < 16" for x :: u8 by (simp add: less_mult_imp_div_less)
  then have "\<forall>c \<in> set (byte_hex2 x). 48 \<le> code c" for x
    using hex_digit_code [of "unat x div 16"] hex_digit_code [of "unat x mod 16"] by (simp add: byte_hex2_def)
  then show "c \<in> set (bytes_hex b) \<Longrightarrow> 48 \<le> code c"
    by (auto simp: bytes_hex_def)
qed

lemma blob_name_hex: "b \<noteq> [] \<Longrightarrow> blob_name (bytes_hex b)"
  using bytes_hex_chars [of "CHR ''/''" b] bytes_hex_chars [of "CHR ''.''" b]
  by (cases b) (auto simp: blob_name_def bytes_hex_def byte_hex2_def)

text \<open>The temporary file has a name no blob has.\<close>

lemma blob_tmp_file:
  assumes "blob_name n"
  shows "with_extension (blob_file st n) ''tmp''
     = store_root st @ [Normal ''blobs'', Normal ''sha256'', Normal (n @ ''.tmp'')]"
  using assms rsplit_once_None [of "CHR ''.''" n]
  by (simp add: with_extension_def blob_file_def file_name_def file_stem_def blob_name_def butlast_append)

lemma cas_ok_files:
  assumes "cas_ok sha st w" "fs_dirs w' = fs_dirs w"
    "\<And>n. blob_name n \<Longrightarrow> fs_files w' (blob_file st n) = fs_files w (blob_file st n)"
  shows "cas_ok sha st w'"
  using assms by (simp add: cas_ok_def)

lemma bytes_hex_name: "length b = 32 \<Longrightarrow> blob_name (bytes_hex b)"
  by (rule blob_name_hex) auto

text \<open>Every outcome of \<open>put_blob\<close>: a blob is filed under the name it hashes to, or nothing changes
  under any blob name.\<close>

lemma put_blob_effect:
  assumes "put_blob sha st d b w = (r, w')"
  shows "fs_dirs w' = fs_dirs w \<and> fs_fault w' = fs_fault w \<and>
    (let t = with_extension (blob_path st d) ''tmp'' in
     case r of Err e \<Rightarrow> \<forall>q. q \<noteq> t \<longrightarrow> fs_files w' q = fs_files w q
     | Ok p \<Rightarrow> p = blob_path st d \<and> bytes_hex (sha b) = digest_hash d
         \<and> fs_files w' = (fs_files w)(t := None, p \<mapsto> b))"
  using assms fs_replace_effect [of "blob_path st d" b w]
  by (auto simp: put_blob_def Let_def split: if_splits prod.splits result.splits)

lemma put_blob_cases:
  assumes "put_blob sha st d b w = (r, w')" "store_root st \<noteq> []" "length (sha b) = 32"
  obtains
    (stored) "r = Ok (blob_file st (digest_hash d))" "blob_name (digest_hash d)"
      "bytes_hex (sha b) = digest_hash d" "fs_files w' (blob_file st (digest_hash d)) = Some b"
      "\<And>n. blob_name n \<Longrightarrow> n \<noteq> digest_hash d \<Longrightarrow> fs_files w' (blob_file st n) = fs_files w (blob_file st n)"
      "fs_dirs w' = fs_dirs w" "fs_fault w' = fs_fault w"
  | (refused) e where "r = Err e"
      "\<And>n. blob_name n \<Longrightarrow> fs_files w' (blob_file st n) = fs_files w (blob_file st n)"
      "fs_dirs w' = fs_dirs w" "fs_fault w' = fs_fault w"
proof (cases "bytes_hex (sha b) = digest_hash d")
  case False
  then show thesis using assms(1) refused by (auto simp: put_blob_def)
next
  case True
  then have n: "blob_name (digest_hash d)" using bytes_hex_name [OF assms(3)] by simp
  let ?p = "blob_file st (digest_hash d)" and ?t = "with_extension (blob_path st d) ''tmp''"
  have p: "blob_path st d = ?p" by (rule blob_path_file [OF assms(2) n])
  have "?t = store_root st @ [Normal ''blobs'', Normal ''sha256'', Normal (digest_hash d @ ''.tmp'')]"
    using p blob_tmp_file [OF n] by simp
  then have t: "blob_file st k \<noteq> ?t" if "blob_name k" for k
    using that by (auto simp: blob_name_def blob_file_def)
  note eff = put_blob_effect [OF assms(1), unfolded Let_def]
  show thesis
  proof (cases r)
    case (Ok q)
    then show thesis using eff n True t by (intro stored) (simp_all add: p)
  next
    case (Err e)
    then show thesis using eff t by (intro refused [of e]) simp_all
  qed
qed

lemma put_blob_keeps: "(\<And>b. length (sha b) = 32) \<Longrightarrow> keeps (cas_ok sha st) (put_blob sha st d b)"
proof (rule keepsI)
  fix w
  assume sha: "\<And>b. length (sha b) = 32" and inv: "cas_ok sha st w"
  then have root: "store_root st \<noteq> []" by (simp add: cas_ok_def)
  obtain r w' where put: "put_blob sha st d b w = (r, w')" by force
  from put root sha [of b] have "cas_ok sha st w'"
  proof (cases rule: put_blob_cases)
    case stored
    have "bytes_hex (sha x) = n" if "blob_name n" "fs_files w' (blob_file st n) = Some x" for n x
      using that stored(3,4) stored(5) [of n] inv by (cases "n = digest_hash d") (auto simp: cas_ok_def)
    then show ?thesis using inv stored(6) by (simp add: cas_ok_def)
  next
    case (refused e)
    then show ?thesis using cas_ok_files [OF inv] by blast
  qed
  then show "cas_ok sha st (snd (put_blob sha st d b w))" by (simp add: put)
qed

text \<open>Manifests live in another directory, whatever their image and tag are called.\<close>

lemma sanitize_name_no_slash: "CHR ''/'' \<notin> set (sanitize_name s)"
  by (auto simp: sanitize_name_def str_replace_char split: if_splits)

lemma manifest_component:
  assumes "CHR ''/'' \<notin> set s"
  shows "path_of s \<in> {[], [CurDir], [ParentDir], [Normal s]}"
proof -
  have "\<not> starts_with ''/'' s" using assms by (cases s) (auto simp: starts_with_iff)
  then show ?thesis by (auto simp: path_of_def str_split_no_sep [OF assms])
qed

lemma manifest_below:
  assumes "store_root st \<noteq> []"
  shows "\<exists>q. manifest_dir st img = store_root st @ Normal ''manifests'' # q"
    and "\<exists>q. manifest_path st img tag = store_root st @ Normal ''manifests'' # q"
proof -
  have "CHR ''/'' \<notin> set (sanitize_name tag @ ''.json'')" using sanitize_name_no_slash by simp
  then show "\<exists>q. manifest_dir st img = store_root st @ Normal ''manifests'' # q"
    and "\<exists>q. manifest_path st img tag = store_root st @ Normal ''manifests'' # q"
    using assms manifest_component [OF sanitize_name_no_slash [of img]] manifest_component [of "sanitize_name tag @ ''.json''"]
    by (auto simp: manifest_dir_def manifest_path_def path_join_def is_absolute_def)
qed

lemma blob_file_not_below: "\<not> prefix (blob_file st n) (store_root st @ Normal ''manifests'' # q)"
  by (simp add: blob_file_def)

lemma put_manifest_keeps: "keeps (cas_ok sha st) (put_manifest st img tag b)"
proof (rule keepsI)
  fix w
  assume inv: "cas_ok sha st w"
  then have root: "store_root st \<noteq> []" by (simp add: cas_ok_def)
  obtain q q' where q: "manifest_dir st img = store_root st @ Normal ''manifests'' # q"
    and q': "manifest_path st img tag = store_root st @ Normal ''manifests'' # q'"
    using manifest_below [OF root] by meson
  obtain r1 w1 where w1: "fs_create_dir_all (manifest_dir st img) w = (r1, w1)" by force
  then have files: "fs_files w1 = fs_files w" using fs_create_dir_all_files [of "manifest_dir st img" w] by simp
  have "blob_file st n \<in> fs_dirs w1 \<longleftrightarrow> blob_file st n \<in> fs_dirs w" for n
    using w1 blob_file_not_below [of st n q]
    by (auto simp: fs_create_dir_all_def q split: option.splits if_splits)
  with inv files have inv1: "cas_ok sha st w1" by (simp add: cas_ok_def)
  obtain r2 w2 where w2: "fs_write (manifest_path st img tag) b w1 = (r2, w2)" by force
  have "fs_files w2 (blob_file st n) = fs_files w1 (blob_file st n)" for n
    by (rule fs_write_other [OF w2]) (simp add: q' blob_file_def)
  then have "cas_ok sha st w2" using cas_ok_files [OF inv1 fs_write_dirs [OF w2]] by blast
  then show "cas_ok sha st (snd (put_manifest st img tag b w))"
    using inv1 w1 w2 by (cases r1; cases r2) (simp_all add: put_manifest_def)
qed

section \<open>The store over time\<close>

text \<open>Calls on the store in any order, between which the file system may start or stop failing
  in any way.\<close>

datatype store_op =
    PutBlob string bytes
  | PutManifest string string bytes
  | FsChanges "fs_op \<Rightarrow> path \<Rightarrow> io_error option" "path \<Rightarrow> bytes option"

fun store_step :: "(bytes \<Rightarrow> bytes) \<Rightarrow> ImageStore \<Rightarrow> store_op \<Rightarrow> fs \<Rightarrow> fs" where
  "store_step sha st (PutBlob d b) w = snd (put_blob sha st d b w)"
| "store_step sha st (PutManifest img tag b) w = snd (put_manifest st img tag b w)"
| "store_step sha st (FsChanges fault torn) w = w\<lparr>fs_fault := fault, fs_torn := torn\<rparr>"

definition store_run :: "(bytes \<Rightarrow> bytes) \<Rightarrow> ImageStore \<Rightarrow> store_op list \<Rightarrow> fs \<Rightarrow> fs" where
  "store_run sha st ops w = fold (store_step sha st) ops w"

lemma store_run_keeps:
  assumes "\<And>b. length (sha b) = 32" "cas_ok sha st w"
  shows "cas_ok sha st (store_run sha st ops w)"
  using assms(2) unfolding store_run_def
proof (induction ops arbitrary: w)
  case (Cons op ops)
  have "cas_ok sha st (store_step sha st op w)"
    using put_blob_keeps [OF assms(1)] put_manifest_keeps Cons.prems
    by (cases op) (auto simp: keeps_def cas_ok_def [of sha st "w\<lparr>fs_fault := _, fs_torn := _\<rparr>"] cas_ok_def [of sha st w])
  then show ?case using Cons.IH by simp
qed simp

definition store_empty :: "ImageStore \<Rightarrow> fs \<Rightarrow> bool" where
  "store_empty st w \<longleftrightarrow> (\<forall>n. fs_files w (blob_file st n) = None \<and> blob_file st n \<notin> fs_dirs w)"

lemma store_new_ok:
  assumes "store_new dir w = (Ok st, w')" "store_empty st w"
  shows "cas_ok sha st w'"
proof -
  let ?root = "path_join dir [Normal ''images'']"
  have root: "?root \<noteq> []" by (simp add: path_join_def is_absolute_def)
  let ?d1 = "path_join ?root [Normal ''blobs'', Normal ''sha256'']" and ?d2 = "path_join ?root [Normal ''manifests'']"
  obtain r1 w1 where w1: "fs_create_dir_all ?d1 w = (r1, w1)" by force
  obtain r2 w2 where w2: "fs_create_dir_all ?d2 w1 = (r2, w2)" by force
  have st: "store_root st = ?root" "w' = w2"
    using assms(1) w1 w2 by (cases r1; cases r2; auto simp: store_new_def)+
  have d: "?d1 = store_root st @ [Normal ''blobs'', Normal ''sha256'']" "?d2 = store_root st @ [Normal ''manifests'']"
    using root by (simp_all add: st path_join_def [of ?root] is_absolute_def)
  have "fs_files w2 = fs_files w"
    using w1 w2 fs_create_dir_all_files [of ?d1 w] fs_create_dir_all_files [of ?d2 w1] by simp
  moreover have "blob_file st n \<notin> fs_dirs w2" for n
    using create_dir_all_dirs [OF w2] create_dir_all_dirs [OF w1] assms(2)
    unfolding d store_empty_def by (fastforce simp: blob_file_def)
  ultimately show ?thesis using assms(2) root by (simp add: cas_ok_def st store_empty_def)
qed

lemma get_blob_hashes:
  assumes "cas_ok sha st w" "get_blob st d w = Ok b" "blob_name (digest_hash d)"
  shows "bytes_hex (sha b) = digest_hash d"
  using assms by (auto simp: get_blob_def fs_read_def blob_path_file cas_ok_def ok_or_def split: option.splits)

section \<open>The contract of a content-addressed store\<close>

text \<open>What a client that fills the store relies on: \<open>has\<close> and \<open>put\<close> of the store, the invariant, the
  digests that can name a blob, and when the blob of a digest is present and right.\<close>

locale content_store =
  fixes has :: "string \<Rightarrow> 's \<Rightarrow> bool"
    and put :: "string \<Rightarrow> bytes \<Rightarrow> 's \<Rightarrow> (path, 'e) result \<times> 's"
    and good :: "'s \<Rightarrow> bool"
    and verified :: "string \<Rightarrow> 's \<Rightarrow> bool"
  assumes put_keeps_good: "keeps good (put d b)"
    and put_Ok: "good s \<Longrightarrow> put d b s = (Ok p, s') \<Longrightarrow> verified d s'"
    and put_mono: "good s \<Longrightarrow> put d b s = (r, s') \<Longrightarrow> verified d' s \<Longrightarrow> verified d' s'"
    and has_verified: "good s \<Longrightarrow> blob_name (digest_hash d) \<Longrightarrow> has d s \<Longrightarrow> verified d s"
definition store_good :: "(bytes \<Rightarrow> bytes) \<Rightarrow> ImageStore \<Rightarrow> fs \<Rightarrow> bool" where
  "store_good sha st w \<longleftrightarrow> (\<forall>b. length (sha b) = 32) \<and> cas_ok sha st w"

definition blob_verified :: "(bytes \<Rightarrow> bytes) \<Rightarrow> ImageStore \<Rightarrow> string \<Rightarrow> fs \<Rightarrow> bool" where
  "blob_verified sha st d w \<longleftrightarrow> (\<exists>b. fs_files w (blob_file st (digest_hash d)) = Some b
     \<and> bytes_hex (sha b) = digest_hash d)"

lemma blob_verified_name:
  "store_good sha st w \<Longrightarrow> blob_verified sha st d w \<Longrightarrow> blob_name (digest_hash d)"
  using bytes_hex_name unfolding store_good_def blob_verified_def by metis

interpretation cas: content_store "has_blob st" "put_blob sha st" "store_good sha st" "blob_verified sha st"
  for sha st
proof
  fix d b s p s' r d'
  show "keeps (store_good sha st) (put_blob sha st d b)"
    using put_blob_keeps [of sha st d b] by (auto simp: keeps_def store_good_def)
  have root: "store_root st \<noteq> []" if "store_good sha st s" using that by (simp add: store_good_def cas_ok_def)
  have sha: "length (sha b) = 32" if "store_good sha st s" using that by (simp add: store_good_def)
  show "blob_verified sha st d s'" if "store_good sha st s" "put_blob sha st d b s = (Ok p, s')"
    using that(2) root [OF that(1)] sha [OF that(1)]
    by (cases rule: put_blob_cases) (auto simp: blob_verified_def)
  show "blob_verified sha st d' s'"
    if "store_good sha st s" "put_blob sha st d b s = (r, s')" "blob_verified sha st d' s"
    using that(2) root [OF that(1)] sha [OF that(1)]
  proof (cases rule: put_blob_cases)
    case stored
    then show ?thesis
      using that(3) blob_verified_name [OF that(1,3)]
      by (cases "digest_hash d' = digest_hash d") (auto simp: blob_verified_def)
  next
    case (refused e)
    then show ?thesis using that(3) blob_verified_name [OF that(1,3)] by (auto simp: blob_verified_def)
  qed
  show "blob_verified sha st d s" if "store_good sha st s" "blob_name (digest_hash d)" "has_blob st d s"
    using that root [OF that(1)]
    by (auto simp: has_blob_def blob_path_file fs_exists_def fs_is_dir_def store_good_def cas_ok_def
        blob_verified_def) (auto simp: blob_file_def)
qed

section \<open>What the store guarantees\<close>

text \<open>C14: the store is content-addressed.  Take a store made on an empty directory and any sequence
  of \<open>put_blob\<close> and \<open>put_manifest\<close> calls, in which any file system call may fail and any failed write
  may leave any bytes behind.  What \<open>get_blob\<close> then returns for a digest hashes to that digest: no
  failure can leave a wrong blob under a digest.  (The name of the digest has no dot and no
  separator, as hexadecimal has none.)\<close>

theorem store_content_addressed:
  assumes "\<And>b. length (sha b) = 32"
    and "store_new data_dir w = (Ok st, w1)" "store_empty st w"
    and "blob_name (digest_hash d)" "get_blob st d (store_run sha st ops w1) = Ok b"
  shows "bytes_hex (sha b) = digest_hash d"
  using get_blob_hashes [OF store_run_keeps [OF assms(1) store_new_ok [OF assms(2,3)]] assms(5,4)] .

text \<open>C19: what is put is what is got.  A \<open>put_blob\<close> that succeeds was given bytes that hash to the
  digest; the store then has the blob, returns exactly those bytes for it, and every other blob is
  as it was.  A \<open>put_blob\<close> that fails, for a wrong digest or in any of its file system calls,
  leaves every blob as it was.\<close>

theorem put_blob_outcome:
  assumes "put_blob sha st d b w = (r, w')" "store_root st \<noteq> []" "length (sha b) = 32"
    and "\<And>p. fs_fault w FsRead p = None"
  shows "case r of
      Ok p \<Rightarrow> bytes_hex (sha b) = digest_hash d \<and> p = blob_path st d
        \<and> has_blob st d w' \<and> get_blob st d w' = Ok b
        \<and> (\<forall>d'. blob_name (digest_hash d') \<and> digest_hash d' \<noteq> digest_hash d \<longrightarrow>
             get_blob st d' w' = get_blob st d' w)
    | Err e \<Rightarrow> \<forall>d'. blob_name (digest_hash d') \<longrightarrow> get_blob st d' w' = get_blob st d' w"
  using assms(1-3)
proof (cases rule: put_blob_cases)
  case stored
  then show ?thesis
    using assms(2,4) by (auto simp: get_blob_def has_blob_def fs_exists_def fs_read_def fs_is_dir_def blob_path_file)
next
  case (refused e)
  then show ?thesis
    using assms(2,4) by (auto simp: get_blob_def fs_read_def fs_is_dir_def blob_path_file)
qed

text \<open>A store on an empty disk, with a hash that has the length of SHA-256.\<close>

definition toy_sha :: "bytes \<Rightarrow> bytes" where
  "toy_sha b = replicate 31 0 @ [of_nat (length b)]"

definition toy_digest :: string where
  "toy_digest = ''sha256:00000000000000000000000000000000000000000000000000000000000000'' @ ''02''"

definition toy_store :: ImageStore where
  "toy_store = \<lparr>store_root = [RootDir, Normal ''data'', Normal ''images'']\<rparr>"

lemma toy_hash: "digest_hash toy_digest = bytes_hex (toy_sha [7, 8])" "blob_name (digest_hash toy_digest)"
  by code_simp+

lemma toy_sha_length: "length (toy_sha b) = 32"
  by (simp add: toy_sha_def)

definition toy_fs :: fs where
  "toy_fs = quiet_fs\<lparr>fs_dirs := set (prefixes (store_root toy_store @ [Normal ''blobs'', Normal ''sha256'']))
     \<union> set (prefixes (store_root toy_store @ [Normal ''manifests'']))\<rparr>"

lemma toy_new: "store_new [RootDir, Normal ''data''] quiet_fs = (Ok toy_store, toy_fs)"
  by (simp add: store_new_def fs_create_dir_all_def quiet_fs_def toy_store_def toy_fs_def path_join_def
      is_absolute_def Let_def insert_commute)

lemma toy_put:
  "\<exists>w. put_blob toy_sha toy_store toy_digest [7, 8] toy_fs = (Ok (blob_path toy_store toy_digest), w)
     \<and> fs_files w (blob_path toy_store toy_digest) = Some [7, 8] \<and> fs_fault w FsRead = (\<lambda>_. None)"
proof -
  have root: "store_root toy_store \<noteq> []" by (simp add: toy_store_def)
  note p = blob_path_file [OF root toy_hash(2)]
  have tmp: "with_extension (blob_path toy_store toy_digest) ''tmp''
      = store_root toy_store @ [Normal ''blobs'', Normal ''sha256'', Normal (digest_hash toy_digest @ ''.tmp'')]"
    unfolding p by (rule blob_tmp_file [OF toy_hash(2)])
  have "is_ok (fst (put_blob toy_sha toy_store toy_digest [7, 8] toy_fs))"
    unfolding put_blob_def fs_replace_def Let_def unfolding tmp unfolding p
    by (simp add: toy_hash(1) [symmetric] blob_file_def toy_fs_def quiet_fs_def toy_store_def
        fs_write_def fs_is_dir_def parent_ready_def path_parent_def fs_open_def fs_sync_def fs_rename_def)
  then obtain q w where put: "put_blob toy_sha toy_store toy_digest [7, 8] toy_fs = (Ok q, w)"
    by (metis is_ok_iff prod.collapse)
  show ?thesis
    using put put_blob_effect [OF put] by (auto simp: Let_def toy_fs_def quiet_fs_def)
qed

theorem put_blob_outcome_witness:
  "\<exists>w. has_blob toy_store toy_digest w \<and> get_blob toy_store toy_digest w = Ok [7, 8]"
proof -
  obtain w where "put_blob toy_sha toy_store toy_digest [7, 8] toy_fs = (Ok (blob_path toy_store toy_digest), w)"
    using toy_put by blast
  from put_blob_outcome [OF this] show ?thesis
    using toy_sha_length by (auto simp: toy_store_def toy_fs_def quiet_fs_def)
qed

theorem store_content_addressed_witness:
  "\<exists>st w b. store_new [RootDir, Normal ''data''] quiet_fs = (Ok st, w)
     \<and> get_blob st toy_digest (store_run toy_sha st [PutBlob toy_digest [7, 8]] w) = Ok b
     \<and> bytes_hex (toy_sha b) = digest_hash toy_digest"
proof -
  have empty: "store_empty toy_store quiet_fs" by (simp add: store_empty_def quiet_fs_def)
  have "get_blob toy_store toy_digest (store_run toy_sha toy_store [PutBlob toy_digest [7, 8]] toy_fs) = Ok [7, 8]"
    using toy_put by (auto simp: store_run_def get_blob_def fs_read_def)
  from store_content_addressed [OF toy_sha_length toy_new empty toy_hash(2) this] this toy_new show ?thesis by blast
qed

section \<open>Where extraction reaches\<close>

text \<open>A path strictly below the target, by names only.\<close>

definition below :: "path \<Rightarrow> path \<Rightarrow> bool" where
  "below target p \<longleftrightarrow> (\<exists>r. r \<noteq> [] \<and> p = target @ map Normal r)"

text \<open>Where a removal lands.  \<open>real\<close> is the directory that the kernel reaches by a path and \<open>is_link\<close> says
  which paths are symbolic links; a name that is none is found in the directory it is in.  The
  last component of a path that is removed is not followed.\<close>

definition kernel_lookup :: "(path \<Rightarrow> path) \<Rightarrow> (path \<Rightarrow> bool) \<Rightarrow> bool" where
  "kernel_lookup real is_link \<longleftrightarrow> (\<forall>d n. \<not> is_link (d @ [Normal n]) \<longrightarrow> real (d @ [Normal n]) = real d @ [Normal n])"

definition lands :: "(path \<Rightarrow> path) \<Rightarrow> path \<Rightarrow> path" where
  "lands real p = real (butlast p) @ [last p]"

definition link_on_way :: "(path \<Rightarrow> bool) \<Rightarrow> path \<Rightarrow> path \<Rightarrow> bool" where
  "link_on_way is_link target p \<longleftrightarrow> (\<exists>q. strict_prefix target q \<and> strict_prefix q p \<and> is_link q)"

fun removes :: "xaction \<Rightarrow> path option" where
  "removes (RemoveFile p) = Some p"
| "removes (RemoveDirAll p) = Some p"
| "removes (Unpack _ _ _) = None"

lemma real_below:
  assumes "kernel_lookup real is_link" "\<not> link_on_way is_link target (target @ map Normal (ns @ [m]))"
  shows "real (target @ map Normal ns) = real target @ map Normal ns"
  using assms(2)
proof (induction ns arbitrary: m rule: rev_induct)
  case (snoc n ns)
  have "\<not> link_on_way is_link target (target @ map Normal (ns @ [n]))"
    using snoc.prems unfolding link_on_way_def
    by (metis append.assoc map_append prefix_order.less_le_trans prefixI)
  then have IH: "real (target @ map Normal ns) = real target @ map Normal ns" by (rule snoc.IH)
  let ?q = "(target @ map Normal ns) @ [Normal n]"
  have "strict_prefix target ?q" "strict_prefix ?q (target @ map Normal ((ns @ [n]) @ [m]))"
    by (simp_all add: strict_prefix_def)
  then have "\<not> is_link ?q" using snoc.prems by (auto simp: link_on_way_def)
  then have "real ?q = real (target @ map Normal ns) @ [Normal n]" using assms(1) unfolding kernel_lookup_def by blast
  then show ?case using IH by simp
qed simp

lemma lands_below:
  assumes "below target p" "kernel_lookup real is_link" "\<not> link_on_way is_link target p"
  shows "below (real target) (lands real p)"
proof -
  obtain r where r: "r \<noteq> []" "p = target @ map Normal r" using assms(1) by (auto simp: below_def)
  then obtain ns m where "r = ns @ [m]" by (metis rev_exhaust)
  then have "lands real p = real target @ map Normal (ns @ [m])"
    using r real_below [of real is_link target ns m] assms(2,3) by (simp add: lands_def butlast_append)
  then show ?thesis unfolding below_def by blast
qed

fun confined :: "path \<Rightarrow> xaction \<Rightarrow> bool" where
  "confined target (RemoveFile p) = below target p"
| "confined target (RemoveDirAll p) = below target p"
| "confined target (Unpack _ t p) = (t = target \<and> \<not> has_traversal p)"

text \<open>A whiteout entry that names something inside the directory it is in.\<close>

definition clean_item :: "tar_item \<Rightarrow> bool" where
  "clean_item item \<longleftrightarrow> (case item of TarEntry (Ok s) _ \<Rightarrow>
       (case whiteout_name (path_of s) of None \<Rightarrow> True
        | Some n \<Rightarrow> \<not> has_traversal (path_of s) \<and> n \<noteq> [] \<and> n \<noteq> ''.'' \<and> n \<noteq> ''..'')
     | _ \<Rightarrow> True)"

text \<open>What is relied on of the archive and of \<open>read_dir\<close>.\<close>

definition clean_layers :: "layer_io \<Rightarrow> bool" where
  "clean_layers io \<longleftrightarrow>
     (\<forall>gz data items. xo_entries io gz data = Ok items \<longrightarrow> list_all clean_item items)
     \<and> (\<forall>i p cs. xo_read_dir io i p = Ok cs \<longrightarrow> (\<forall>(q, d) \<in> set cs. \<exists>n. q = p @ [Normal n]))"

definition x_confined :: "layer_io \<Rightarrow> path \<Rightarrow> xhost \<Rightarrow> bool" where
  "x_confined io target w \<longleftrightarrow> xh_io w = io \<and> list_all (confined target) (xh_log w)"

lemma keeps_x_try [intro]: "keeps (x_confined io target) (x_try f e)"
  by (auto simp: keeps_def x_confined_def x_try_def x_ask_def)

lemma keeps_x_act: "confined target a \<Longrightarrow> x_confined io target w \<Longrightarrow> x_confined io target (snd (x_act a f w))"
  by (simp add: x_confined_def x_act_def x_ask_def)

lemma x_confined_ask: "x_ask f w = (r, w') \<Longrightarrow> x_confined io target w \<Longrightarrow> x_confined io target w'"
  by (auto simp: x_confined_def x_ask_def)

lemma remove_children_confined:
  "\<forall>(q, d) \<in> set cs. below target q \<Longrightarrow> x_confined io target w \<Longrightarrow> x_confined io target (remove_children cs w)"
proof (induction cs arbitrary: w)
  case (Cons c cs)
  then show ?case by (cases c) (simp add: keeps_x_act)
qed simp

text \<open>The directory of a clean entry, seen from the target.\<close>

lemma parent_below:
  assumes "target \<noteq> []" "\<not> has_traversal p" "path_parent p = Some q"
  shows "\<exists>r. path_join target q = target @ map Normal r"
proof -
  have "\<not> has_traversal q"
    using assms(2,3) by (auto simp: has_traversal_def path_parent_def list_ex_iff split: if_splits dest: in_set_butlastD)
  moreover have "\<exists>n. c = Normal n" if "c \<noteq> CurDir" "c \<noteq> ParentDir" "c \<noteq> RootDir" for c
    using that by (cases c) auto
  ultimately have "\<forall>c \<in> set (filter (\<lambda>c. c \<noteq> CurDir) q). \<exists>n. c = Normal n"
    by (auto simp: has_traversal_def list_ex_iff)
  then have "\<exists>r. filter (\<lambda>c. c \<noteq> CurDir) q = map Normal r" by (metis ex_map_conv)
  moreover have "path_join target q = target @ filter (\<lambda>c. c \<noteq> CurDir) q"
    using assms(1) \<open>\<not> has_traversal q\<close>
    by (auto simp: path_join_def is_absolute_def has_traversal_def split: list.splits component.splits)
  ultimately show ?thesis by auto
qed

lemma below_child: "d = target @ map Normal r \<Longrightarrow> below target (d @ [Normal n])"
  unfolding below_def by (rule exI [of _ "r @ [n]"]) simp

lemma whiteout_path_of:
  assumes "whiteout_name (path_of s) = Some n" "n \<noteq> []" "n \<noteq> ''.''" "n \<noteq> ''..''"
  shows "path_of n = [Normal n]"
proof -
  obtain f t where "file_name (path_of s) = Some f" "from_utf8 (as_bytes f) = Some t" "t = ''.wh.'' @ n"
    using assms(1) by (auto simp: whiteout_name_def strip_prefix_Some_iff split: option.splits Option.bind_splits)
  moreover have "Normal f \<in> set (path_of s)"
    using calculation(1) last_in_set by (fastforce simp: file_name_def split: if_splits component.splits)
  ultimately have "CHR ''/'' \<notin> set n" using path_of_pieces from_utf8_id by fastforce
  moreover from this have "\<not> starts_with ''/'' n" by (cases n) (auto simp: starts_with_iff)
  ultimately show ?thesis using assms(2-4) by (simp add: path_of_def str_split_no_sep)
qed

lemma opaque_whiteout_confined:
  assumes "clean_layers io" "d = target @ map Normal r"
  shows "keeps (x_confined io target) (opaque_whiteout d)"
proof (rule keepsI)
  fix w
  assume inv: "x_confined io target w"
  obtain found w1 where w1: "x_ask (\<lambda>io i. xo_exists io i d) w = (found, w1)" by force
  note inv1 = x_confined_ask [OF w1 inv]
  let ?err = "\<lambda>e. OciBlob (''opaque whiteout read_dir failed for '' @ display_path d @ '': '' @ io_text e)"
  obtain cs w2 where w2: "x_try (\<lambda>io i. xo_read_dir io i d) ?err w1 = (cs, w2)" by force
  have inv2: "x_confined io target w2" using keepsD [OF keeps_x_try w2 inv1] .
  have "x_confined io target (remove_children xs w2)" if "cs = Ok xs" for xs
  proof (rule remove_children_confined [OF _ inv2])
    have "xo_read_dir io (xh_calls w1) d = Ok xs"
      using w2 that inv1 by (auto simp: x_try_def x_ask_def x_confined_def)
    then have "\<forall>(q, b) \<in> set xs. \<exists>n. q = d @ [Normal n]" using assms(1) by (simp add: clean_layers_def)
    then show "\<forall>(q, b) \<in> set xs. below target q" using below_child [OF assms(2)] by fastforce
  qed
  then show "x_confined io target (snd (opaque_whiteout d w))"
    using inv1 inv2 w1 w2 by (cases cs) (auto simp: opaque_whiteout_def st_then_def)
qed

lemma whiteout_confined:
  "below target d \<Longrightarrow> keeps (x_confined io target) (whiteout d)"
  by (rule keepsI) (auto simp: whiteout_def x_act_def x_ask_def x_confined_def)

lemma extract_entry_confined:
  assumes "clean_layers io" "clean_item item" "target \<noteq> []"
  shows "keeps (x_confined io target) (extract_entry target item)"
proof (cases "\<exists>s e. item = TarEntry (Ok s) e")
  case False
  then show ?thesis
    by (cases item rule: tar_item.exhaust [case_names entry bad])
      (auto simp: extract_entry_def keeps_def split: result.splits)
next
  case True
  then obtain s e where item: "item = TarEntry (Ok s) e" by blast
  let ?p = "path_of s"
  show ?thesis
  proof (cases "whiteout_name ?p")
    case None
    then show ?thesis
      using keeps_x_act [of target "Unpack e target ?p" io] by (auto simp: extract_entry_def item keeps_def Let_def case_prod_beta)
  next
    case (Some n)
    then have clean: "\<not> has_traversal ?p" and n: "n \<noteq> []" "n \<noteq> ''.''" "n \<noteq> ''..''"
      using assms(2) by (auto simp: clean_item_def item)
    show ?thesis
    proof (cases "path_parent ?p")
      case None
      then show ?thesis using Some by (auto simp: extract_entry_def item keeps_def)
    next
      case parent: (Some q)
      obtain r where r: "path_join target q = target @ map Normal r"
        using parent_below [OF assms(3) clean parent] by blast
      have "path_join (path_join target q) (path_of n) = (target @ map Normal r) @ [Normal n]"
        using assms(3) by (simp add: r whiteout_path_of [OF Some n])
      then show ?thesis
        using opaque_whiteout_confined [OF assms(1) r] whiteout_confined [OF below_child [OF refl]]
          Some parent by (simp add: extract_entry_def item)
    qed
  qed
qed

lemma extract_layer_confined:
  assumes "clean_layers io" "target \<noteq> []"
  shows "keeps (x_confined io target) (extract_layer st target digest)"
proof (rule keepsI)
  fix w
  assume inv: "x_confined io target w"
  let ?b = "blob_path st digest"
  obtain found w1 where w1: "x_ask (\<lambda>io i. xo_exists io i ?b) w = (found, w1)" by force
  have items: "keeps (x_confined io target)
      (st_then (x_try (\<lambda>io _. xo_entries io gz data) f) (\<lambda>items. st_then (st_traverse (extract_entry target) items) (\<lambda>_. st_ok ())))" for gz data f
  proof (rule keeps_then_with [where Q = "list_all clean_item"])
    show "list_all clean_item xs" if "x_confined io target s" "x_try (\<lambda>io _. xo_entries io gz data) f s = (Ok xs, s1)" for xs s s1
      using assms(1) that by (auto simp: clean_layers_def x_try_def x_ask_def x_confined_def)
    show "keeps (x_confined io target) (st_then (st_traverse (extract_entry target) xs) (\<lambda>_. st_ok ()))"
      if "list_all clean_item xs" for xs
      using extract_entry_confined [OF assms(1) _ assms(2)] that by (auto simp: list_all_iff)
  qed auto
  have gz: "keeps (x_confined io target) (is_gzip ?b)" unfolding is_gzip_def by auto
  have "keeps (x_confined io target)
      (st_then (x_try (\<lambda>io i. xo_open io i ?b) OciIo) (\<lambda>data. st_then (is_gzip ?b) (\<lambda>gz.
        st_then (x_try (\<lambda>io _. xo_entries io gz data) (\<lambda>e. OciBlob (''tar read error: '' @ e))) (\<lambda>items.
        st_then (st_traverse (extract_entry target) items) (\<lambda>_. st_ok ())))))"
    by (intro keeps_then items gz keeps_x_try)
  then show "x_confined io target (snd (extract_layer st target digest w))"
    using x_confined_ask [OF w1 inv] w1 by (cases found) (simp_all add: extract_layer_def keeps_def Let_def)
qed

lemma extract_layers_confined:
  assumes "clean_layers io" "target \<noteq> []"
  shows "keeps (x_confined io target) (extract_layers st manifest target)"
  unfolding extract_layers_def using extract_layer_confined [OF assms] by (intro keeps_then keeps_traverse keeps_x_try keeps_ok)


text \<open>A layer that unpacks a symbolic link \<open>a\<close> to the root directory, followed by the whiteout \<open>a/.wh.etc\<close>,
  removes \<open>/etc\<close> of the host: the path handed to the removal is below the target, but the kernel follows
  the link.\<close>

theorem whiteout_follows_link:
  assumes "real (target @ [Normal ''a'']) = [RootDir]" "target \<noteq> []"
  shows "\<exists>p. hd (drop (length (xh_log w))
      (xh_log (snd (extract_entry target (TarEntry (Ok ''a/.wh.etc'') e) w)))) = RemoveFile p
    \<and> below target p \<and> lands real p = [RootDir, Normal ''etc'']"
proof -
  have n: "whiteout_name (path_of ''a/.wh.etc'') = Some ''etc''" "path_parent (path_of ''a/.wh.etc'') = Some [Normal ''a'']"
    "path_of ''etc'' = [Normal ''etc'']"
    by code_simp+
  let ?p = "target @ [Normal ''a'', Normal ''etc'']"
  have "path_join (path_join target [Normal ''a'']) (path_of ''etc'') = ?p"
    using assms(2) by (simp add: n path_join_def is_absolute_def)
  then have "hd (drop (length (xh_log w))
      (xh_log (snd (extract_entry target (TarEntry (Ok ''a/.wh.etc'') e) w)))) = RemoveFile ?p"
    by (simp add: extract_entry_def n whiteout_def x_act_def x_ask_def Let_def)
  moreover have "below target ?p" unfolding below_def by (rule exI [of _ "[''a'', ''etc'']"]) simp
  moreover have "lands real ?p = [RootDir, Normal ''etc'']" using assms(1) by (simp add: lands_def butlast_append)
  ultimately show ?thesis by blast
qed

text \<open>C40: a whiteout entry can delete outside the target.  Whiteouts are handled before the check for
  path traversal: an absolute entry \<open>/d/.wh.f\<close> deletes \<open>/d/f\<close> of the host and \<open>../.wh.f\<close> deletes in the
  target's parent, whatever the target is; and an entry named just \<open>.wh.\<close> deletes the directory it
  is in with all its contents.\<close>

theorem whiteout_escapes:
  assumes "whiteout_name (path_of s) = Some n" "path_parent (path_of s) = Some q"
    and "n \<noteq> ''.''" "n \<noteq> ''..''" "n \<noteq> ''.wh..opq''" "target \<noteq> []"
    and "extract_entry target (TarEntry (Ok s) e) w = (r, w')"
  shows "r = Ok () \<and> (\<exists>p. (n = [] \<longrightarrow> p = path_join target q) \<and> (n \<noteq> [] \<longrightarrow> p = path_join target q @ [Normal n])
     \<and> (is_absolute q \<longrightarrow> path_join target q = q)
     \<and> (q = [ParentDir] \<longrightarrow> path_join target q = target @ [ParentDir])
     \<and> xh_log w' = xh_log w @ RemoveFile p #
          (if xo_remove_file (xh_io w) (xh_calls w) p then [] else [RemoveDirAll p]))"
proof -
  let ?p = "path_join (path_join target q) (path_of n)"
  have d: "path_join target q \<noteq> []" using assms(6) by (auto simp: path_join_def is_absolute_def)
  have "(n = [] \<longrightarrow> ?p = path_join target q) \<and> (n \<noteq> [] \<longrightarrow> ?p = path_join target q @ [Normal n])"
  proof (cases "n = []")
    case True
    then show ?thesis using d by (simp add: path_of_def path_join_def is_absolute_def starts_with_def)
  next
    case False
    then show ?thesis using d by (simp add: whiteout_path_of [OF assms(1) False assms(3,4)])
  qed
  moreover have "r = Ok () \<and> xh_log w' = xh_log w @ RemoveFile ?p #
      (if xo_remove_file (xh_io w) (xh_calls w) ?p then [] else [RemoveDirAll ?p])"
    using assms(1,2,5,7)
    by (auto simp: extract_entry_def whiteout_def x_act_def x_ask_def Let_def split: if_splits)
  moreover have "is_absolute q \<longrightarrow> path_join target q = q"
    "q = [ParentDir] \<longrightarrow> path_join target q = target @ [ParentDir]"
    using assms(6) by (simp_all add: path_join_def is_absolute_def)
  ultimately show ?thesis by blast
qed

text \<open>A layer with a file and a whiteout, and one with two malicious whiteouts.\<close>

definition layer_host :: "string list \<Rightarrow> xhost" where
  "layer_host names = \<lparr>xh_io = \<lparr>xo_create_dir_all = (\<lambda>_ _. Ok ()), xo_exists = (\<lambda>_ _. True),
     xo_open = (\<lambda>_ _. Ok []), xo_entries = (\<lambda>_ _. Ok (map (\<lambda>s. TarEntry (Ok s) 0) names)),
     xo_read_dir = (\<lambda>_ p. Ok [(p @ [Normal ''x''], False)]), xo_remove_file = (\<lambda>_ _. True), xo_remove_dir_all = (\<lambda>_ _. True),
     xo_unpack = (\<lambda>_ _ _. Ok ())\<rparr>, xh_calls = 0, xh_log = []\<rparr>"

definition linked_root :: "path \<Rightarrow> path" where
  "linked_root p = (if take 2 p = [RootDir, Normal ''r''] then [RootDir, Normal ''srv''] @ drop 2 p else p)"


theorem whiteout_escapes_witness:
  "xh_log (snd (extract_entry [RootDir, Normal ''r''] (TarEntry (Ok ''/etc/.wh.passwd'') 0) (layer_host [])))
     = [RemoveFile [RootDir, Normal ''etc'', Normal ''passwd'']]"
proof -
  obtain r w' where w': "extract_entry [RootDir, Normal ''r''] (TarEntry (Ok ''/etc/.wh.passwd'') 0) (layer_host []) = (r, w')"
    by force
  have "whiteout_name (path_of ''/etc/.wh.passwd'') = Some ''passwd''"
    "path_parent (path_of ''/etc/.wh.passwd'') = Some [RootDir, Normal ''etc'']"
    by code_simp+
  from whiteout_escapes [OF this _ _ _ _ w']
  have "xh_log w' = [RemoveFile [RootDir, Normal ''etc'', Normal ''passwd'']]"
    by (auto simp: layer_host_def is_absolute_def)
  then show ?thesis by (simp add: w')
qed

end
