(* ===== verification/Http.thy ===== *)
theory Http
  imports Host
begin

text \<open>
  Requests over HTTP as \<open>reqwest\<close> makes them: the request of number \<open>i\<close> is answered by \<open>nw_get\<close>, which
  is a parameter, and every request is recorded with the headers the code sets.  A computation
  over the network also sees a file system.
\<close>

record request =
  rq_url :: string
  rq_accept :: "string option"
  rq_authorization :: "string option"

text \<open>\<open>WWW-Authenticate\<close>, when present, is the answer of \<open>to_str\<close> on the header; \<open>hr_text\<close> is the body as
  text and \<open>hr_status_text\<close> the status as it is printed.\<close>

record http_response =
  hr_status :: nat
  hr_status_text :: string
  hr_www_authenticate :: "(string, string) result option"
  hr_body :: "(bytes, string) result"
  hr_text :: "(string, string) result"

record net =
  nw_get :: "nat \<Rightarrow> request \<Rightarrow> (http_response, string) result"
  nw_log :: "request list"
  nw_fs :: fs

type_synonym ('a, 'e) net_op = "net \<Rightarrow> ('a, 'e) result \<times> net"

definition send :: "request \<Rightarrow> net \<Rightarrow> (http_response, string) result \<times> net" where
  "send rq w = (nw_get w (length (nw_log w)) rq, w\<lparr>nw_log := nw_log w @ [rq]\<rparr>)"

definition is_success :: "http_response \<Rightarrow> bool" where
  "is_success resp \<longleftrightarrow> 200 \<le> hr_status resp \<and> hr_status resp < 300"

text \<open>A file system call within such a computation.\<close>

definition lift_fs :: "(fs \<Rightarrow> ('a, 'e) result \<times> fs) \<Rightarrow> ('a, 'e) net_op" where
  "lift_fs f w = (let (r, s) = f (nw_fs w) in (r, w\<lparr>nw_fs := s\<rparr>))"

section \<open>What a computation sends\<close>

text \<open>A computation that only makes requests, all of them with a property.\<close>

definition sent :: "(request \<Rightarrow> bool) \<Rightarrow> net \<Rightarrow> net \<Rightarrow> bool" where
  "sent Q w w' \<longleftrightarrow> nw_fs w' = nw_fs w \<and> (\<exists>l. nw_log w' = nw_log w @ l \<and> list_all Q l)"

definition sends :: "(request \<Rightarrow> bool) \<Rightarrow> ('a, 'e) net_op \<Rightarrow> bool" where
  "sends Q f \<longleftrightarrow> (\<forall>w. sent Q w (snd (f w)))"

lemma sent_refl [simp]: "sent Q w w"
  by (simp add: sent_def)

lemma sent_trans: "sent Q w w1 \<Longrightarrow> sent Q w1 w2 \<Longrightarrow> sent Q w w2"
  by (auto simp: sent_def)

lemma sent_send: "Q rq \<Longrightarrow> send rq w = (r, w') \<Longrightarrow> sent Q w w'"
  by (auto simp: sent_def send_def)

lemma sends_pure: "sends Q (\<lambda>w. (r, w))" "sends Q (st_ok x)" "sends Q (st_fail e)"
  by (simp_all add: sends_def)

lemma sends_then:
  assumes "sends Q f" "\<And>x. sends Q (g x)"
  shows "sends Q (st_then f g)"
  unfolding sends_def
proof
  fix w
  obtain r w1 where r: "f w = (r, w1)" by force
  have "sent Q w w1" using assms(1) r by (metis sends_def snd_conv)
  moreover have "sent Q w1 (snd (g x w1))" for x using assms(2) by (simp add: sends_def)
  ultimately show "sent Q w (snd (st_then f g w))" using r sent_trans by (cases r) auto
qed

lemma sends_keeps:
  assumes "sends Q f"
  shows "keeps (\<lambda>w. list_all Q (nw_log w)) f" "keeps (\<lambda>w. P (nw_fs w)) f"
proof -
  have "sent Q w (snd (f w))" for w using assms by (simp add: sends_def)
  then show "keeps (\<lambda>w. list_all Q (nw_log w)) f" "keeps (\<lambda>w. P (nw_fs w)) f"
    by (auto simp: keeps_def sent_def) (metis list_all_append)
qed

lemma sends_extends:
  assumes "sends Q f"
  shows "keeps (\<lambda>w. \<exists>l. nw_log w = base @ l \<and> list_all Q l) f"
proof (rule keepsI)
  fix w :: net
  assume "\<exists>l. nw_log w = base @ l \<and> list_all Q l"
  moreover have "sent Q w (snd (f w))" using assms by (simp add: sends_def)
  ultimately show "\<exists>l. nw_log (snd (f w)) = base @ l \<and> list_all Q l" by (auto simp: sent_def)
qed

lemma lift_fs_keeps:
  "keeps (\<lambda>w. R (nw_log w)) (lift_fs g)" "keeps P g \<Longrightarrow> keeps (\<lambda>w. P (nw_fs w)) (lift_fs g)"
  by (auto simp: keeps_def lift_fs_def case_prod_beta)

end
