(* ===== verification/Oci_Registry.thy ===== *)
theory Oci_Registry
  imports Oci_Store Http
begin

text \<open>
  \<open>src/oci/registry.rs\<close>: references to images, authentication and the pull of an image into the
  store.  HTTP (\<open>reqwest\<close>), JSON (\<open>serde_json\<close>) and SHA-256 are parameters: the request of number \<open>i\<close>
  is answered by \<open>nw_get\<close>, and every request made is recorded with the headers the code sets, so
  that where credentials go is visible.  Digests cut short for log messages are not modelled.
\<close>

section \<open>Image references\<close>

record ImageRef =
  ref_registry :: string
  ref_repository :: string
  ref_tag :: string

definition docker_hub :: string where
  "docker_hub = ''registry-1.docker.io''"

definition parse_image_ref :: "string \<Rightarrow> ImageRef" where
  "parse_image_ref img =
     (let (image_no_digest, digest) =
            (case split_once (CHR ''@'') img of Some (a, b) \<Rightarrow> (a, Some b) | None \<Rightarrow> (img, None));
          first_part = hd (str_split (CHR ''/'') image_no_digest);
          has_registry = (CHR ''/'' \<in> set image_no_digest
             \<and> (CHR ''.'' \<in> set first_part \<or> CHR '':'' \<in> set first_part));
          (registry, rest) =
            (if has_registry then the (split_once (CHR ''/'') image_no_digest) else (docker_hub, image_no_digest));
          (repo, tag) =
            (case digest of Some d \<Rightarrow> (rest, d)
             | None \<Rightarrow> (case rsplit_once (CHR '':'') rest of Some (r, t) \<Rightarrow> (r, t) | None \<Rightarrow> (rest, ''latest'')));
          repo = (if registry = docker_hub \<and> CHR ''/'' \<notin> set repo then ''library/'' @ repo else repo)
      in \<lparr>ref_registry = registry, ref_repository = repo, ref_tag = tag\<rparr>)"

type_synonym 'a pulling = "('a, OciError) net_op"

section \<open>Authentication\<close>

record TokenResponse =
  tr_token :: "string option"
  tr_access_token :: "string option"

record ManifestPlatform =
  mp_os :: "string option"
  mp_architecture :: "string option"

record ManifestListEntry =
  me_digest :: string
  me_platform :: "ManifestPlatform option"

type_synonym DockerAuths = "string \<rightharpoonup> string option"

record oci_env =
  oe_home :: "string option"
  oe_aarch64 :: bool
  oe_client :: "(unit, string) result"
  oe_status_error :: "nat \<Rightarrow> string \<Rightarrow> string"
  oe_sha256 :: "bytes \<Rightarrow> bytes"
  oe_serde :: serde
  oe_token :: "bytes \<Rightarrow> (TokenResponse, string) result"
  oe_manifest_list :: "bytes \<Rightarrow> (ManifestListEntry list, string) result"
  oe_docker_config :: "string \<Rightarrow> (DockerAuths option, string) result"

definition error_for_status :: "oci_env \<Rightarrow> request \<Rightarrow> http_response \<Rightarrow> (http_response, string) result" where
  "error_for_status env rq resp =
     (if 400 \<le> hr_status resp \<and> hr_status resp < 600
      then Err (oe_status_error env (hr_status resp) (rq_url rq)) else Ok resp)"

text \<open>\<open>send\<close> and \<open>error_for_status\<close>, with the errors they are turned into.\<close>

definition send_checked ::
  "oci_env \<Rightarrow> (string \<Rightarrow> OciError) \<Rightarrow> (string \<Rightarrow> OciError) \<Rightarrow> request \<Rightarrow> http_response pulling" where
  "send_checked env send_error status_error rq w =
     (case send rq w of
        (Err e, w) \<Rightarrow> (Err (send_error e), w)
      | (Ok resp, w) \<Rightarrow> (map_err status_error (error_for_status env rq resp), w))"

datatype RegistryAuth = Anonymous | Bearer string | Basic string

definition into_token :: "TokenResponse \<Rightarrow> string option" where
  "into_token t = (case tr_token t of Some x \<Rightarrow> Some x | None \<Rightarrow> tr_access_token t)"

fun format_auth_header :: "RegistryAuth \<Rightarrow> string option" where
  "format_auth_header Anonymous = None"
| "format_auth_header (Bearer token) = Some (''Bearer '' @ token)"
| "format_auth_header (Basic token) = Some (''Basic '' @ token)"

definition auth_entry :: "DockerAuths \<Rightarrow> string \<Rightarrow> string option option" where
  "auth_entry auths registry =
     (case auths registry of Some a \<Rightarrow> Some a | None \<Rightarrow>
       (case auths (''https://'' @ registry) of Some a \<Rightarrow> Some a | None \<Rightarrow>
         (case auths (''https://'' @ registry @ ''/v2/'') of Some a \<Rightarrow> Some a | None \<Rightarrow>
            auths (''https://'' @ registry @ ''/v1/''))))"

definition read_docker_config_auth :: "oci_env \<Rightarrow> string \<Rightarrow> fs \<Rightarrow> string option" where
  "read_docker_config_auth env registry w =
     (case oe_home env of None \<Rightarrow> None
      | Some home \<Rightarrow>
        (case fs_read (path_join (path_of home) (path_of ''.docker/config.json'')) w of
           Err _ \<Rightarrow> None
         | Ok b \<Rightarrow>
           (case from_utf8 b of None \<Rightarrow> None
            | Some content \<Rightarrow>
              (case oe_docker_config env content of
                 Ok (Some auths) \<Rightarrow>
                   (case auth_entry auths registry of
                      Some (Some auth_str) \<Rightarrow> if auth_str = [] then None else Some auth_str
                    | _ \<Rightarrow> None)
               | _ \<Rightarrow> None))))"

text \<open>The parts of a challenge; a later part of a name replaces an earlier one.\<close>

fun challenge_parts :: "string list \<Rightarrow> string option \<times> string option \<Rightarrow> string option \<times> string option" where
  "challenge_parts [] acc = acc"
| "challenge_parts (raw # parts) (realm, service) =
     (let part = str_trim raw in
      case strip_prefix ''realm='' part of
        Some val \<Rightarrow> challenge_parts parts (Some (trim_char (CHR 0x22) val), service)
      | None \<Rightarrow>
        (case strip_prefix ''service='' part of
           Some val \<Rightarrow> challenge_parts parts (realm, Some (trim_char (CHR 0x22) val))
         | None \<Rightarrow> challenge_parts parts (realm, service)))"

definition parse_www_authenticate :: "string \<Rightarrow> string \<Rightarrow> string option" where
  "parse_www_authenticate header repository =
     (case strip_prefix ''Bearer '' header of None \<Rightarrow> None
      | Some params \<Rightarrow>
        (case challenge_parts (str_split (CHR '','') params) (None, None) of
           (None, _) \<Rightarrow> None
         | (Some realm, service) \<Rightarrow>
           (let url = realm @ ''?scope=repository:'' @ repository @ '':pull'' in
            Some (case service of None \<Rightarrow> url | Some svc \<Rightarrow> url @ ''&service='' @ svc))))"

definition read_token :: "oci_env \<Rightarrow> string \<Rightarrow> http_response \<Rightarrow> (TokenResponse, OciError) result" where
  "read_token env msg resp = map_err (\<lambda>e. OciAuth (msg @ e)) (and_then (hr_body resp) (oe_token env))"

text \<open>The exchange of stored credentials for a token, at the URL the challenge names.\<close>

definition token_exchange :: "oci_env \<Rightarrow> string \<Rightarrow> string \<Rightarrow> RegistryAuth pulling" where
  "token_exchange env basic_auth token_url =
     st_then (send_checked env (\<lambda>e. OciAuth (''token exchange failed: '' @ e))
                (\<lambda>e. OciAuth (''token exchange failed: '' @ e))
                \<lparr>rq_url = token_url, rq_accept = None, rq_authorization = Some (''Basic '' @ basic_auth)\<rparr>) (\<lambda>resp w.
       (and_then (read_token env ''invalid token response: '' resp) (\<lambda>t.
          Ok (case into_token t of Some token \<Rightarrow> Bearer token | None \<Rightarrow> Basic basic_auth)), w))"

definition challenge_url :: "http_response \<Rightarrow> string \<Rightarrow> string option" where
  "challenge_url resp repository =
     (if hr_status resp = 401
      then (case hr_www_authenticate resp of
              Some (Ok challenge) \<Rightarrow> parse_www_authenticate challenge repository
            | _ \<Rightarrow> None)
      else None)"

definition authenticate :: "oci_env \<Rightarrow> ImageRef \<Rightarrow> RegistryAuth pulling" where
  "authenticate env ref w =
     (if ref_registry ref = docker_hub
      then st_then (send_checked env (\<lambda>e. OciHttp (''auth request failed: '' @ e)) (\<lambda>e. OciAuth (''auth failed: '' @ e))
             \<lparr>rq_url = ''https://auth.docker.io/token?service=registry.docker.io&scope=repository:''
                  @ ref_repository ref @ '':pull'', rq_accept = None, rq_authorization = None\<rparr>) (\<lambda>resp w.
             (and_then (read_token env ''invalid auth response: '' resp) (\<lambda>t.
              and_then (ok_or (OciAuth ''no token in auth response'') (into_token t)) (\<lambda>token.
              Ok (Bearer token))), w)) w
      else (case read_docker_config_auth env (ref_registry ref) (nw_fs w) of
              None \<Rightarrow> (Ok Anonymous, w)
            | Some basic_auth \<Rightarrow>
              (case send \<lparr>rq_url = ''https://'' @ ref_registry ref @ ''/v2/'', rq_accept = None, rq_authorization = None\<rparr> w of
                 (Err e, w) \<Rightarrow> (Err (OciHttp (''registry probe failed: '' @ e)), w)
               | (Ok resp, w) \<Rightarrow>
                 (case challenge_url resp (ref_repository ref) of
                    Some token_url \<Rightarrow> token_exchange env basic_auth token_url w
                  | None \<Rightarrow> (Ok (Basic basic_auth), w)))))"

section \<open>Pulling\<close>

definition manifest_accept :: string where
  "manifest_accept = ''application/vnd.docker.distribution.manifest.v2+json, ''
     @ ''application/vnd.oci.image.manifest.v1+json, ''
     @ ''application/vnd.docker.distribution.manifest.list.v2+json, ''
     @ ''application/vnd.oci.image.index.v1+json''"

definition api_url :: "ImageRef \<Rightarrow> string" where
  "api_url ref = ''https://'' @ ref_registry ref @ ''/v2/'' @ ref_repository ref @ ''/''"

definition fetch_manifest :: "oci_env \<Rightarrow> ImageRef \<Rightarrow> RegistryAuth \<Rightarrow> bytes pulling" where
  "fetch_manifest env ref auth =
     st_then (send_checked env (\<lambda>e. OciHttp (''manifest fetch failed: '' @ e)) (\<lambda>e. OciHttp (''manifest fetch failed: '' @ e))
         \<lparr>rq_url = api_url ref @ ''manifests/'' @ ref_tag ref, rq_accept = Some manifest_accept,
          rq_authorization = format_auth_header auth\<rparr>) (\<lambda>resp w.
       (map_err (\<lambda>e. OciHttp (''failed to read manifest: '' @ e)) (hr_body resp), w))"

definition fetch_blob :: "oci_env \<Rightarrow> ImageRef \<Rightarrow> RegistryAuth \<Rightarrow> string \<Rightarrow> bytes pulling" where
  "fetch_blob env ref auth digest =
     st_then (send_checked env (\<lambda>e. OciHttp (''blob fetch failed: '' @ e)) (\<lambda>e. OciHttp (''blob fetch failed: '' @ e))
         \<lparr>rq_url = api_url ref @ ''blobs/'' @ digest, rq_accept = None,
          rq_authorization = format_auth_header auth\<rparr>) (\<lambda>resp w.
       (map_err (\<lambda>e. OciHttp (''failed to read blob: '' @ e)) (hr_body resp), w))"

definition target_arch :: "oci_env \<Rightarrow> string" where
  "target_arch env = (if oe_aarch64 env then ''arm64'' else ''amd64'')"

definition platform_matches :: "string \<Rightarrow> ManifestListEntry \<Rightarrow> bool" where
  "platform_matches arch entry =
     (case me_platform entry of None \<Rightarrow> False
      | Some p \<Rightarrow> or_default [] (mp_os p) = ''linux'' \<and> or_default [] (mp_architecture p) = arch)"

definition resolve_platform_manifest :: "oci_env \<Rightarrow> bytes \<Rightarrow> (string, OciError) result" where
  "resolve_platform_manifest env b =
     and_then (map_err (\<lambda>e. ManifestParse (''invalid manifest list JSON: '' @ e)) (oe_manifest_list env b)) (\<lambda>entries.
       case find (platform_matches (target_arch env)) entries of
         Some entry \<Rightarrow> Ok (me_digest entry)
       | None \<Rightarrow> Err (ManifestParse (''no linux/'' @ target_arch env @ '' manifest found in manifest list'')))"

text \<open>Steps 4 and 5 of a pull for one digest: fetched and stored unless it is there.\<close>

definition ensure_blob ::
  "(string \<Rightarrow> 's \<Rightarrow> bool) \<Rightarrow> (string \<Rightarrow> 's \<Rightarrow> (bytes, 'e) result \<times> 's)
   \<Rightarrow> (string \<Rightarrow> bytes \<Rightarrow> 's \<Rightarrow> (path, 'e) result \<times> 's) \<Rightarrow> string \<Rightarrow> 's \<Rightarrow> (unit, 'e) result \<times> 's" where
  "ensure_blob has fetch put digest w =
     (if has digest w then (Ok (), w)
      else st_then (fetch digest) (\<lambda>data. st_then (put digest data) (\<lambda>_. st_ok ())) w)"

definition net_has :: "ImageStore \<Rightarrow> string \<Rightarrow> net \<Rightarrow> bool" where
  "net_has st digest w = has_blob st digest (nw_fs w)"

definition net_put :: "oci_env \<Rightarrow> ImageStore \<Rightarrow> string \<Rightarrow> bytes \<Rightarrow> path pulling" where
  "net_put env st digest data = lift_fs (put_blob (oe_sha256 env) st digest data)"

definition pull_blob :: "oci_env \<Rightarrow> ImageStore \<Rightarrow> ImageRef \<Rightarrow> RegistryAuth \<Rightarrow> string \<Rightarrow> unit pulling" where
  "pull_blob env st ref auth = ensure_blob (net_has st) (fetch_blob env ref auth) (net_put env st)"

definition pull_manifest :: "oci_env \<Rightarrow> ImageStore \<Rightarrow> ImageRef \<Rightarrow> RegistryAuth \<Rightarrow> ImageManifest pulling" where
  "pull_manifest env st ref auth =
     st_then (fetch_manifest env ref auth) (\<lambda>manifest_bytes.
       case parse_manifest (oe_serde env) manifest_bytes of
         Ok m \<Rightarrow> st_then (lift_fs (put_manifest st (ref_repository ref) (ref_tag ref) manifest_bytes)) (\<lambda>_. st_ok m)
       | Err ManifestList \<Rightarrow>
         (case resolve_platform_manifest env manifest_bytes of
            Err e \<Rightarrow> st_fail e
          | Ok platform_digest \<Rightarrow>
            st_then (fetch_manifest env (ref\<lparr>ref_tag := platform_digest\<rparr>) auth) (\<lambda>platform_bytes.
            st_then (lift_fs (put_manifest st (ref_repository ref) (ref_tag ref) platform_bytes)) (\<lambda>_ w.
              (parse_manifest (oe_serde env) platform_bytes, w))))
       | Err e \<Rightarrow> st_fail e)"

definition pull :: "oci_env \<Rightarrow> string \<Rightarrow> ImageStore \<Rightarrow> ImageManifest pulling" where
  "pull env img st =
     (let ref = parse_image_ref img in
      case oe_client env of
        Err e \<Rightarrow> st_fail (OciHttp (''failed to create HTTP client: '' @ e))
      | Ok _ \<Rightarrow>
        st_then (authenticate env ref) (\<lambda>auth.
        st_then (pull_manifest env st ref auth) (\<lambda>manifest.
        st_then (pull_blob env st ref auth (im_config_digest manifest)) (\<lambda>_.
        st_then (st_traverse (pull_blob env st ref auth) (im_layer_digests manifest)) (\<lambda>_.
        st_ok manifest)))))"

section \<open>A client that fills a store\<close>

text \<open>The store's contract, with a way to fetch blobs that leaves the store alone.\<close>

locale blob_client = content_store has put good verified
  for has :: "string \<Rightarrow> 's \<Rightarrow> bool"
    and put :: "string \<Rightarrow> bytes \<Rightarrow> 's \<Rightarrow> (path, 'e) result \<times> 's"
    and good :: "'s \<Rightarrow> bool"
    and verified :: "string \<Rightarrow> 's \<Rightarrow> bool" +
  fixes fetch :: "string \<Rightarrow> 's \<Rightarrow> (bytes, 'e) result \<times> 's"
  assumes fetch_keeps_good: "keeps good (fetch d)"
    and fetch_frame: "keeps (verified d') (fetch d)"
begin

lemma ensure_keeps_good: "keeps good (ensure_blob has fetch put d)"
proof -
  have "keeps good (st_then (fetch d) (\<lambda>data. st_then (put d data) (\<lambda>_. st_ok ())))"
    by (intro keeps_then fetch_keeps_good put_keeps_good keeps_ok)
  then show ?thesis by (auto simp: keeps_def ensure_blob_def)
qed

lemma ensure_Ok:
  assumes "ensure_blob has fetch put d s = (Ok u, s')" "good s"
  shows "(blob_name (digest_hash d) \<longrightarrow> verified d s') \<and> (\<forall>d'. verified d' s \<longrightarrow> verified d' s')"
proof (cases "has d s")
  case True
  then show ?thesis using assms has_verified by (auto simp: ensure_blob_def)
next
  case False
  then obtain b s1 p where f: "fetch d s = (Ok b, s1)" and p: "put d b s1 = (Ok p, s')"
    using assms(1) by (auto simp: ensure_blob_def st_then_Ok_iff)
  have "good s1" using keepsD [OF fetch_keeps_good f assms(2)] .
  then show ?thesis
    using put_Ok [OF _ p] put_mono [OF _ p] keepsD [OF fetch_frame f] by blast
qed

lemma ensure_all_Ok:
  "st_traverse (ensure_blob has fetch put) ds s = (Ok us, s') \<Longrightarrow> good s \<Longrightarrow>
     (\<forall>d \<in> set ds. blob_name (digest_hash d) \<longrightarrow> verified d s') \<and> (\<forall>d'. verified d' s \<longrightarrow> verified d' s')"
proof (induction ds arbitrary: s us)
  case (Cons d ds)
  obtain u s1 vs where e: "ensure_blob has fetch put d s = (Ok u, s1)"
    and rest: "st_traverse (ensure_blob has fetch put) ds s1 = (Ok vs, s')"
    using Cons.prems(1) by (auto simp: st_then_Ok_iff)
  have "good s1" using keepsD [OF ensure_keeps_good e Cons.prems(2)] .
  from Cons.IH [OF rest this] show ?case using ensure_Ok [OF e Cons.prems(2)] by auto
qed simp

end

section \<open>What a pull sends and stores\<close>

lemma sends_checked: "Q rq \<Longrightarrow> sends Q (send_checked env f g rq)"
  unfolding sends_def send_checked_def
  using sent_send [of Q rq] by (auto split: prod.split result.split)

lemmas sends_intros = sends_then sends_checked sends_pure

text \<open>The requests of a pull.  \<open>hub_request\<close> asks Docker Hub for a token, \<open>probe\<close> asks another registry how
  it wants to be talked to, and \<open>exchange\<close> takes stored credentials to the token service that the
  answer to the probe, the first request, names in its challenge.\<close>

definition hub_request :: "ImageRef \<Rightarrow> request" where
  "hub_request ref = \<lparr>rq_url = ''https://auth.docker.io/token?service=registry.docker.io&scope=repository:''
     @ ref_repository ref @ '':pull'', rq_accept = None, rq_authorization = None\<rparr>"

definition probe :: "ImageRef \<Rightarrow> request" where
  "probe ref = \<lparr>rq_url = ''https://'' @ ref_registry ref @ ''/v2/'', rq_accept = None, rq_authorization = None\<rparr>"

definition exchange :: "ImageRef \<Rightarrow> net \<Rightarrow> string \<Rightarrow> request \<Rightarrow> bool" where
  "exchange ref w cred rq \<longleftrightarrow> (\<exists>resp url. nw_get w 0 (probe ref) = Ok resp
     \<and> challenge_url resp (ref_repository ref) = Some url
     \<and> rq = \<lparr>rq_url = url, rq_accept = None, rq_authorization = Some (''Basic '' @ cred)\<rparr>)"

text \<open>The requests made before the registry's API is used, the credentials that they may give, and the
  requests made with these.\<close>

definition auth_requests :: "oci_env \<Rightarrow> ImageRef \<Rightarrow> net \<Rightarrow> request list \<Rightarrow> bool" where
  "auth_requests env ref w l \<longleftrightarrow>
     (if ref_registry ref = docker_hub then l = [hub_request ref]
      else (case read_docker_config_auth env (ref_registry ref) (nw_fs w) of
              None \<Rightarrow> l = []
            | Some cred \<Rightarrow> l = [probe ref] \<or> (\<exists>rq. exchange ref w cred rq \<and> l = [probe ref, rq])))"

definition token_answer :: "oci_env \<Rightarrow> net \<Rightarrow> nat \<Rightarrow> request \<Rightarrow> string \<Rightarrow> bool" where
  "token_answer env w i rq token \<longleftrightarrow> (\<exists>resp t. nw_get w i rq = Ok resp
     \<and> and_then (hr_body resp) (oe_token env) = Ok t \<and> into_token t = Some token)"

fun auth_from :: "oci_env \<Rightarrow> ImageRef \<Rightarrow> net \<Rightarrow> RegistryAuth \<Rightarrow> bool" where
  "auth_from env ref w Anonymous \<longleftrightarrow> ref_registry ref \<noteq> docker_hub"
| "auth_from env ref w (Basic cred) \<longleftrightarrow> ref_registry ref \<noteq> docker_hub
     \<and> read_docker_config_auth env (ref_registry ref) (nw_fs w) = Some cred"
| "auth_from env ref w (Bearer token) \<longleftrightarrow>
     (if ref_registry ref = docker_hub then token_answer env w 0 (hub_request ref) token
      else (\<exists>cred rq. read_docker_config_auth env (ref_registry ref) (nw_fs w) = Some cred
              \<and> exchange ref w cred rq \<and> token_answer env w 1 rq token))"

definition to_registry :: "ImageRef \<Rightarrow> RegistryAuth \<Rightarrow> request \<Rightarrow> bool" where
  "to_registry ref auth rq \<longleftrightarrow> prefix (api_url ref) (rq_url rq) \<and> rq_authorization rq = format_auth_header auth"

lemma to_registry_simps [simp]:
  "to_registry ref auth \<lparr>rq_url = api_url ref @ p, rq_accept = a, rq_authorization = format_auth_header auth\<rparr>"
  by (simp add: to_registry_def)

lemma api_url_tag [simp]: "api_url (ref\<lparr>ref_tag := t\<rparr>) = api_url ref"
  by (simp add: api_url_def)

lemma fetch_sends:
  "sends (to_registry ref auth) (fetch_blob env ref auth d)"
  "sends (to_registry ref auth) (fetch_manifest env ref auth)"
  "sends (to_registry ref auth) (fetch_manifest env (ref\<lparr>ref_tag := t\<rparr>) auth)"
  unfolding fetch_blob_def fetch_manifest_def by (simp_all add: sends_intros)

lemma send_checked_fs [simp]: "nw_fs (snd (send_checked env f g rq w)) = nw_fs w"
  by (simp add: send_checked_def send_def split: result.split)

lemma send_checked_Ok:
  "send_checked env f g rq w = (Ok resp, w1) \<Longrightarrow> nw_get w (length (nw_log w)) rq = Ok resp"
  by (auto simp: send_checked_def send_def error_for_status_def split: result.splits if_splits)

lemma send_checked_log [simp]: "nw_log (snd (send_checked env f g rq w)) = nw_log w @ [rq]"
  by (simp add: send_checked_def send_def split: result.split)

lemma authenticate_fs: "nw_fs (snd (authenticate env ref w)) = nw_fs w"
  by (auto simp: authenticate_def token_exchange_def st_then_def send_checked_def send_def
      split: option.split result.split)

lemma token_exchange_from:
  assumes "token_exchange env cred url w = (r, w1)" "nw_log w = [probe ref]" "nw_get w = nw_get w0"
    and "nw_get w0 0 (probe ref) = Ok resp" "challenge_url resp (ref_repository ref) = Some url"
    and "read_docker_config_auth env (ref_registry ref) (nw_fs w0) = Some cred" "ref_registry ref \<noteq> docker_hub"
  shows "auth_requests env ref w0 (nw_log w1) \<and> (\<forall>auth. r = Ok auth \<longrightarrow> auth_from env ref w0 auth)"
proof -
  let ?rq = "\<lparr>rq_url = url, rq_accept = None, rq_authorization = Some (''Basic '' @ cred)\<rparr>"
  have ex: "exchange ref w0 cred ?rq" using assms(4,5) by (simp add: exchange_def)
  let ?msg = "\<lambda>e. OciAuth (''token exchange failed: '' @ e)"
  obtain rs w2 where sc: "send_checked env ?msg ?msg ?rq w = (rs, w2)" by force
  then have "w1 = w2" using assms(1) by (cases rs) (auto simp: token_exchange_def)
  then have log: "nw_log w1 = [probe ref, ?rq]"
    using sc assms(2) send_checked_log [of env ?msg ?msg ?rq w] by simp
  have "auth_from env ref w0 auth" if ok: "r = Ok auth" for auth
  proof -
    obtain resp' w2 where "send_checked env ?msg ?msg ?rq w = (Ok resp', w2)"
      and t: "and_then (read_token env ''invalid token response: '' resp') (\<lambda>t.
          Ok (case into_token t of Some token \<Rightarrow> Bearer token | None \<Rightarrow> Basic cred)) = Ok auth"
      using assms(1) unfolding token_exchange_def ok st_then_Ok_iff prod.inject by blast
    then have "nw_get w0 1 ?rq = Ok resp'" using assms(2,3) by (auto dest: send_checked_Ok)
    moreover obtain t where "and_then (hr_body resp') (oe_token env) = Ok t"
      "auth = (case into_token t of Some token \<Rightarrow> Bearer token | None \<Rightarrow> Basic cred)"
      using t by (auto simp: read_token_def ok_iff)
    ultimately show ?thesis
      using assms(6,7) ex by (cases "into_token t") (auto simp: token_answer_def)
  qed
  then show ?thesis using log ex assms(6,7) by (auto simp: auth_requests_def)
qed

lemma authenticate_from:
  assumes "authenticate env ref w = (r, w1)" "nw_log w = []"
  shows "auth_requests env ref w (nw_log w1) \<and> (\<forall>auth. r = Ok auth \<longrightarrow> auth_from env ref w auth)"
proof (cases "ref_registry ref = docker_hub")
  case True
  then show ?thesis
    using assms
    by (auto simp: authenticate_def auth_requests_def st_then_def send_checked_def send_def error_for_status_def
        read_token_def ok_or_def token_answer_def hub_request_def ok_iff split: result.splits if_splits option.splits)
next
  case hub: False
  show ?thesis
  proof (cases "read_docker_config_auth env (ref_registry ref) (nw_fs w)")
    case None
    then show ?thesis using assms hub by (auto simp: authenticate_def auth_requests_def)
  next
    case (Some cred)
    define w2 where "w2 = w\<lparr>nw_log := [probe ref]\<rparr>"
    have s: "send (probe ref) w = (nw_get w 0 (probe ref), w2)" using assms(2) by (simp add: send_def w2_def)
    show ?thesis
    proof (cases "\<exists>resp url. nw_get w 0 (probe ref) = Ok resp \<and> challenge_url resp (ref_repository ref) = Some url")
      case True
      then obtain resp url where t: "nw_get w 0 (probe ref) = Ok resp" "challenge_url resp (ref_repository ref) = Some url"
        by blast
      have "token_exchange env cred url w2 = (r, w1)"
        using assms(1) hub Some s t by (simp add: authenticate_def probe_def)
      from token_exchange_from [OF this _ _ t Some hub] show ?thesis by (simp add: w2_def)
    next
      case False
      then show ?thesis
        using assms(1) hub Some s
        by (cases "nw_get w 0 (probe ref)") (auto simp: authenticate_def probe_def auth_requests_def w2_def split: option.splits)
    qed
  qed
qed

interpretation puller: blob_client "net_has st" "net_put env st" "\<lambda>w. store_good (oe_sha256 env) st (nw_fs w)"
  "\<lambda>d w. blob_verified (oe_sha256 env) st d (nw_fs w)" "fetch_blob env ref auth"
  for env st ref auth
proof
  fix d b s p s' r d'
  show "keeps (\<lambda>w. store_good (oe_sha256 env) st (nw_fs w)) (net_put env st d b)"
    unfolding net_put_def by (intro lift_fs_keeps cas.put_keeps_good)
  show "blob_verified (oe_sha256 env) st d (nw_fs s')"
    if "store_good (oe_sha256 env) st (nw_fs s)" "net_put env st d b s = (Ok p, s')"
    using that cas.put_Ok [of "oe_sha256 env" st "nw_fs s" d b] by (auto simp: net_put_def lift_fs_def split: prod.splits)
  show "blob_verified (oe_sha256 env) st d' (nw_fs s')"
    if "store_good (oe_sha256 env) st (nw_fs s)" "net_put env st d b s = (r, s')" "blob_verified (oe_sha256 env) st d' (nw_fs s)"
    using that cas.put_mono [of "oe_sha256 env" st "nw_fs s" d b] by (auto simp: net_put_def lift_fs_def split: prod.splits)
  show "blob_verified (oe_sha256 env) st d (nw_fs s)"
    if "store_good (oe_sha256 env) st (nw_fs s)" "blob_name (digest_hash d)" "net_has st d s"
    using that cas.has_verified by (simp add: net_has_def)
  show "keeps (\<lambda>w. store_good (oe_sha256 env) st (nw_fs w)) (fetch_blob env ref auth d)"
    "keeps (\<lambda>w. blob_verified (oe_sha256 env) st d' (nw_fs w)) (fetch_blob env ref auth d)"
    using sends_keeps(2) [OF fetch_sends(1)] by blast+
qed

lemma pull_manifest_steps:
  assumes fetch: "\<And>r. keeps P (fetch_manifest env (ref\<lparr>ref_tag := r\<rparr>) auth)" "keeps P (fetch_manifest env ref auth)"
    and put: "\<And>b. keeps P (lift_fs (put_manifest st (ref_repository ref) (ref_tag ref) b))"
  shows "keeps P (pull_manifest env st ref auth)"
proof -
  have pure: "keeps P (\<lambda>w. (r, w))" for r :: "(ImageManifest, OciError) result" by (simp add: keeps_def)
  have platform: "keeps P (st_then (fetch_manifest env (ref\<lparr>ref_tag := t\<rparr>) auth) (\<lambda>b.
      st_then (lift_fs (put_manifest st (ref_repository ref) (ref_tag ref) b)) (\<lambda>_ w. (parse_manifest (oe_serde env) b, w))))" for t
    by (intro keeps_then fetch put pure)
  have plain: "keeps P (st_then (lift_fs (put_manifest st (ref_repository ref) (ref_tag ref) b)) (\<lambda>_. st_ok m))" for b and m :: ImageManifest
    by (intro keeps_then put keeps_ok)
  show ?thesis
    unfolding pull_manifest_def
    by (rule keeps_then [OF fetch(2)]) (simp add: plain platform keeps_ok split: result.split OciError.split)
qed

lemma pull_steps:
  assumes "keeps P (pull_manifest env st ref auth)" "\<And>d. keeps P (pull_blob env st ref auth d)"
  shows "keeps P (st_then (pull_manifest env st ref auth) (\<lambda>manifest.
        st_then (pull_blob env st ref auth (im_config_digest manifest)) (\<lambda>_.
        st_then (st_traverse (pull_blob env st ref auth) (im_layer_digests manifest)) (\<lambda>_.
        st_ok manifest))))"
  using assms by auto

lemma pull_manifest_stored:
  assumes "pull_manifest env st ref auth w = (Ok m, w')"
  shows "\<exists>b. fs_files (nw_fs w') (manifest_path st (ref_repository ref) (ref_tag ref)) = Some b
     \<and> parse_manifest (oe_serde env) b = Ok m"
proof -
  have put: "fs_files (nw_fs w2) (manifest_path st img tag) = Some b"
    if "lift_fs (put_manifest st img tag b) w1 = (Ok u, w2)" for img tag b u w1 w2
    using that by (auto simp: lift_fs_def put_manifest_def dest!: fs_write_ok split: prod.splits result.splits)
  let ?put = "\<lambda>b. lift_fs (put_manifest st (ref_repository ref) (ref_tag ref) b)"
  have stored: ?thesis if "st_then (?put b) (\<lambda>_ w. (parse_manifest (oe_serde env) b, w)) w1 = (Ok m, w')" for b w1
    using that put by (auto simp: st_then_Ok_iff)
  obtain b w1 where rest: "(case parse_manifest (oe_serde env) b of
         Ok m \<Rightarrow> st_then (?put b) (\<lambda>_. st_ok m)
       | Err ManifestList \<Rightarrow>
         (case resolve_platform_manifest env b of
            Err e \<Rightarrow> st_fail e
          | Ok platform_digest \<Rightarrow>
            st_then (fetch_manifest env (ref\<lparr>ref_tag := platform_digest\<rparr>) auth) (\<lambda>b.
            st_then (?put b) (\<lambda>_ w. (parse_manifest (oe_serde env) b, w))))
       | Err e \<Rightarrow> st_fail e) w1 = (Ok m, w')"
    using assms unfolding pull_manifest_def st_then_Ok_iff by blast
  show ?thesis
  proof (cases "parse_manifest (oe_serde env) b")
    case (Ok m')
    then show ?thesis using rest put by (auto simp: st_then_Ok_iff)
  next
    case (Err e)
    then show ?thesis
      using rest stored
      by (cases e; cases "resolve_platform_manifest env b")
        (auto simp: st_then_Ok_iff [of "fetch_manifest _ _ _"])
  qed
qed

lemma put_blob_other:
  assumes "put_blob sha st d b w = (r, w')" "store_root st \<noteq> []" "length (sha b) = 32"
    and "\<not> prefix (store_root st @ [Normal ''blobs'', Normal ''sha256'']) q"
  shows "fs_files w' q = fs_files w q"
proof (cases "bytes_hex (sha b) = digest_hash d")
  case False
  then show ?thesis using assms(1) by (auto simp: put_blob_def)
next
  case True
  then have n: "blob_name (digest_hash d)" using bytes_hex_name [OF assms(3)] by simp
  note p = blob_path_file [OF assms(2) n]
  have "q \<noteq> blob_path st d" "q \<noteq> with_extension (blob_path st d) ''tmp''"
    using assms(4) by (auto simp: p blob_tmp_file [OF n]) (auto simp: blob_file_def)
  then show ?thesis using put_blob_effect [OF assms(1)] by (cases r) (auto simp: Let_def)
qed

text \<open>A blob that is pulled leaves the cached manifest alone.\<close>

lemma pull_blob_keeps_manifest:
  "keeps (\<lambda>w. store_good (oe_sha256 env) st (nw_fs w) \<and> fs_files (nw_fs w) (manifest_path st img tag) = Some x)
     (pull_blob env st ref auth d)" (is "keeps ?G _")
proof -
  have "keeps ?G (net_put env st d b)" for b
  proof (rule keepsI)
    fix w
    assume G: "?G w"
    then have root: "store_root st \<noteq> []" and sha: "length (oe_sha256 env b) = 32"
      by (auto simp: store_good_def cas_ok_def)
    obtain q where q: "manifest_path st img tag = store_root st @ Normal ''manifests'' # q"
      using manifest_below(2) [OF root] by blast
    obtain r fs' where put: "put_blob (oe_sha256 env) st d b (nw_fs w) = (r, fs')" by force
    have "fs_files fs' (manifest_path st img tag) = fs_files (nw_fs w) (manifest_path st img tag)"
      by (rule put_blob_other [OF put root sha]) (simp add: q)
    then show "?G (snd (net_put env st d b w))"
      using G keepsD [OF cas.put_keeps_good put] put by (simp add: net_put_def lift_fs_def)
  qed
  moreover have "keeps ?G (fetch_blob env ref auth d)"
    by (rule sends_keeps(2) [OF fetch_sends(1)])
  ultimately have "keeps ?G (st_then (fetch_blob env ref auth d) (\<lambda>b. st_then (net_put env st d b) (\<lambda>_. st_ok ())))"
    by (intro keeps_then keeps_ok)
  then show ?thesis by (auto simp: keeps_def pull_blob_def ensure_blob_def)
qed

abbreviation net_good :: "oci_env \<Rightarrow> ImageStore \<Rightarrow> net \<Rightarrow> bool" where
  "net_good env st w \<equiv> store_good (oe_sha256 env) st (nw_fs w)"

lemma pull_manifest_keeps_good: "keeps (net_good env st) (pull_manifest env st ref auth)"
proof (rule pull_manifest_steps)
  show "keeps (net_good env st) (fetch_manifest env (ref\<lparr>ref_tag := t\<rparr>) auth)" for t
    by (rule sends_keeps(2) [OF fetch_sends(3)])
  show "keeps (net_good env st) (fetch_manifest env ref auth)"
    by (rule sends_keeps(2) [OF fetch_sends(2)])
  show "keeps (net_good env st) (lift_fs (put_manifest st (ref_repository ref) (ref_tag ref) b))" for b
    using put_manifest_keeps [of "oe_sha256 env" st]
    by (intro lift_fs_keeps) (auto simp: store_good_def keeps_def)
qed

lemma pull_blob_keeps_good: "keeps (net_good env st) (pull_blob env st ref auth d)"
  unfolding pull_blob_def by (rule puller.ensure_keeps_good)

lemma authenticate_keeps_good: "keeps (net_good env st) (authenticate env ref)"
  by (simp add: keeps_def authenticate_fs)

lemma pull_keeps_good: "keeps (net_good env st) (pull env img st)"
  unfolding pull_def Let_def
  by (auto intro!: keeps_then [OF authenticate_keeps_good] pull_steps pull_manifest_keeps_good pull_blob_keeps_good
      split: result.split)

text \<open>C15: a pull stores verified blobs only, and all of them.  Whatever the registry answers and
  whatever fails, a pull keeps the store content-addressed.  When it returns a manifest, that is
  what the manifest cached under the image's repository and tag decodes to, and for the config and
  every layer whose digest has the form of a hash, the store has bytes that hash to it.\<close>

theorem pull_stores_verified_image:
  assumes "pull env img st w = (r, w')" "store_good (oe_sha256 env) st (nw_fs w)"
  shows "store_good (oe_sha256 env) st (nw_fs w') \<and> (\<forall>m. r = Ok m \<longrightarrow>
     (\<exists>b. fs_files (nw_fs w') (manifest_path st (ref_repository (parse_image_ref img)) (ref_tag (parse_image_ref img))) = Some b
        \<and> parse_manifest (oe_serde env) b = Ok m)
     \<and> (\<forall>d \<in> set (im_config_digest m # im_layer_digests m).
          blob_name (digest_hash d) \<longrightarrow> blob_verified (oe_sha256 env) st d (nw_fs w')))"
proof (intro conjI allI impI)
  show "store_good (oe_sha256 env) st (nw_fs w')" using keepsD [OF pull_keeps_good assms] .
next
  fix m
  assume "r = Ok m"
  let ?ref = "parse_image_ref img"
  let ?file = "manifest_path st (ref_repository ?ref) (ref_tag ?ref)"
  from assms(1) \<open>r = Ok m\<close> obtain auth w1 w2 w3 u us where
      a: "authenticate env ?ref w = (Ok auth, w1)"
    and p: "pull_manifest env st ?ref auth w1 = (Ok m, w2)"
    and c: "pull_blob env st ?ref auth (im_config_digest m) w2 = (Ok u, w3)"
    and l: "st_traverse (pull_blob env st ?ref auth) (im_layer_digests m) w3 = (Ok us, w')"
    by (auto simp: pull_def Let_def st_then_Ok_iff split: result.splits)
  have good2: "net_good env st w2"
    using keepsD [OF pull_manifest_keeps_good p keepsD [OF authenticate_keeps_good a assms(2)]] .
  note good3 = keepsD [OF pull_blob_keeps_good c good2]
  obtain b where b: "fs_files (nw_fs w2) ?file = Some b" "parse_manifest (oe_serde env) b = Ok m"
    using pull_manifest_stored [OF p] by blast
  note keep = pull_blob_keeps_manifest [of env st "ref_repository ?ref" "ref_tag ?ref" b ?ref auth]
  have "fs_files (nw_fs w') ?file = Some b"
    using keepsD [OF keeps_traverse [OF keep] l keepsD [OF keep c]] good2 b(1) by blast
  then show "\<exists>b. fs_files (nw_fs w') ?file = Some b \<and> parse_manifest (oe_serde env) b = Ok m" using b(2) by blast
  show "\<forall>d \<in> set (im_config_digest m # im_layer_digests m).
      blob_name (digest_hash d) \<longrightarrow> blob_verified (oe_sha256 env) st d (nw_fs w')"
    using puller.ensure_Ok [OF c [unfolded pull_blob_def] good2] puller.ensure_all_Ok [OF l [unfolded pull_blob_def] good3]
    by auto
qed

text \<open>C17: credentials go to the registry or to where it sends them.  A pull, once the HTTP
  client is there, makes its requests in this order.  For Docker Hub, one token request without credentials.  For another registry for which
  credentials are stored, a probe of that registry without credentials, and at most one request that
  carries the stored credentials, to the URL made from the challenge in the answer to that probe.
  All other requests are HTTPS requests for the image's repository on its own registry; they
  carry nothing, the token obtained in this way, or, never on Docker Hub, the
  stored credentials of this registry.\<close>

theorem pull_confines_credentials:
  assumes "pull env img st w = (r, w')" "nw_log w = []" "is_ok (oe_client env)"
  defines "ref \<equiv> parse_image_ref img"
  shows "\<exists>before after. nw_log w' = before @ after \<and> auth_requests env ref w before
    \<and> (after \<noteq> [] \<longrightarrow> (\<exists>auth. auth_from env ref w auth \<and> list_all (to_registry ref auth) after))"
proof -
  obtain ra w1 where a: "authenticate env ref w = (ra, w1)" by force
  note auths = authenticate_from [OF a assms(2)]
  let ?P = "\<lambda>auth w. \<exists>l. nw_log w = nw_log w1 @ l \<and> list_all (to_registry ref auth) l"
  have manifest: "keeps (?P auth) (pull_manifest env st ref auth)" for auth
    by (intro pull_manifest_steps sends_extends fetch_sends lift_fs_keeps)
  have blob: "keeps (?P auth) (pull_blob env st ref auth d)" for auth d
  proof -
    have "keeps (?P auth) (st_then (fetch_blob env ref auth d) (\<lambda>b. st_then (net_put env st d b) (\<lambda>_. st_ok ())))"
      unfolding net_put_def by (intro keeps_then sends_extends fetch_sends lift_fs_keeps keeps_ok)
    then show ?thesis by (auto simp: keeps_def pull_blob_def ensure_blob_def)
  qed
  show ?thesis
  proof (cases ra)
    case (Err e)
    then show ?thesis using assms(1,3) a auths by (auto simp: pull_def Let_def ref_def is_ok_iff split: result.splits)
  next
    case (Ok auth)
    have "?P auth w1" by simp
    moreover have "st_then (pull_manifest env st ref auth) (\<lambda>manifest.
        st_then (pull_blob env st ref auth (im_config_digest manifest)) (\<lambda>_.
        st_then (st_traverse (pull_blob env st ref auth) (im_layer_digests manifest)) (\<lambda>_.
        st_ok manifest))) w1 = (r, w')"
      using assms(1,3) a Ok by (auto simp: pull_def Let_def ref_def is_ok_iff)
    ultimately have "?P auth w'" using keepsD [OF pull_steps [OF manifest blob]] by blast
    then show ?thesis using auths Ok by blast
  qed
qed

section \<open>References that print and parse\<close>

definition print_image_ref :: "ImageRef \<Rightarrow> string" where
  "print_image_ref ref = ref_registry ref @ ''/'' @ ref_repository ref
     @ (if CHR '':'' \<in> set (ref_tag ref) then ''@'' else '':'') @ ref_tag ref"

text \<open>A registry that has a domain or a port, a repository, and a tag or a digest.  A repository of
  Docker Hub without a slash is one of its official images.\<close>

definition full_ref :: "ImageRef \<Rightarrow> bool" where
  "full_ref ref \<longleftrightarrow> (CHR ''.'' \<in> set (ref_registry ref) \<or> CHR '':'' \<in> set (ref_registry ref))
     \<and> CHR ''/'' \<notin> set (ref_registry ref) \<and> CHR ''@'' \<notin> set (ref_registry ref @ ref_repository ref)
     \<and> (CHR '':'' \<in> set (ref_tag ref) \<or> CHR ''@'' \<notin> set (ref_tag ref))"

definition official :: "ImageRef \<Rightarrow> ImageRef" where
  "official ref = (if ref_registry ref = docker_hub \<and> CHR ''/'' \<notin> set (ref_repository ref)
     then ref\<lparr>ref_repository := ''library/'' @ ref_repository ref\<rparr> else ref)"



text \<open>A registry that serves one image with one blob for its config and its layer.\<close>

definition toy_env :: oci_env where
  "toy_env = \<lparr>oe_home = None, oe_aarch64 = False, oe_client = Ok (), oe_status_error = (\<lambda>_ _. []),
     oe_sha256 = toy_sha,
     oe_serde = \<lparr>js_manifest = (\<lambda>_. Ok \<lparr>rm_media_type = None, rm_schema_version = Some 2,
          rm_config = Some \<lparr>rd_digest = Some toy_digest\<rparr>, rm_layers = Some [\<lparr>rd_digest = Some toy_digest\<rparr>]\<rparr>),
        js_image = (\<lambda>_. Ok None)\<rparr>,
     oe_token = (\<lambda>_. Ok \<lparr>tr_token = Some ''t'', tr_access_token = None\<rparr>),
     oe_manifest_list = (\<lambda>_. Err []), oe_docker_config = (\<lambda>_. Ok None)\<rparr>"

definition toy_net :: net where
  "toy_net = \<lparr>nw_get = (\<lambda>_ _. Ok \<lparr>hr_status = 200, hr_status_text = ''200 OK'', hr_www_authenticate = None,
       hr_body = Ok [7, 8], hr_text = Ok []\<rparr>),
     nw_log = [], nw_fs = toy_fs\<rparr>"

definition toy_manifest :: ImageManifest where
  "toy_manifest = \<lparr>im_config_digest = toy_digest, im_layer_digests = [toy_digest], im_media_type = []\<rparr>"

lemma toy_pull: "fst (pull toy_env ''nginx'' toy_store toy_net) = Ok toy_manifest"
  by code_simp

lemma toy_net_good: "store_good (oe_sha256 toy_env) toy_store (nw_fs toy_net)"
  using store_new_ok [OF toy_new] toy_sha_length
  by (simp add: store_good_def toy_env_def toy_net_def store_empty_def quiet_fs_def)

theorem pull_stores_verified_image_witness:
  "\<exists>w. pull toy_env ''nginx'' toy_store toy_net = (Ok toy_manifest, w)
     \<and> blob_verified toy_sha toy_store toy_digest (nw_fs w)"
proof -
  obtain w where p: "pull toy_env ''nginx'' toy_store toy_net = (Ok toy_manifest, w)"
    using toy_pull by (metis prod.collapse)
  from pull_stores_verified_image [OF p toy_net_good] p show ?thesis
    using toy_hash(2) by (auto simp: toy_manifest_def toy_env_def)
qed

text \<open>A registry with stored credentials whose challenge names a token service.\<close>

definition private_env :: oci_env where
  "private_env = toy_env\<lparr>oe_home := Some ''/h'', oe_docker_config := (\<lambda>_. Ok (Some [''ghcr.io'' \<mapsto> Some ''dXNlcg'']))\<rparr>"

definition private_net :: net where
  "private_net = \<lparr>nw_get = (\<lambda>i _. Ok \<lparr>hr_status = (if i = 0 then 401 else 200), hr_status_text = [],
       hr_www_authenticate = Some (Ok (''Bearer realm='' @ [CHR 0x22] @ ''https://ghcr.io/token'' @ [CHR 0x22])),
       hr_body = Ok [7, 8], hr_text = Ok []\<rparr>),
     nw_log = [], nw_fs = toy_fs\<lparr>fs_files := (fs_files toy_fs)
       (path_join (path_of ''/h'') (path_of ''.docker/config.json'') \<mapsto> as_bytes ''{}'')\<rparr>\<rparr>"

theorem pull_confines_credentials_witness:
  "\<exists>rq after auth. nw_log (snd (pull private_env ''ghcr.io/org/app:v1'' toy_store private_net))
       = probe (parse_image_ref ''ghcr.io/org/app:v1'') # rq # after
     \<and> rq = \<lparr>rq_url = ''https://ghcr.io/token?scope=repository:org/app:pull'', rq_accept = None,
          rq_authorization = Some ''Basic dXNlcg''\<rparr>
     \<and> exchange (parse_image_ref ''ghcr.io/org/app:v1'') private_net ''dXNlcg'' rq
     \<and> after \<noteq> [] \<and> list_all (to_registry (parse_image_ref ''ghcr.io/org/app:v1'') auth) after"
proof -
  let ?ref = "parse_image_ref ''ghcr.io/org/app:v1''"
  obtain r w where p: "pull private_env ''ghcr.io/org/app:v1'' toy_store private_net = (r, w)" by force
  let ?rq = "\<lparr>rq_url = ''https://ghcr.io/token?scope=repository:org/app:pull'', rq_accept = None,
     rq_authorization = Some ''Basic dXNlcg''\<rparr>"
  have log: "take 2 (nw_log (snd (pull private_env ''ghcr.io/org/app:v1'' toy_store private_net))) = [probe ?ref, ?rq]"
    "2 < length (nw_log (snd (pull private_env ''ghcr.io/org/app:v1'' toy_store private_net)))" by code_simp+
  have st: "read_docker_config_auth private_env (ref_registry ?ref) (nw_fs private_net) = Some ''dXNlcg''"
    "ref_registry ?ref \<noteq> docker_hub" by code_simp+
  have "nw_log private_net = []" "is_ok (oe_client private_env)"
    by (simp_all add: private_net_def private_env_def toy_env_def)
  from pull_confines_credentials [OF p this] obtain before after where
    l: "nw_log w = before @ after" "auth_requests private_env ?ref private_net before"
      "after \<noteq> [] \<longrightarrow> (\<exists>auth. auth_from private_env ?ref private_net auth \<and> list_all (to_registry ?ref auth) after)"
    by blast
  have "\<not> prefix (api_url ?ref) (rq_url ?rq)" by code_simp
  then have reg: "\<not> to_registry ?ref auth ?rq" for auth by (simp add: to_registry_def)
  obtain rest where rest: "nw_log w = probe ?ref # ?rq # rest" "rest \<noteq> []"
    using log p append_take_drop_id [of 2 "nw_log w"]
    by (metis append_Cons append_Nil drop_eq_Nil linorder_not_less snd_conv)
  have "before = [probe ?ref] \<or> (\<exists>rq. exchange ?ref private_net ''dXNlcg'' rq \<and> before = [probe ?ref, rq])"
    using l(2) st by (simp add: auth_requests_def)
  moreover have "before \<noteq> [probe ?ref]" using l rest reg by auto
  ultimately have "exchange ?ref private_net ''dXNlcg'' ?rq" "after = rest" using l(1) rest by auto
  then show ?thesis using l(3) rest p by auto
qed

end
