(* ===== verification/Image.thy ===== *)
theory Image
  imports Setup Http "HOL-Library.AList"
begin

text \<open>
  \<open>src/setup/image.rs\<close>: the image catalogue, the download of the assets of an image with their
  checksums, and the conversion of the disk for macOS.  HTTP, SHA-256, \<open>qemu-img\<close> and the Unicode
  lower-case mapping are parameters.
\<close>

section \<open>The catalogue\<close>

datatype Arch = Aarch64 | X86_64

fun arch_display :: "Arch \<Rightarrow> string" where
  "arch_display Aarch64 = ''aarch64''"
| "arch_display X86_64 = ''x86_64''"

record ImageSpec =
  is_distro :: string
  is_version :: string
  is_arch :: "Arch option"

record PreparedImage =
  pi_kernel :: path
  pi_initramfs :: "path option"
  pi_disk :: path

record ImageAsset =
  ia_filename :: string
  ia_url :: string
  ia_source_filename :: string
  ia_checksum_url :: "string option"

record image_env =
  ie_aarch64 :: bool
  ie_os :: target_os
  ie_to_lowercase :: "string \<Rightarrow> string"
  ie_client :: "(unit, string) result"
  ie_sha256 :: "bytes \<Rightarrow> bytes"
  ie_exec :: exec

type_synonym 'a setup_op = "('a, SetupError) net_op"

definition arch_host :: "image_env \<Rightarrow> Arch" where
  "arch_host env = (if ie_aarch64 env then Aarch64 else X86_64)"

definition spec_arch :: "image_env \<Rightarrow> ImageSpec \<Rightarrow> Arch" where
  "spec_arch env spec = (case is_arch spec of Some a \<Rightarrow> a | None \<Rightarrow> arch_host env)"

definition resolve_ubuntu :: "string \<Rightarrow> Arch \<Rightarrow> (ImageAsset list, SetupError) result" where
  "resolve_ubuntu version arch =
     (let arch_str = (case arch of Aarch64 \<Rightarrow> ''arm64'' | X86_64 \<Rightarrow> ''amd64'');
          base = ''https://cloud-images.ubuntu.com/releases/'' @ version @ ''/release'';
          unpacked = base @ ''/unpacked'';
          server = ''ubuntu-'' @ version @ ''-server-cloudimg-'' @ arch_str
      in Ok [\<lparr>ia_filename = ''vmlinuz'', ia_url = unpacked @ ''/'' @ server @ ''-vmlinuz-generic'',
              ia_source_filename = server @ ''-vmlinuz-generic'', ia_checksum_url = Some (unpacked @ ''/SHA256SUMS'')\<rparr>,
             \<lparr>ia_filename = ''initramfs'', ia_url = unpacked @ ''/'' @ server @ ''-initrd-generic'',
              ia_source_filename = server @ ''-initrd-generic'', ia_checksum_url = Some (unpacked @ ''/SHA256SUMS'')\<rparr>,
             \<lparr>ia_filename = ''disk.img'', ia_url = base @ ''/'' @ server @ ''.img'',
              ia_source_filename = server @ ''.img'', ia_checksum_url = Some (base @ ''/SHA256SUMS'')\<rparr>])"

definition resolve_image :: "image_env \<Rightarrow> ImageSpec \<Rightarrow> (ImageAsset list, SetupError) result" where
  "resolve_image env spec =
     (let distro = ie_to_lowercase env (is_distro spec) in
      if distro = ''ubuntu'' then resolve_ubuntu (is_version spec) (spec_arch env spec)
      else if distro = ''alpine''
      then Err (UnsupportedImage (''Alpine cloud-init images are not currently supported: the published assets here are ''
             @ ''netboot kernel/initramfs plus an ISO, not a writable root disk. Provide your own ''
             @ ''root disk image or use Ubuntu.''))
      else Err (UnsupportedImage (''unknown distro '' @ squote @ distro @ squote @ ''. Supported: ubuntu. ''
             @ ''Or bring your own kernel + disk image.'')))"

section \<open>Checksums\<close>

text \<open>A \<open>HashMap\<close> of file names to digests, kept as an association list.\<close>

type_synonym checksums = "(string \<times> string) list"

fun checksum_lines :: "string list \<Rightarrow> checksums \<Rightarrow> (checksums, SetupError) result" where
  "checksum_lines [] manifest = Ok manifest"
| "checksum_lines (raw # rest) manifest =
     (let line = str_trim raw in
      if line = [] \<or> starts_with ''#'' line then checksum_lines rest manifest
      else (case find_whitespace line of
              None \<Rightarrow> Err (AssetDownload (''malformed checksum line: '' @ line))
            | Some split_at \<Rightarrow>
              (let digest = str_trim (take split_at line);
                   filename = trim_start_str ''./'' (trim_start_char (CHR ''*'') (str_trim (drop split_at line)))
               in if length digest = 64 \<and> list_all is_ascii_hexdigit digest
                  then checksum_lines rest (AList.update filename (to_ascii_lowercase digest) manifest)
                  else checksum_lines rest manifest)))"

definition parse_checksum_manifest :: "string \<Rightarrow> (checksums, SetupError) result" where
  "parse_checksum_manifest body =
     and_then (checksum_lines (str_lines body) []) (\<lambda>manifest.
       if manifest = [] then Err (AssetDownload ''checksum manifest did not contain any SHA256 entries'')
       else Ok manifest)"

definition plain_get :: "string \<Rightarrow> request" where
  "plain_get url = \<lparr>rq_url = url, rq_accept = None, rq_authorization = None\<rparr>"

definition fetch_checksum_manifest :: "string \<Rightarrow> checksums setup_op" where
  "fetch_checksum_manifest url w =
     (case send (plain_get url) w of
        (Err e, w) \<Rightarrow> (Err (AssetDownload (''failed to fetch checksum manifest '' @ url @ '': '' @ e)), w)
      | (Ok resp, w) \<Rightarrow>
        (if \<not> is_success resp
         then Err (AssetDownload (''HTTP '' @ hr_status_text resp @ '' for checksum manifest '' @ url))
         else and_then (map_err (\<lambda>e. AssetDownload (''failed to read checksum manifest '' @ url @ '': '' @ e)) (hr_text resp))
                parse_checksum_manifest, w))"

text \<open>The manifests fetched so far are kept by their URL.\<close>

type_synonym checksum_cache = "string \<rightharpoonup> checksums"

definition cache_checksums :: "string \<Rightarrow> checksum_cache \<Rightarrow> checksum_cache setup_op" where
  "cache_checksums url cache w =
     (case cache url of Some _ \<Rightarrow> (Ok cache, w)
      | None \<Rightarrow> st_then (fetch_checksum_manifest url) (\<lambda>manifest. st_ok (cache(url \<mapsto> manifest))) w)"

definition expected_sha256 :: "string \<Rightarrow> string \<Rightarrow> checksum_cache \<Rightarrow> (string \<times> checksum_cache) setup_op" where
  "expected_sha256 url filename cache =
     st_then (cache_checksums url cache) (\<lambda>cache w.
       (case Option.bind (cache url) (\<lambda>manifest. map_of manifest filename) of
          Some digest \<Rightarrow> Ok (digest, cache)
        | None \<Rightarrow> Err (AssetDownload (''checksum manifest '' @ url @ '' does not contain '' @ filename)), w))"

definition verify_bytes :: "image_env \<Rightarrow> bytes \<Rightarrow> string \<Rightarrow> string \<Rightarrow> (unit, SetupError) result" where
  "verify_bytes env data expected label =
     (let actual = bytes_hex (ie_sha256 env data) in
      if actual \<noteq> expected
      then Err (AssetDownload (''SHA256 mismatch for '' @ label @ '': expected '' @ expected @ '', got '' @ actual))
      else Ok ())"

definition verify_download :: "image_env \<Rightarrow> path \<Rightarrow> string option \<Rightarrow> fs \<Rightarrow> (bool, SetupError) result" where
  "verify_download env p expected w =
     (case expected of None \<Rightarrow> Ok True
      | Some digest \<Rightarrow>
        and_then (map_err SetupIo (fs_read p w)) (\<lambda>data.
        and_then (verify_bytes env data digest (display_path p)) (\<lambda>_. Ok True)))"

section \<open>Preparation\<close>

definition download_file :: "image_env \<Rightarrow> string \<Rightarrow> path \<Rightarrow> string option \<Rightarrow> unit setup_op" where
  "download_file env url p expected w =
     (case send (plain_get url) w of
        (Err e, w) \<Rightarrow> (Err (AssetDownload (''HTTP request failed for '' @ url @ '': '' @ e)), w)
      | (Ok resp, w) \<Rightarrow>
        if \<not> is_success resp then (Err (AssetDownload (''HTTP '' @ hr_status_text resp @ '' for '' @ url)), w)
        else (case and_then (map_err (\<lambda>e. AssetDownload (''failed to read response body from '' @ url @ '': '' @ e)) (hr_body resp))
                     (\<lambda>data. case expected of None \<Rightarrow> Ok data
                             | Some digest \<Rightarrow> and_then (verify_bytes env data digest url) (\<lambda>_. Ok data)) of
                Err e \<Rightarrow> (Err e, w)
              | Ok data \<Rightarrow> lift_fs (\<lambda>s. map_prod (map_err SetupIo) id (fs_replace p data s)) w))"

definition asset_checksum :: "ImageAsset \<Rightarrow> checksum_cache \<Rightarrow> (string option \<times> checksum_cache) setup_op" where
  "asset_checksum asset cache =
     (case ia_checksum_url asset of None \<Rightarrow> st_ok (None, cache)
      | Some url \<Rightarrow> st_then (expected_sha256 url (ia_source_filename asset) cache)
                     (\<lambda>(digest, cache). st_ok (Some digest, cache)))"

text \<open>A cached file that verifies is kept; one that does not is an error of \<open>verify_download\<close>.\<close>

definition fetch_asset :: "image_env \<Rightarrow> path \<Rightarrow> string \<Rightarrow> string option \<Rightarrow> unit setup_op" where
  "fetch_asset env p url expected w =
     (case (if fs_exists (nw_fs w) p then verify_download env p expected (nw_fs w) else Ok False) of
        Err e \<Rightarrow> (Err e, w)
      | Ok cached \<Rightarrow> if cached then (Ok (), w) else download_file env url p expected w)"

definition prepare_asset :: "image_env \<Rightarrow> path \<Rightarrow> ImageAsset \<Rightarrow> checksum_cache \<Rightarrow> checksum_cache setup_op" where
  "prepare_asset env image_dir asset cache =
     st_then (asset_checksum asset cache) (\<lambda>(expected, cache).
     st_then (fetch_asset env (path_join image_dir [Normal (ia_filename asset)]) (ia_url asset) expected)
       (\<lambda>_. st_ok cache))"

fun prepare_assets :: "image_env \<Rightarrow> path \<Rightarrow> ImageAsset list \<Rightarrow> checksum_cache \<Rightarrow> unit setup_op" where
  "prepare_assets env image_dir [] cache w = (Ok (), w)"
| "prepare_assets env image_dir (asset # rest) cache w =
     st_then (prepare_asset env image_dir asset cache) (prepare_assets env image_dir rest) w"

definition qemu_img_cmd :: "path \<Rightarrow> path \<Rightarrow> Command" where
  "qemu_img_cmd qcow2 raw = \<lparr>cmd_program = ''qemu-img'',
     cmd_args = [''convert'', ''-f'', ''qcow2'', ''-O'', ''raw'', display_path qcow2, display_path raw]\<rparr>"

definition convert_to_raw :: "image_env \<Rightarrow> path \<Rightarrow> path \<Rightarrow> fs \<Rightarrow> (unit, SetupError) result \<times> fs" where
  "convert_to_raw env qcow2 raw w =
     (case ie_exec env (qemu_img_cmd qcow2 raw) w of
        (Err e, w) \<Rightarrow> (Err (SetupIo e), w)
      | (Ok out, w) \<Rightarrow>
        if \<not> out_success out
        then (Err (AssetDownload (''qemu-img convert failed (exit '' @ out_status out @ ''): ''
               @ str_trim (from_utf8_lossy (out_stderr out))
               @ ''. Install qemu-img: brew install qemu (macOS) or apt install qemu-utils (Linux)'')), w)
        else (Ok (), w))"

text \<open>The disk to boot from.\<close>

definition prepare_disk :: "image_env \<Rightarrow> path \<Rightarrow> fs \<Rightarrow> (path, SetupError) result \<times> fs" where
  "prepare_disk env image_dir =
     (let disk_downloaded = path_join image_dir [Normal ''disk.img''];
          raw_path = path_join image_dir [Normal ''disk.raw'']
      in if ie_os env = MacOs
         then st_then (\<lambda>w. if fs_exists w disk_downloaded \<and> \<not> fs_exists w raw_path
                           then convert_to_raw env disk_downloaded raw_path w else (Ok (), w))
                (\<lambda>_ w. (Ok (if fs_exists w raw_path then raw_path else disk_downloaded), w))
         else st_ok disk_downloaded)"

definition image_dir :: "image_env \<Rightarrow> ImageSpec \<Rightarrow> path \<Rightarrow> path" where
  "image_dir env spec cache_dir =
     path_join (path_join (path_join (path_join cache_dir [Normal ''images''])
       (path_of (is_distro spec))) (path_of (is_version spec))) [Normal (arch_display (spec_arch env spec))]"

definition finish_image :: "image_env \<Rightarrow> path \<Rightarrow> PreparedImage setup_op" where
  "finish_image env dir w =
     (let kernel = path_join dir [Normal ''vmlinuz'']; initramfs_path = path_join dir [Normal ''initramfs''];
          initramfs = (if fs_exists (nw_fs w) initramfs_path then Some initramfs_path else None) in
      st_then (lift_fs (prepare_disk env dir)) (\<lambda>disk w.
        (if \<not> fs_exists (nw_fs w) kernel
         then Err (AssetDownload (''kernel not found after download: '' @ display_path kernel))
         else if \<not> fs_exists (nw_fs w) disk
         then Err (AssetDownload (''disk image not found after download: '' @ display_path disk))
         else Ok \<lparr>pi_kernel = kernel, pi_initramfs = initramfs, pi_disk = disk\<rparr>, w)) w)"

definition prepare_image :: "image_env \<Rightarrow> ImageSpec \<Rightarrow> path \<Rightarrow> PreparedImage setup_op" where
  "prepare_image env spec cache_dir =
     (let dir = image_dir env spec cache_dir in
      st_then (lift_fs (\<lambda>s. map_prod (map_err SetupIo) id (fs_create_dir_all dir s))) (\<lambda>_.
      case resolve_image env spec of
        Err e \<Rightarrow> st_fail e
      | Ok assets \<Rightarrow>
        (case ie_client env of
           Err e \<Rightarrow> st_fail (AssetDownload (''failed to create HTTP client: '' @ e))
         | Ok _ \<Rightarrow> st_then (prepare_assets env dir assets Map.empty) (\<lambda>_. finish_image env dir))))"

section \<open>What was published\<close>

text \<open>Requests are only added, and a manifest counts as listed when it was fetched and decoded.\<close>

definition extends :: "net \<Rightarrow> net \<Rightarrow> bool" where
  "extends w w' \<longleftrightarrow> nw_get w' = nw_get w \<and> prefix (nw_log w) (nw_log w')"

definition listed :: "net \<Rightarrow> string \<Rightarrow> checksums \<Rightarrow> bool" where
  "listed w url manifest \<longleftrightarrow> (\<exists>i resp body. i < length (nw_log w) \<and> nw_log w ! i = plain_get url
     \<and> nw_get w i (plain_get url) = Ok resp \<and> is_success resp \<and> hr_text resp = Ok body
     \<and> parse_checksum_manifest body = Ok manifest)"

definition cache_ok :: "net \<Rightarrow> checksum_cache \<Rightarrow> bool" where
  "cache_ok w cache \<longleftrightarrow> (\<forall>url manifest. cache url = Some manifest \<longrightarrow> listed w url manifest)"

text \<open>The asset is in place and hashes to what the manifest of its distributor lists for it.\<close>

definition asset_verified :: "image_env \<Rightarrow> path \<Rightarrow> net \<Rightarrow> ImageAsset \<Rightarrow> bool" where
  "asset_verified env dir w a \<longleftrightarrow> (\<exists>url manifest b. ia_checksum_url a = Some url \<and> listed w url manifest
     \<and> fs_files (nw_fs w) (dir @ [Normal (ia_filename a)]) = Some b
     \<and> map_of manifest (ia_source_filename a) = Some (bytes_hex (ie_sha256 env b)))"

lemma extends_refl [simp]: "extends w w"
  by (simp add: extends_def)

lemma extends_trans: "extends w w1 \<Longrightarrow> extends w1 w2 \<Longrightarrow> extends w w2"
  unfolding extends_def by auto

lemma listed_mono: "extends w w' \<Longrightarrow> listed w url manifest \<Longrightarrow> listed w' url manifest"
  unfolding extends_def listed_def prefix_def by (metis length_append nth_append trans_less_add1)

lemma cache_ok_mono: "extends w w' \<Longrightarrow> cache_ok w cache \<Longrightarrow> cache_ok w' cache"
  by (auto simp: cache_ok_def intro: listed_mono)

lemma fetch_checksum_manifest_effect:
  assumes "fetch_checksum_manifest url w = (r, w')"
  shows "extends w w' \<and> nw_fs w' = nw_fs w \<and> (\<forall>manifest. r = Ok manifest \<longrightarrow> listed w' url manifest)"
  using assms
  by (auto simp: fetch_checksum_manifest_def send_def extends_def listed_def and_then_Ok_iff
      split: result.splits if_splits intro!: exI [of _ "length (nw_log w)"])

lemma cache_checksums_effect:
  assumes "cache_checksums url cache w = (r, w')" "cache_ok w cache"
  shows "extends w w' \<and> nw_fs w' = nw_fs w
     \<and> (\<forall>cache'. r = Ok cache' \<longrightarrow> cache_ok w' cache' \<and> (\<exists>m. cache' url = Some m))"
proof (cases "cache url")
  case None
  obtain rf w1 where f: "fetch_checksum_manifest url w = (rf, w1)" by force
  note eff = fetch_checksum_manifest_effect [OF f]
  show ?thesis
    using assms(1) f None eff cache_ok_mono [of w w1 cache] assms(2)
    by (cases rf) (auto simp: cache_checksums_def cache_ok_def split: if_splits)
next
  case (Some m)
  then show ?thesis using assms by (auto simp: cache_checksums_def)
qed

lemma asset_checksum_effect:
  assumes "asset_checksum a cache w = (r, w')" "cache_ok w cache"
  shows "extends w w' \<and> nw_fs w' = nw_fs w
     \<and> (\<forall>x cache'. r = Ok (x, cache') \<longrightarrow> cache_ok w' cache' \<and>
          (\<forall>url. ia_checksum_url a = Some url \<longrightarrow>
             (\<exists>h m. x = Some h \<and> listed w' url m \<and> map_of m (ia_source_filename a) = Some h)))"
proof (cases "ia_checksum_url a")
  case None
  then show ?thesis using assms by (auto simp: asset_checksum_def)
next
  case (Some url)
  obtain rc w1 where c: "cache_checksums url cache w = (rc, w1)" by force
  note eff = cache_checksums_effect [OF c assms(2)]
  show ?thesis
    using assms(1) Some c eff
    by (cases rc) (auto simp: asset_checksum_def expected_sha256_def st_then_def cache_ok_def
        split: option.splits bind_splits)
qed

text \<open>A download replaces the file with bytes of the expected digest, or leaves every other file
  alone.\<close>

lemma setup_io_result: "map_prod (map_err SetupIo) id x = (r, s) \<Longrightarrow> \<exists>r1. x = (r1, s) \<and> r = map_err SetupIo r1"
  by (cases x) auto

lemma download_file_effect:
  assumes "download_file env url p expected w = (r, w')"
  shows "extends w w'
     \<and> (\<forall>q. q \<noteq> p \<and> q \<noteq> with_extension p ''tmp'' \<longrightarrow> fs_files (nw_fs w') q = fs_files (nw_fs w) q)
     \<and> (\<forall>h. r = Ok () \<and> expected = Some h \<longrightarrow>
          (\<exists>b. fs_files (nw_fs w') p = Some b \<and> bytes_hex (ie_sha256 env b) = h))"
proof (cases "fs_files (nw_fs w') = fs_files (nw_fs w) \<and> extends w w' \<and> (\<forall>u. r \<noteq> Ok u)")
  case False
  then obtain data s r1 where rep: "fs_replace p data (nw_fs w) = (r1, s)"
    and w': "nw_fs w' = s" "r = map_err SetupIo r1" "extends w w'"
    and h: "\<forall>h. expected = Some h \<longrightarrow> bytes_hex (ie_sha256 env data) = h"
    using assms
    by (auto simp: download_file_def send_def extends_def lift_fs_def verify_bytes_def and_then_Ok_iff Let_def
        split: result.splits prod.splits if_splits option.splits dest!: setup_io_result)
  show ?thesis
    using fs_replace_effect [OF rep] w' h by (cases r1) auto
qed auto

lemma fetch_asset_effect:
  assumes "fetch_asset env p url expected w = (r, w')"
  shows "extends w w'
     \<and> (\<forall>q. q \<noteq> p \<and> q \<noteq> with_extension p ''tmp'' \<longrightarrow> fs_files (nw_fs w') q = fs_files (nw_fs w) q)
     \<and> (\<forall>h. r = Ok () \<and> expected = Some h \<longrightarrow>
          (\<exists>b. fs_files (nw_fs w') p = Some b \<and> bytes_hex (ie_sha256 env b) = h))"
proof (cases "r = Ok () \<and> w' = w \<and> fs_exists (nw_fs w) p \<or> (\<exists>e. r = Err e \<and> w' = w)")
  case True
  then show ?thesis
    using assms by (auto simp: fetch_asset_def verify_download_def fs_read_def verify_bytes_def ok_or_def Let_def
        split: result.splits if_splits option.splits)
next
  case False
  then have "download_file env url p expected w = (r, w')"
    using assms by (auto simp: fetch_asset_def split: result.splits if_splits)
  then show ?thesis by (rule download_file_effect)
qed

lemma prepare_asset_effect:
  assumes "prepare_asset env dir a cache w = (r, w')" "cache_ok w cache" "dir \<noteq> []"
  defines "p \<equiv> dir @ [Normal (ia_filename a)]"
  shows "extends w w'"
    and "q \<noteq> p \<Longrightarrow> q \<noteq> with_extension p ''tmp'' \<Longrightarrow> fs_files (nw_fs w') q = fs_files (nw_fs w) q"
    and "r = Ok cache' \<Longrightarrow> cache_ok w' cache'"
    and "r = Ok cache' \<Longrightarrow> ia_checksum_url a \<noteq> None \<Longrightarrow> asset_verified env dir w' a"
proof -
  obtain rc w1 where c: "asset_checksum a cache w = (rc, w1)" by force
  note ceff = asset_checksum_effect [OF c assms(2)]
  have *: "extends w w' \<and> (q \<noteq> p \<longrightarrow> q \<noteq> with_extension p ''tmp'' \<longrightarrow> fs_files (nw_fs w') q = fs_files (nw_fs w) q)
      \<and> (r = Ok cache' \<longrightarrow> cache_ok w' cache' \<and> (ia_checksum_url a \<noteq> None \<longrightarrow> asset_verified env dir w' a))"
  proof (cases rc)
    case (Err e)
    then have "r = Err e" "w' = w1" using assms(1) c by (simp_all add: prepare_asset_def)
    then show ?thesis using ceff by simp
  next
    case (Ok y)
    then obtain x cache1 where y: "rc = Ok (x, cache1)" by (cases y) auto
    obtain rf w2 where f: "fetch_asset env p (ia_url a) x w1 = (rf, w2)" by force
    note feff = fetch_asset_effect [OF f]
    have w': "w' = w2" "r = (case rf of Ok _ \<Rightarrow> Ok cache1 | Err e \<Rightarrow> Err e)"
      using assms(1,3) c y f by (cases rf; simp add: prepare_asset_def p_def)+
    have ext: "extends w w'" using ceff feff w'(1) extends_trans by blast
    have "asset_verified env dir w' a" if r: "r = Ok cache'" and url: "ia_checksum_url a = Some url" for url
    proof -
      obtain h m where "x = Some h" "listed w1 url m" "map_of m (ia_source_filename a) = Some h"
        using ceff y url by blast
      moreover have "rf = Ok ()" using r w'(2) by (cases rf) auto
      ultimately show ?thesis
        using feff url w'(1) listed_mono [of w1 w2] unfolding asset_verified_def p_def by metis
    qed
    then show ?thesis
      using ceff feff y w' ext cache_ok_mono [of w1 w2] by (cases rf) auto
  qed
  then show "extends w w'" by simp
  show "q \<noteq> p \<Longrightarrow> q \<noteq> with_extension p ''tmp'' \<Longrightarrow> fs_files (nw_fs w') q = fs_files (nw_fs w) q"
    "r = Ok cache' \<Longrightarrow> cache_ok w' cache'"
    "r = Ok cache' \<Longrightarrow> ia_checksum_url a \<noteq> None \<Longrightarrow> asset_verified env dir w' a"
    using * by simp_all
qed

lemma tmp_of_child: "with_extension (dir @ [Normal n]) ''tmp'' = dir @ [Normal (file_stem n @ ''.tmp'')]"
  by (simp add: with_extension_def)

definition writes_of :: "path \<Rightarrow> ImageAsset list \<Rightarrow> path set" where
  "writes_of dir assets = (\<Union>a \<in> set assets. {dir @ [Normal (ia_filename a)], dir @ [Normal (file_stem (ia_filename a) @ ''.tmp'')]})"

fun separate :: "path \<Rightarrow> ImageAsset list \<Rightarrow> bool" where
  "separate dir [] = True"
| "separate dir (a # as) = (dir @ [Normal (ia_filename a)] \<notin> writes_of dir as \<and> separate dir as)"

lemma asset_verified_mono:
  assumes "asset_verified env dir w a" "extends w w'"
    "fs_files (nw_fs w') (dir @ [Normal (ia_filename a)]) = fs_files (nw_fs w) (dir @ [Normal (ia_filename a)])"
  shows "asset_verified env dir w' a"
  using assms listed_mono unfolding asset_verified_def by metis

lemma prepare_assets_effect:
  assumes "prepare_assets env dir as cache w = (r, w')" "cache_ok w cache" "dir \<noteq> []"
  shows "extends w w' \<and> (\<forall>q. q \<notin> writes_of dir as \<longrightarrow> fs_files (nw_fs w') q = fs_files (nw_fs w) q)
     \<and> (r = Ok () \<and> separate dir as \<and> (\<forall>a \<in> set as. ia_checksum_url a \<noteq> None) \<longrightarrow> (\<forall>a \<in> set as. asset_verified env dir w' a))"
  using assms
proof (induction as arbitrary: cache w)
  case (Cons a as)
  obtain ra w1 where a: "prepare_asset env dir a cache w = (ra, w1)" by force
  note eff = prepare_asset_effect [OF a Cons.prems(2,3)]
  show ?case
  proof (cases ra)
    case (Err e)
    then have "r = Err e" "w' = w1" using Cons.prems(1) a by simp_all
    then show ?thesis using eff(1,2) by (auto simp: writes_of_def tmp_of_child)
  next
    case (Ok cache1)
    then have rest: "prepare_assets env dir as cache1 w1 = (r, w')" using Cons.prems(1) a by simp
    note IH = Cons.IH [OF rest eff(3) [OF Ok] Cons.prems(3)]
    have "asset_verified env dir w' a" if "separate dir (a # as)" "ia_checksum_url a \<noteq> None"
      using asset_verified_mono [OF eff(4) [OF Ok that(2)]] IH that(1) by simp
    moreover have "fs_files (nw_fs w') q = fs_files (nw_fs w) q" if "q \<notin> writes_of dir (a # as)" for q
      using that IH eff(2) [of q] by (simp add: writes_of_def tmp_of_child)
    ultimately show ?thesis using IH extends_trans [OF eff(1)] by auto
  qed
qed simp

lemma image_dir_nonempty [simp]: "image_dir env spec c \<noteq> []"
  by (auto simp: image_dir_def path_join_def is_absolute_def)

lemma resolve_image_separate:
  assumes "resolve_image env spec = Ok as"
  shows "map ia_filename as = [''vmlinuz'', ''initramfs'', ''disk.img'']" "separate dir as"
    "\<forall>a \<in> set as. ia_checksum_url a \<noteq> None" "dir @ [Normal ''disk.raw''] \<notin> writes_of dir as"
proof -
  obtain arch where as: "resolve_ubuntu (is_version spec) arch = Ok as"
    using assms by (auto simp: resolve_image_def Let_def split: if_splits)
  then show names: "map ia_filename as = [''vmlinuz'', ''initramfs'', ''disk.img'']"
    and "\<forall>a \<in> set as. ia_checksum_url a \<noteq> None"
    by (auto simp: resolve_ubuntu_def Let_def)
  have stems: "file_stem ''vmlinuz'' = ''vmlinuz''" "file_stem ''initramfs'' = ''initramfs''" "file_stem ''disk.img'' = ''disk''"
    by code_simp+
  show "separate dir as" "dir @ [Normal ''disk.raw''] \<notin> writes_of dir as"
    using names by (auto simp: writes_of_def Cons_eq_map_conv map_eq_Cons_conv stems)
qed

section \<open>What \<open>prepare_image\<close> returns\<close>

text \<open>\<open>qemu-img convert\<close> writes no file but its output.\<close>

definition qemu_writes_raw :: "exec \<Rightarrow> bool" where
  "qemu_writes_raw exec \<longleftrightarrow> (\<forall>qcow2 raw w r w' q. exec (qemu_img_cmd qcow2 raw) w = (r, w') \<longrightarrow> q \<noteq> raw
     \<longrightarrow> fs_files w' q = fs_files w q)"

lemma prepare_disk_effect:
  assumes "prepare_disk env dir w = (r, w')" "qemu_writes_raw (ie_exec env)" "dir \<noteq> []"
  shows "(q \<noteq> dir @ [Normal ''disk.raw''] \<longrightarrow> fs_files w' q = fs_files w q)
     \<and> (fs_exists w (dir @ [Normal ''disk.raw'']) \<longrightarrow> w' = w)
     \<and> (\<forall>disk. r = Ok disk \<longrightarrow> disk = dir @ [Normal ''disk.img'']
          \<or> ie_os env = MacOs \<and> disk = dir @ [Normal ''disk.raw''])
     \<and> (ie_os env = MacOs \<and> fs_exists w (dir @ [Normal ''disk.raw'']) \<longrightarrow> r = Ok (dir @ [Normal ''disk.raw'']))"
proof -
  let ?img = "dir @ [Normal ''disk.img'']" and ?raw = "dir @ [Normal ''disk.raw'']"
  have conv: "fs_files w2 q = fs_files w1 q" if "convert_to_raw env ?img ?raw w1 = (r2, w2)" "q \<noteq> ?raw" for r2 w1 w2
    using that assms(2) unfolding qemu_writes_raw_def convert_to_raw_def
    by (auto split: prod.splits result.splits if_splits)
  show ?thesis
    using assms(1,3) conv
    by (cases "convert_to_raw env ?img ?raw w"; cases "fst (convert_to_raw env ?img ?raw w)")
      (auto simp: prepare_disk_def st_then_def Let_def split: if_splits)
qed

lemma finish_image_Ok:
  assumes "finish_image env dir w = (Ok img, w')" "dir \<noteq> []"
  shows "prepare_disk env dir (nw_fs w) = (Ok (pi_disk img), nw_fs w')" "w' = w\<lparr>nw_fs := nw_fs w'\<rparr>"
    "pi_kernel img = dir @ [Normal ''vmlinuz'']"
    "pi_initramfs img = (if fs_exists (nw_fs w) (dir @ [Normal ''initramfs'']) then Some (dir @ [Normal ''initramfs'']) else None)"
  using assms
  by (cases "prepare_disk env dir (nw_fs w)"; auto simp: finish_image_def Let_def st_then_Ok_iff lift_fs_def split: if_splits)+

lemma prepare_image_Ok:
  assumes "prepare_image env spec cache_dir w = (Ok img, w')"
  obtains as w1 w2 where "resolve_image env spec = Ok as"
    "nw_log w1 = nw_log w" "nw_get w1 = nw_get w" "fs_files (nw_fs w1) = fs_files (nw_fs w)"
    "prepare_assets env (image_dir env spec cache_dir) as Map.empty w1 = (Ok (), w2)"
    "finish_image env (image_dir env spec cache_dir) w2 = (Ok img, w')"
proof -
  let ?dir = "image_dir env spec cache_dir"
  obtain rd fs1 where d: "fs_create_dir_all ?dir (nw_fs w) = (rd, fs1)" by force
  then have fs1: "fs_files fs1 = fs_files (nw_fs w)" using fs_create_dir_all_files [of ?dir "nw_fs w"] by simp
  let ?w1 = "w\<lparr>nw_fs := fs1\<rparr>"
  from assms d obtain as u w2 where "resolve_image env spec = Ok as"
    "prepare_assets env ?dir as Map.empty ?w1 = (Ok u, w2)" "finish_image env ?dir w2 = (Ok img, w')"
    by (auto simp: prepare_image_def Let_def st_then_Ok_iff lift_fs_def split: result.splits)
  then show thesis using fs1 by (intro that [of as ?w1 w2]) simp_all
qed

text \<open>C16: an image that is prepared is the image that was published.  When \<open>prepare_image\<close> succeeds, the
  kernel, the initramfs and the downloaded disk in the cache, whether they were there before or are
  new, hash to the digests that checksum manifests fetched by this very call list for them, and the
  result names them (on macOS it may name the converted disk instead of the downloaded one).\<close>

theorem prepare_image_verified:
  assumes "prepare_image env spec cache_dir w = (Ok img, w')" "qemu_writes_raw (ie_exec env)" "nw_log w = []"
  shows "let dir = image_dir env spec cache_dir in
     (\<exists>as. resolve_image env spec = Ok as \<and> map ia_filename as = [''vmlinuz'', ''initramfs'', ''disk.img'']
        \<and> (\<forall>a \<in> set as. asset_verified env dir w' a))
     \<and> pi_kernel img = dir @ [Normal ''vmlinuz''] \<and> pi_initramfs img = Some (dir @ [Normal ''initramfs''])
     \<and> (ie_os env \<noteq> MacOs \<longrightarrow> pi_disk img = dir @ [Normal ''disk.img''])"
proof -
  let ?dir = "image_dir env spec cache_dir"
  obtain as w1 w2 where as: "resolve_image env spec = Ok as"
    and p: "prepare_assets env ?dir as Map.empty w1 = (Ok (), w2)" and f: "finish_image env ?dir w2 = (Ok img, w')"
    by (rule prepare_image_Ok [OF assms(1)])
  note names = resolve_image_separate [OF as] and fin = finish_image_Ok [OF f image_dir_nonempty]
  have ver: "\<forall>a \<in> set as. asset_verified env ?dir w2 a"
    using prepare_assets_effect [OF p] names(2,3) by (simp add: cache_ok_def)
  have disk: "q \<noteq> ?dir @ [Normal ''disk.raw''] \<longrightarrow> fs_files (nw_fs w') q = fs_files (nw_fs w2) q"
    "pi_disk img = ?dir @ [Normal ''disk.img''] \<or> ie_os env = MacOs" for q
    using prepare_disk_effect [OF fin(1) assms(2) image_dir_nonempty] by auto
  have ext: "extends w2 w'" using arg_cong [OF fin(2), of nw_get] arg_cong [OF fin(2), of nw_log] by (simp add: extends_def)
  have fname: "ia_filename a \<in> {''vmlinuz'', ''initramfs'', ''disk.img''}" if "a \<in> set as" for a
    using names(1) that by (auto simp: map_eq_Cons_conv)
  have "asset_verified env ?dir w' a" if "a \<in> set as" for a
    using asset_verified_mono [OF bspec [OF ver that] ext] disk(1) fname [OF that] by auto
  moreover have "fs_exists (nw_fs w2) (?dir @ [Normal ''initramfs''])"
    using ver names(1) by (auto simp: map_eq_Cons_conv asset_verified_def fs_exists_def)
  ultimately show ?thesis using as names(1) fin(3,4) disk(2) by (auto simp: Let_def)
qed

text \<open>On macOS the converted disk is taken on trust.  If a \<open>disk.raw\<close> is in the cache, from whatever
  source and with whatever content, for instance what an interrupted \<open>qemu-img\<close> left, then a
  successful \<open>prepare_image\<close> returns it as it is: it is neither checked nor made again.\<close>

theorem raw_disk_taken_on_trust:
  assumes "prepare_image env spec cache_dir w = (Ok img, w')" "qemu_writes_raw (ie_exec env)" "ie_os env = MacOs"
    and "fs_files (nw_fs w) (image_dir env spec cache_dir @ [Normal ''disk.raw'']) = Some b"
  shows "pi_disk img = image_dir env spec cache_dir @ [Normal ''disk.raw'']
     \<and> fs_files (nw_fs w') (image_dir env spec cache_dir @ [Normal ''disk.raw'']) = Some b"
proof -
  let ?dir = "image_dir env spec cache_dir"
  let ?raw = "?dir @ [Normal ''disk.raw'']"
  obtain as w1 w2 where as: "resolve_image env spec = Ok as" "fs_files (nw_fs w1) = fs_files (nw_fs w)"
    and p: "prepare_assets env ?dir as Map.empty w1 = (Ok (), w2)" and f: "finish_image env ?dir w2 = (Ok img, w')"
    by (rule prepare_image_Ok [OF assms(1)])
  have raw: "fs_files (nw_fs w2) ?raw = Some b"
    using prepare_assets_effect [OF p] resolve_image_separate(4) [OF as(1)] as(2) assms(4) by (simp add: cache_ok_def)
  then have "fs_exists (nw_fs w2) ?raw" by (simp add: fs_exists_def)
  then show ?thesis
    using prepare_disk_effect [OF finish_image_Ok(1) [OF f image_dir_nonempty] assms(2) image_dir_nonempty] assms(3) raw
    by auto
qed

lemma fetch_checksum_manifest_log:
  "nw_log (snd (fetch_checksum_manifest url w)) = nw_log w @ [plain_get url]"
  by (simp add: fetch_checksum_manifest_def send_def split: result.split)

text \<open>No answer of the network lists the digest for the file.\<close>

definition never_lists :: "net \<Rightarrow> string \<Rightarrow> string \<Rightarrow> bool" where
  "never_lists w name digest \<longleftrightarrow> (\<forall>i rq resp body m. nw_get w i rq = Ok resp \<longrightarrow> hr_text resp = Ok body
     \<longrightarrow> parse_checksum_manifest body = Ok m \<longrightarrow> map_of m name \<noteq> Some digest)"

lemma prepare_corrupt_asset:
  assumes "prepare_asset env dir a Map.empty w = (r, w')" "ia_checksum_url a = Some url" "dir \<noteq> []"
    and "fs_files (nw_fs w) (dir @ [Normal (ia_filename a)]) = Some b"
    and "never_lists w (ia_source_filename a) (bytes_hex (ie_sha256 env b))"
  shows "\<exists>e. r = Err e \<and> nw_fs w' = nw_fs w \<and> nw_log w' = nw_log w @ [plain_get url]"
proof -
  let ?p = "dir @ [Normal (ia_filename a)]"
  obtain rc w1 where c: "asset_checksum a Map.empty w = (rc, w1)" by force
  have eff: "nw_fs w1 = nw_fs w" "\<And>x cache. rc = Ok (x, cache) \<Longrightarrow>
      \<exists>h m. x = Some h \<and> listed w1 url m \<and> map_of m (ia_source_filename a) = Some h"
    "nw_get w1 = nw_get w"
    using asset_checksum_effect [OF c] assms(2) by (auto simp: cache_ok_def extends_def)
  have log: "nw_log w1 = nw_log w @ [plain_get url]"
    using c assms(2) fetch_checksum_manifest_log [of url w]
    by (cases "fetch_checksum_manifest url w"; cases "fst (fetch_checksum_manifest url w)")
      (auto simp: asset_checksum_def expected_sha256_def cache_checksums_def st_then_def split: option.splits)
  show ?thesis
  proof (cases rc)
    case (Err e)
    then show ?thesis using assms(1) c eff(1) log by (auto simp: prepare_asset_def)
  next
    case (Ok y)
    then obtain x cache1 where y: "rc = Ok (x, cache1)" by (cases y) auto
    obtain h m where x: "x = Some h" "listed w1 url m" "map_of m (ia_source_filename a) = Some h" using eff(2) [OF y] by blast
    obtain rf w2 where f: "fetch_asset env ?p (ia_url a) x w1 = (rf, w2)" by force
    have "w' = w2" "r = (case rf of Ok _ \<Rightarrow> Ok cache1 | Err e \<Rightarrow> Err e)"
      using assms(1,3) c y f by (cases rf; simp add: prepare_asset_def)+
    moreover from this(1) have "h \<noteq> bytes_hex (ie_sha256 env b)"
      using assms(5) x eff(3) by (auto simp: never_lists_def listed_def)
    then have "\<exists>e. rf = Err e \<and> w2 = w1"
      using f eff(1) assms(4) x(1)
      by (auto simp: fetch_asset_def fs_exists_def verify_download_def fs_read_def verify_bytes_def Let_def
          split: option.splits result.splits)
    ultimately show ?thesis using eff(1) log by auto
  qed
qed

text \<open>A corrupt file in the cache is never repaired.  If the cached kernel does not hash to what the
  checksum manifests list, \<open>prepare_image\<close> returns an error, changes no file and requests nothing but
  the manifest: the branch that downloads a file again after a failed verification is not reached,
  and every later call fails in the same way.\<close>

theorem corrupt_cache_not_repaired:
  assumes "resolve_image env spec = Ok (k # rest)"
    and "fs_files (nw_fs w) (image_dir env spec cache_dir @ [Normal ''vmlinuz'']) = Some b"
    and "never_lists w (ia_source_filename k) (bytes_hex (ie_sha256 env b))"
    and "prepare_image env spec cache_dir w = (r, w')" "nw_log w = []"
  shows "\<exists>e. r = Err e \<and> fs_files (nw_fs w') = fs_files (nw_fs w)
     \<and> (\<forall>rq \<in> set (nw_log w'). Some (rq_url rq) = ia_checksum_url k)"
proof -
  let ?dir = "image_dir env spec cache_dir"
  have name: "ia_filename k = ''vmlinuz''" using resolve_image_separate(1) [OF assms(1)] by simp
  obtain url where url: "ia_checksum_url k = Some url" using resolve_image_separate(3) [OF assms(1)] by auto
  obtain rd fs1 where d: "fs_create_dir_all ?dir (nw_fs w) = (rd, fs1)" by force
  let ?w1 = "w\<lparr>nw_fs := fs1\<rparr>"
  have fs1: "fs_files fs1 = fs_files (nw_fs w)" using fs_create_dir_all_files [of ?dir "nw_fs w"] d by simp
  obtain ra w2 where a: "prepare_asset env ?dir k Map.empty ?w1 = (ra, w2)" by force
  have "\<exists>e. ra = Err e \<and> nw_fs w2 = fs1 \<and> nw_log w2 = nw_log w @ [plain_get url]"
    using prepare_corrupt_asset [OF a url image_dir_nonempty, of b] assms(2,3) fs1 name by (simp add: never_lists_def)
  then show ?thesis
    using assms(1,4,5) d a fs1 url
    by (cases rd; cases "ie_client env") (auto simp: prepare_image_def Let_def lift_fs_def st_then_def plain_get_def)
qed

section \<open>The format of checksum files\<close>

text \<open>A line of \<open>sha256sum\<close>, in text or in binary mode, for an ASCII file name that neither starts nor
  ends with white space and has no line break; and the name it is filed under, without the stars
  and the \<open>./\<close> it starts with.\<close>

record sums_entry =
  se_digest :: string
  se_binary :: bool
  se_name :: string

definition sums_line :: "sums_entry \<Rightarrow> string" where
  "sums_line e = se_digest e @ (if se_binary e then '' *'' else ''  '') @ se_name e"

definition sums_ok :: "sums_entry \<Rightarrow> bool" where
  "sums_ok e \<longleftrightarrow> length (se_digest e) = 64 \<and> list_all is_ascii_hexdigit (se_digest e)
     \<and> se_name e \<noteq> [] \<and> list_all (\<lambda>c. code c < 128 \<and> c \<noteq> CHR 0x0A) (se_name e)
     \<and> \<not> ascii_ws (hd (se_name e)) \<and> \<not> ascii_ws (last (se_name e))"

definition sums_key :: "sums_entry \<Rightarrow> string" where
  "sums_key e = trim_start_str ''./'' (trim_start_char (CHR ''*'') (se_name e))"

lemma hexdigit_token: "is_ascii_hexdigit c \<Longrightarrow> code c < 128 \<and> \<not> ascii_ws c \<and> c \<noteq> CHR ''#''"
  by (auto simp: is_ascii_hexdigit_def is_ascii_digit_def ascii_ws_def)

lemma checksum_line:
  assumes "sums_ok e"
  shows "checksum_lines (sums_line e # rest) m
     = checksum_lines rest (AList.update (sums_key e) (to_ascii_lowercase (se_digest e)) m)"
proof -
  let ?d = "se_digest e" and ?n = "se_name e"
  define star where "star = (if se_binary e then ''*'' else '' '')"
  have line: "sums_line e = ?d @ CHR '' '' # star @ ?n" by (simp add: sums_line_def star_def)
  note ok = assms [unfolded sums_ok_def]
  have ne: "?d \<noteq> []" using ok by auto
  have d: "ascii_str ?d" "list_all (\<lambda>c. \<not> ascii_ws c) ?d" "\<not> ascii_ws (hd ?d)" "\<not> ascii_ws (last ?d)"
    "hd ?d \<noteq> CHR ''#''"
    using ok hexdigit_token hd_in_set [OF ne] last_in_set [OF ne] by (auto simp: list_all_iff ascii_str_def)
  have n: "ascii_str ?n" "\<not> ascii_ws (last ?n)" "\<not> ascii_ws (hd ?n)"
    using ok by (auto simp: list_all_iff ascii_str_def)
  have trim: "str_trim (sums_line e) = sums_line e"
    using str_trim_ascii [of "[]" "sums_line e"] d n ok ne
    by (auto simp: line star_def ascii_str_def ascii_ws_def)
  have find: "find_whitespace (sums_line e) = Some (length ?d)"
    unfolding line by (rule find_whitespace_token [OF d(1,2)])
  have digest: "str_trim (take (length ?d) (sums_line e)) = ?d"
    using str_trim_ascii [of "[]" ?d] d ne by (simp add: line)
  have "trim_start_char (CHR ''*'') (str_trim (CHR '' '' # star @ ?n)) = trim_start_char (CHR ''*'') ?n"
  proof (cases "se_binary e")
    case True
    then show ?thesis
      using str_trim_ascii [of "'' ''" "CHR ''*'' # ?n"] n ok
      by (cases ?n) (auto simp: star_def ascii_str_def ascii_ws_def trim_start_char_def)
  next
    case False
    then show ?thesis
      using str_trim_ascii [of "''  ''" ?n] n ok
      by (cases ?n) (auto simp: star_def ascii_str_def ascii_ws_def trim_start_char_def)
  qed
  then have name: "trim_start_str ''./'' (trim_start_char (CHR ''*'') (str_trim (drop (length ?d) (sums_line e)))) = sums_key e"
    by (simp add: line sums_key_def)
  have "sums_line e \<noteq> []" "\<not> starts_with ''#'' (sums_line e)"
    using d ne by (cases ?d; simp add: line starts_with_iff)+
  then show ?thesis using trim find digest name ok by (simp add: Let_def)
qed

lemma checksum_lines_sums:
  "list_all sums_ok xs \<Longrightarrow> \<exists>m'. checksum_lines (map sums_line xs) m = Ok m'
     \<and> map_of m' = map_of m ++ map_of (rev (map (\<lambda>e. (sums_key e, to_ascii_lowercase (se_digest e))) xs))
     \<and> (m' = [] \<longleftrightarrow> m = [] \<and> xs = [])"
proof (induction xs arbitrary: m)
  case (Cons e xs)
  let ?m = "AList.update (sums_key e) (to_ascii_lowercase (se_digest e)) m"
  have ne: "?m \<noteq> []" by (cases m) (auto split: prod.split if_splits)
  obtain m' where "checksum_lines (map sums_line xs) ?m = Ok m'"
    "map_of m' = map_of ?m ++ map_of (rev (map (\<lambda>e. (sums_key e, to_ascii_lowercase (se_digest e))) xs))" "m' \<noteq> []"
    using Cons.IH [of ?m] Cons.prems ne by auto
  then show ?case using Cons.prems by (simp add: checksum_line update_conv' map_add_assoc [symmetric] del: checksum_lines.simps)
qed simp

lemma sums_line_ok: "sums_ok e \<Longrightarrow> line_ok (sums_line e)"
proof -
  assume ok: "sums_ok e"
  have "CHR 0x0A \<notin> set (se_digest e)"
    using ok hexdigit_token [of "CHR 0x0A"] by (auto simp: sums_ok_def list_all_iff ascii_ws_def)
  moreover have "CHR 0x0A \<notin> set (se_name e)" using ok by (auto simp: sums_ok_def list_all_iff)
  moreover have "ascii_ws (CHR 0x0D)" by (simp add: ascii_ws_def)
  then have "last (se_name e) \<noteq> CHR 0x0D" using ok unfolding sums_ok_def by metis
  ultimately show ?thesis using ok by (auto simp: line_ok_def sums_line_def sums_ok_def)
qed


section \<open>When preparation succeeds\<close>

text \<open>The network serves an asset: the manifest lists it, the bytes match, and so does a cached copy.\<close>

definition serves :: "image_env \<Rightarrow> path \<Rightarrow> net \<Rightarrow> ImageAsset \<Rightarrow> bool" where
  "serves env dir w a \<longleftrightarrow> (\<exists>url sums body m resp b.
     ia_checksum_url a = Some url \<and> (\<forall>i. nw_get w i (plain_get url) = Ok sums) \<and> is_success sums
     \<and> hr_text sums = Ok body \<and> parse_checksum_manifest body = Ok m
     \<and> (\<forall>i. nw_get w i (plain_get (ia_url a)) = Ok resp) \<and> is_success resp \<and> hr_body resp = Ok b
     \<and> map_of m (ia_source_filename a) = Some (bytes_hex (ie_sha256 env b))
     \<and> (\<forall>c. fs_files (nw_fs w) (dir @ [Normal (ia_filename a)]) = Some c
            \<longrightarrow> bytes_hex (ie_sha256 env c) = bytes_hex (ie_sha256 env b)))"

definition writable :: "path \<Rightarrow> fs \<Rightarrow> bool" where
  "writable dir w \<longleftrightarrow> fs_fault w = (\<lambda>_ _. None) \<and> dir \<in> fs_dirs w \<and> (\<forall>n. dir @ [Normal n] \<notin> fs_dirs w)"

lemma fs_replace_live:
  assumes "writable dir w" "dir \<noteq> []"
  shows "\<exists>w'. fs_replace (dir @ [Normal n]) b w = (Ok (), w') \<and> writable dir w'"
  using assms
  by (simp add: fs_replace_def Let_def tmp_of_child fs_write_def fs_is_dir_def parent_ready_def fs_open_def fs_sync_def
      fs_rename_def writable_def)

lemma asset_checksum_live:
  assumes "serves env dir w a" "cache_ok w cache"
  shows "\<exists>h cache' w'. asset_checksum a cache w = (Ok (Some h, cache'), w') \<and>
     (\<exists>resp b. (\<forall>i. nw_get w i (plain_get (ia_url a)) = Ok resp) \<and> is_success resp \<and> hr_body resp = Ok b
        \<and> h = bytes_hex (ie_sha256 env b) \<and> (\<forall>c. fs_files (nw_fs w) (dir @ [Normal (ia_filename a)]) = Some c
            \<longrightarrow> bytes_hex (ie_sha256 env c) = h))"
proof -
  obtain url sums body m resp b where s: "ia_checksum_url a = Some url" "\<And>i. nw_get w i (plain_get url) = Ok sums"
    "is_success sums" "hr_text sums = Ok body" "parse_checksum_manifest body = Ok m"
    "\<forall>i. nw_get w i (plain_get (ia_url a)) = Ok resp" "is_success resp" "hr_body resp = Ok b"
    "map_of m (ia_source_filename a) = Some (bytes_hex (ie_sha256 env b))"
    "\<forall>c. fs_files (nw_fs w) (dir @ [Normal (ia_filename a)]) = Some c
            \<longrightarrow> bytes_hex (ie_sha256 env c) = bytes_hex (ie_sha256 env b)"
    using assms(1) unfolding serves_def by blast
  have "\<exists>cache' w'. cache_checksums url cache w = (Ok cache', w') \<and> cache' url = Some m"
  proof (cases "cache url")
    case None
    then show ?thesis using s(2-5) by (simp add: cache_checksums_def fetch_checksum_manifest_def send_def)
  next
    case (Some m')
    then have "listed w url m'" using assms(2) by (simp add: cache_ok_def)
    then have "m' = m" using s(2-5) by (auto simp: listed_def)
    then show ?thesis using Some by (simp add: cache_checksums_def)
  qed
  then show ?thesis using s(1,6-10) by (fastforce simp: asset_checksum_def expected_sha256_def)
qed

lemma prepare_asset_live:
  assumes "serves env dir w a" "cache_ok w cache" "writable dir (nw_fs w)" "dir \<noteq> []"
  shows "\<exists>cache' w'. prepare_asset env dir a cache w = (Ok cache', w') \<and> writable dir (nw_fs w')"
proof -
  let ?p = "dir @ [Normal (ia_filename a)]"
  obtain h cache1 w1 resp b where c: "asset_checksum a cache w = (Ok (Some h, cache1), w1)"
    and b: "\<And>i. nw_get w i (plain_get (ia_url a)) = Ok resp" "is_success resp" "hr_body resp = Ok b" "h = bytes_hex (ie_sha256 env b)"
    and cached: "\<forall>c. fs_files (nw_fs w) ?p = Some c \<longrightarrow> bytes_hex (ie_sha256 env c) = h"
    using asset_checksum_live [OF assms(1,2)] by blast
  have w1: "nw_fs w1 = nw_fs w" "nw_get w1 = nw_get w"
    using asset_checksum_effect [OF c assms(2)] by (auto simp: extends_def)
  have "\<exists>w'. fetch_asset env ?p (ia_url a) (Some h) w1 = (Ok (), w') \<and> writable dir (nw_fs w')"
  proof (cases "fs_files (nw_fs w) ?p")
    case None
    then have "\<not> fs_exists (nw_fs w) ?p" using assms(3,4) by (auto simp: fs_exists_def fs_is_dir_def writable_def)
    moreover obtain s where "fs_replace ?p b (nw_fs w) = (Ok (), s)" "writable dir s"
      using fs_replace_live [OF assms(3,4)] by blast
    ultimately show ?thesis
      using b by (simp add: fetch_asset_def w1 download_file_def send_def verify_bytes_def lift_fs_def)
  next
    case (Some x)
    then show ?thesis
      using cached assms(3)
      by (simp add: fetch_asset_def w1 fs_exists_def verify_download_def fs_read_def verify_bytes_def writable_def)
  qed
  then show ?thesis using c assms(4) by (auto simp: prepare_asset_def)
qed

lemma prepare_assets_live:
  assumes "\<forall>a \<in> set as. serves env dir w a" "cache_ok w cache" "writable dir (nw_fs w)" "dir \<noteq> []"
    and "sorted_wrt (\<lambda>a b. dir @ [Normal (ia_filename b)] \<notin> writes_of dir [a]) as"
  shows "\<exists>w'. prepare_assets env dir as cache w = (Ok (), w')"
  using assms
proof (induction as arbitrary: cache w)
  case (Cons a as)
  obtain cache1 w1 where a: "prepare_asset env dir a cache w = (Ok cache1, w1)" and w1: "writable dir (nw_fs w1)"
    using prepare_asset_live [of env dir w a cache] Cons.prems by auto
  note eff = prepare_asset_effect [OF a Cons.prems(2,4)]
  have "serves env dir w1 b" if b: "b \<in> set as" for b
  proof -
    have "dir @ [Normal (ia_filename b)] \<notin> writes_of dir [a]" using Cons.prems(5) b by simp
    then have "fs_files (nw_fs w1) (dir @ [Normal (ia_filename b)]) = fs_files (nw_fs w) (dir @ [Normal (ia_filename b)])"
      by (intro eff(2)) (auto simp: writes_of_def tmp_of_child)
    then show ?thesis
      using Cons.prems(1) b eff(1) unfolding serves_def extends_def by (metis list.set_intros(2))
  qed
  then have "\<exists>w'. prepare_assets env dir as cache1 w1 = (Ok (), w')"
    using Cons.IH [of w1 cache1] eff(3) w1 Cons.prems(4,5) by simp
  then show ?case using a by simp
qed simp

lemma prepare_image_live:
  assumes "resolve_image env spec = Ok as" "ie_client env = Ok ()"
    and "ie_os env \<noteq> MacOs \<or> fs_files (nw_fs w) (image_dir env spec cache_dir @ [Normal ''disk.raw'']) \<noteq> None"
    and "\<forall>a \<in> set as. serves env (image_dir env spec cache_dir) w a" "fs_fault (nw_fs w) = (\<lambda>_ _. None)"
    and "\<forall>q \<in> set (prefixes (image_dir env spec cache_dir)). fs_files (nw_fs w) q = None"
    and "\<forall>n. image_dir env spec cache_dir @ [Normal n] \<notin> fs_dirs (nw_fs w)"
  shows "\<exists>img w'. prepare_image env spec cache_dir w = (Ok img, w')"
proof -
  let ?dir = "image_dir env spec cache_dir"
  let ?w1 = "w\<lparr>nw_fs := (nw_fs w)\<lparr>fs_dirs := fs_dirs (nw_fs w) \<union> set (prefixes ?dir)\<rparr>\<rparr>"
  have d: "fs_create_dir_all ?dir (nw_fs w) = (Ok (), nw_fs ?w1)"
    using assms(5,6) by (simp add: fs_create_dir_all_def)
  have "sorted_wrt (\<lambda>a b. ?dir @ [Normal (ia_filename b)] \<notin> writes_of ?dir [a]) as"
  proof -
    have "file_stem ''vmlinuz'' = ''vmlinuz''" "file_stem ''initramfs'' = ''initramfs''" by code_simp+
    then show ?thesis
      using resolve_image_separate(1) [OF assms(1)] by (auto simp: writes_of_def map_eq_Cons_conv)
  qed
  moreover have "writable ?dir (nw_fs ?w1)" using assms(5,7) by (simp add: writable_def)
  moreover have "\<forall>a \<in> set as. serves env ?dir ?w1 a" using assms(4) by (simp add: serves_def)
  ultimately obtain w2 where p: "prepare_assets env ?dir as Map.empty ?w1 = (Ok (), w2)"
    using prepare_assets_live [of as env ?dir ?w1 Map.empty] by (auto simp: cache_ok_def)
  have "\<forall>a \<in> set as. asset_verified env ?dir w2 a"
    using prepare_assets_effect [OF p] resolve_image_separate(2,3) [OF assms(1)] by (simp add: cache_ok_def)
  then have "fs_exists (nw_fs w2) (?dir @ [Normal ''vmlinuz''])" "fs_exists (nw_fs w2) (?dir @ [Normal ''disk.img''])"
    using resolve_image_separate(1) [OF assms(1)] by (auto simp: map_eq_Cons_conv asset_verified_def fs_exists_def)
  moreover have "fs_files (nw_fs w2) (?dir @ [Normal ''disk.raw'']) = fs_files (nw_fs w) (?dir @ [Normal ''disk.raw''])"
    using prepare_assets_effect [OF p] resolve_image_separate(4) [OF assms(1)] by (simp add: cache_ok_def)
  ultimately have "\<exists>img. finish_image env ?dir w2 = (Ok img, w2)"
    using assms(3) by (auto simp: finish_image_def Let_def st_then_def lift_fs_def prepare_disk_def fs_exists_def)
  then show ?thesis using p d assms(1,2) by (auto simp: prepare_image_def Let_def st_then_def lift_fs_def)
qed

text \<open>C24: on a working machine preparation succeeds.  If the catalogue knows the image, the network serves
  its manifests and its assets with matching digests, what is cached matches too, and the cache
  directory can be written, then \<open>prepare_image\<close> returns an image (on macOS, if the disk is converted already, so
  that \<open>qemu-img\<close> is not needed).\<close>

theorem prepare_image_succeeds:
  assumes "resolve_image env spec = Ok as" "ie_client env = Ok ()"
    and "ie_os env \<noteq> MacOs \<or> fs_files (nw_fs w) (image_dir env spec cache_dir @ [Normal ''disk.raw'']) \<noteq> None"
    and "\<forall>a \<in> set as. serves env (image_dir env spec cache_dir) w a" "fs_fault (nw_fs w) = (\<lambda>_ _. None)"
    and "\<forall>q \<in> set (prefixes (image_dir env spec cache_dir)). fs_files (nw_fs w) q = None"
    and "\<forall>n. image_dir env spec cache_dir @ [Normal n] \<notin> fs_dirs (nw_fs w)"
  shows "\<exists>img w'. prepare_image env spec cache_dir w = (Ok img, w')"
  using prepare_image_live [OF assms] .

section \<open>An example\<close>

definition hex64 :: "string \<Rightarrow> string" where
  "hex64 s = replicate (64 - length s) (CHR ''0'') @ s"

text \<open>The checksums of a release whose assets all have the two bytes 7 and 8.\<close>

definition ubuntu_sums :: "sums_entry list" where
  "ubuntu_sums = map (\<lambda>f. \<lparr>se_digest = hex64 ''2'', se_binary = True, se_name = ''ubuntu-24.04-server-cloudimg-amd64'' @ f\<rparr>)
     [''-vmlinuz-generic'', ''-initrd-generic'', ''.img'']"


definition quiet_qemu :: exec where
  "quiet_qemu cmd w = (Ok \<lparr>out_success = True, out_status = ''exit status: 0'', out_stdout = [], out_stderr = []\<rparr>, w)"

definition ubuntu_env :: "target_os \<Rightarrow> image_env" where
  "ubuntu_env os = \<lparr>ie_aarch64 = False, ie_os = os, ie_to_lowercase = to_ascii_lowercase, ie_client = Ok (),
     ie_sha256 = (\<lambda>b. replicate 31 0 @ [of_nat (length b)]), ie_exec = quiet_qemu\<rparr>"

definition ubuntu_spec :: ImageSpec where
  "ubuntu_spec = \<lparr>is_distro = ''ubuntu'', is_version = ''24.04'', is_arch = None\<rparr>"

definition mirror :: "(string \<times> bytes) list \<Rightarrow> net" where
  "mirror cached = \<lparr>nw_get = (\<lambda>_ _. Ok \<lparr>hr_status = 200, hr_status_text = ''200 OK'', hr_www_authenticate = None,
       hr_body = Ok [7, 8], hr_text = Ok (unlines (map sums_line ubuntu_sums))\<rparr>),
     nw_log = [], nw_fs = quiet_fs\<lparr>fs_files :=
       fold (\<lambda>(f, b) m. m(image_dir (ubuntu_env Linux) ubuntu_spec [RootDir, Normal ''c''] @ [Normal f] \<mapsto> b)) cached (\<lambda>_. None)\<rparr>\<rparr>"

abbreviation ubuntu_dir :: path where
  "ubuntu_dir \<equiv> image_dir (ubuntu_env Linux) ubuntu_spec [RootDir, Normal ''c'']"

definition ubuntu_assets :: "ImageAsset list" where
  "ubuntu_assets = (case resolve_ubuntu ''24.04'' X86_64 of Ok as \<Rightarrow> as)"

lemma ubuntu_resolved: "resolve_image (ubuntu_env os) ubuntu_spec = Ok ubuntu_assets"
  "image_dir (ubuntu_env os) ubuntu_spec c = image_dir (ubuntu_env Linux) ubuntu_spec c"
  by (simp_all add: resolve_image_def ubuntu_env_def ubuntu_spec_def ubuntu_assets_def resolve_ubuntu_def Let_def
      to_ascii_lowercase_def to_ascii_lowercase_char_def image_dir_def spec_arch_def arch_host_def)

lemma ubuntu_manifest:
  obtains m where "parse_checksum_manifest (unlines (map sums_line ubuntu_sums)) = Ok m"
    "\<And>a. a \<in> set ubuntu_assets \<Longrightarrow> map_of m (ia_source_filename a) = Some (hex64 ''2'')"
proof -
  have ok: "list_all sums_ok ubuntu_sums" by code_simp
  obtain m where m: "checksum_lines (map sums_line ubuntu_sums) [] = Ok m"
    "map_of m = map_of [] ++ map_of (rev (map (\<lambda>e. (sums_key e, to_ascii_lowercase (se_digest e))) ubuntu_sums))" "m \<noteq> []"
    using checksum_lines_sums [OF ok, of "[]"] by (auto simp: ubuntu_sums_def)
  have "str_lines (unlines (map sums_line ubuntu_sums)) = map sums_line ubuntu_sums"
    using ok sums_line_ok by (intro str_lines_unlines) (auto simp: list_all_iff)
  then have p: "parse_checksum_manifest (unlines (map sums_line ubuntu_sums)) = Ok m"
    using m by (simp add: parse_checksum_manifest_def)
  have "to_ascii_lowercase (hex64 ''2'') = hex64 ''2''" by code_simp
  moreover have "map sums_key ubuntu_sums = map se_name ubuntu_sums" by code_simp
  ultimately have "map_of m (ia_source_filename a) = Some (hex64 ''2'')" if "a \<in> set ubuntu_assets" for a
    using that unfolding m(2) by (auto simp: ubuntu_assets_def resolve_ubuntu_def ubuntu_sums_def Let_def)
  then show thesis using p that by blast
qed

lemma mirror_serves:
  assumes "a \<in> set ubuntu_assets" "fold (\<lambda>(f, b) m. m(ubuntu_dir @ [Normal f] \<mapsto> b)) cached (\<lambda>_. None) (ubuntu_dir @ [Normal (ia_filename a)]) = None"
  shows "serves (ubuntu_env os) ubuntu_dir (mirror cached) a"
proof -
  obtain m where m: "parse_checksum_manifest (unlines (map sums_line ubuntu_sums)) = Ok m"
    "map_of m (ia_source_filename a) = Some (hex64 ''2'')"
    using ubuntu_manifest assms(1) by metis
  have "bytes_hex (replicate 31 0 @ [2]) = hex64 ''2''" by code_simp
  moreover obtain url where "ia_checksum_url a = Some url"
    using assms(1) by (auto simp: ubuntu_assets_def resolve_ubuntu_def Let_def)
  ultimately show ?thesis
    using m assms(2) by (auto simp: serves_def mirror_def ubuntu_env_def is_success_def)
qed

lemma mirror_simps [simp]:
  "ie_client (ubuntu_env os) = Ok ()" "ie_os (ubuntu_env os) = os" "fs_fault (nw_fs (mirror c)) = (\<lambda>_ _. None)"
  "nw_log (mirror c) = []" "fs_dirs (nw_fs (mirror c)) = {}" "qemu_writes_raw (ie_exec (ubuntu_env os))"
  "fs_files (nw_fs (mirror [])) = (\<lambda>_. None)"
  "fs_files (nw_fs (mirror [(f, b)])) = [ubuntu_dir @ [Normal f] \<mapsto> b]"
  by (auto simp: ubuntu_env_def mirror_def quiet_fs_def qemu_writes_raw_def quiet_qemu_def)

theorem prepare_image_succeeds_witness:
  "\<exists>img w'. prepare_image (ubuntu_env Linux) ubuntu_spec [RootDir, Normal ''c''] (mirror []) = (Ok img, w')"
  by (rule prepare_image_succeeds [OF ubuntu_resolved(1)]) (auto simp: mirror_serves)

theorem prepare_image_verified_witness:
  "\<exists>img w'. prepare_image (ubuntu_env Linux) ubuntu_spec [RootDir, Normal ''c''] (mirror []) = (Ok img, w')
     \<and> (\<forall>a \<in> set ubuntu_assets. asset_verified (ubuntu_env Linux) ubuntu_dir w' a)"
proof -
  have "\<exists>img w'. prepare_image (ubuntu_env Linux) ubuntu_spec [RootDir, Normal ''c''] (mirror []) = (Ok img, w')"
    by (rule prepare_image_live [OF ubuntu_resolved(1)]) (auto simp: mirror_serves)
  then obtain img w' where p: "prepare_image (ubuntu_env Linux) ubuntu_spec [RootDir, Normal ''c''] (mirror []) = (Ok img, w')"
    by blast
  from prepare_image_verified [OF p] p show ?thesis by (auto simp: Let_def ubuntu_resolved(1))
qed

theorem raw_disk_taken_on_trust_witness:
  "\<exists>img w'. prepare_image (ubuntu_env MacOs) ubuntu_spec [RootDir, Normal ''c''] (mirror [(''disk.raw'', [66])]) = (Ok img, w')
     \<and> pi_disk img = ubuntu_dir @ [Normal ''disk.raw''] \<and> fs_files (nw_fs w') (ubuntu_dir @ [Normal ''disk.raw'']) = Some [66]"
proof -
  have names: "ia_filename a \<noteq> ''disk.raw''" if "a \<in> set ubuntu_assets" for a
    using that by (auto simp: ubuntu_assets_def resolve_ubuntu_def Let_def)
  have "\<exists>img w'. prepare_image (ubuntu_env MacOs) ubuntu_spec [RootDir, Normal ''c''] (mirror [(''disk.raw'', [66])]) = (Ok img, w')"
    by (rule prepare_image_live [OF ubuntu_resolved(1)]) (auto simp: ubuntu_resolved(2) [of MacOs] mirror_serves names dest: prefix_length_le)
  then obtain img w' where p: "prepare_image (ubuntu_env MacOs) ubuntu_spec [RootDir, Normal ''c''] (mirror [(''disk.raw'', [66])]) = (Ok img, w')"
    by blast
  from raw_disk_taken_on_trust [OF p] p show ?thesis by (simp add: ubuntu_resolved(2) [of MacOs])
qed

theorem corrupt_cache_not_repaired_witness:
  "\<exists>e w'. prepare_image (ubuntu_env Linux) ubuntu_spec [RootDir, Normal ''c''] (mirror [(''vmlinuz'', [66])]) = (Err e, w')
     \<and> fs_files (nw_fs w') (ubuntu_dir @ [Normal ''vmlinuz'']) = Some [66]"
proof -
  obtain k rest where k: "ubuntu_assets = k # rest" by (auto simp: ubuntu_assets_def resolve_ubuntu_def Let_def)
  obtain m where m: "parse_checksum_manifest (unlines (map sums_line ubuntu_sums)) = Ok m"
    "map_of m (ia_source_filename k) = Some (hex64 ''2'')"
    using ubuntu_manifest k by (metis list.set_intros(1))
  have "bytes_hex (replicate 31 0 @ [1]) \<noteq> hex64 ''2''" by code_simp
  then have "never_lists (mirror [(''vmlinuz'', [66])]) (ia_source_filename k) (bytes_hex (ie_sha256 (ubuntu_env Linux) [66]))"
    using m by (auto simp: never_lists_def mirror_def ubuntu_env_def)
  moreover obtain r w' where p: "prepare_image (ubuntu_env Linux) ubuntu_spec [RootDir, Normal ''c''] (mirror [(''vmlinuz'', [66])]) = (r, w')"
    by force
  moreover have "fs_files (nw_fs (mirror [(''vmlinuz'', [66])])) (ubuntu_dir @ [Normal ''vmlinuz'']) = Some [66]" by simp
  ultimately have "\<exists>e. r = Err e \<and> fs_files (nw_fs w') = fs_files (nw_fs (mirror [(''vmlinuz'', [66])]))"
    using corrupt_cache_not_repaired [OF ubuntu_resolved(1) [unfolded k]] by (meson mirror_simps(4))
  then show ?thesis using p by auto
qed

end
