(* ===== verification/Spec2Isabelle.thy ===== *)
theory Spec2Isabelle
  imports Platform Whp_Resources Vz_Configure Switch Seed Disk Bridge Port_Forward Oci_Registry Image
begin

text \<open>
  A verification of \<open>vm-rs\<close>, a library that boots and manages virtual machines on Linux (Cloud
  Hypervisor), macOS (Apple's Virtualization framework) and Windows (the Windows Hypervisor
  Platform), with the parts around it: an in-process Ethernet switch, bridges and TAP devices,
  cloud-init seeds, disk images and an OCI image store.  File names below are relative to the
  repository's \<open>src\<close> directory.

  \<^bold>\<open>How the program is modelled.\<close>  Every function of the source becomes a HOL function of the same
  name where HOL allows it.  A \<open>Result\<close> is the datatype \<open>result\<close>, \<open>?\<close> is \<open>and_then\<close> or, for calls that
  change a state, \<open>st_then\<close>, which keeps the state reached when a call fails; a panic is \<open>None\<close>.
  Machine integers are words, strings are byte strings with Rust's UTF-8 decoding written out,
  paths are lists of components.  What is not in the repository is a parameter: the kernel, the
  hypervisor interfaces, external programs, HTTP, JSON decoding, SHA-256, tar and gzip.  A parameter
  is mostly an oracle that answers the call of number \<open>i\<close> in any way it likes, and the calls made
  are recorded in a log, so that theorems hold for every behaviour of the machine and can speak
  about what was asked of it.  Where a theorem relies on documented behaviour of a parameter, this is
  a named hypothesis (\<open>cp_copies\<close>, \<open>qemu_writes_raw\<close>, the length of a SHA-256 digest).

  \<^bold>\<open>The theories.\<close>
  \<^item> \<^verbatim>\<open>Prelude\<close>: results, sequencing, preservation of state properties (\<open>keeps\<close>), byte slices with
    their bounds checks, little-endian encodings.
  \<^item> \<^verbatim>\<open>Rust_Str\<close>: the string functions of the standard library, UTF-8, numbers.
  \<^item> \<^verbatim>\<open>Host\<close>: \<open>std::path\<close> and \<open>std::fs\<close> on a file system in which any call may fail and a failed write may
    leave anything behind; \<open>fs_replace\<close> is the write, sync and rename that the program uses.
  \<^item> \<^verbatim>\<open>Http\<close>: requests, responses and the log of a computation over the network.
  \<^item> \<^verbatim>\<open>Config\<close> (\<open>config.rs\<close>), \<^verbatim>\<open>Driver\<close> (\<open>driver/mod.rs\<close>): configurations, handles, errors, and the \<open>VmDriver\<close>
    trait as a record of methods with its contract, the locale \<open>vm_driver\<close>.
  \<^item> \<^verbatim>\<open>Manager\<close>, \<^verbatim>\<open>Manager_Conc\<close> (\<open>vm/manager.rs\<close>): every method of \<open>VmManager\<close> over any driver that
    satisfies the contract; the second theory splits \<open>start\<close> at its locks and lets the parts of
    several calls interleave.
  \<^item> \<^verbatim>\<open>Ready\<close> (\<open>driver/ready.rs\<close>): the incremental scanner for the ready marker, refined to the
    reading of the whole log.
  \<^item> \<^verbatim>\<open>Boot\<close> (\<open>driver/boot.rs\<close>): page tables, GDT, kernel, command line, initramfs and memory map in the
    bytes of guest memory.
  \<^item> \<^verbatim>\<open>Linux_Host\<close>, \<^verbatim>\<open>Cloud_Hv\<close> (\<open>driver/cloud_hv.rs\<close>), \<^verbatim>\<open>Whp\<close> (\<open>driver/whp.rs\<close>), \<^verbatim>\<open>Apple_Vz\<close>
    (\<open>driver/apple_vz.rs\<close>): the three drivers, each with its invariant and an interpretation of
    \<open>vm_driver\<close>; \<^verbatim>\<open>Whp_Resources\<close>: what the Windows driver owns, as a ledger read off its calls.
  \<^item> \<^verbatim>\<open>Objc\<close>: Objective-C messages and the ownership of references, read off the record of messages,
    retains and releases; \<^verbatim>\<open>Vz_Objects\<close> (\<open>ffi/apple_vz\<close>): the bindings of the Foundation and
    Virtualization frameworks, with the locales \<open>objc_constructor\<close> and \<open>wrapped_constructor\<close>;
    \<^verbatim>\<open>Vz_Told\<close>: what the framework has been told about each object, read off the same record (a
    partial description, undefined once an object is handed out twice or used as what it is not);
    \<^verbatim>\<open>Vz_Configure\<close>: the part of \<open>boot\<close> in \<open>driver/apple_vz.rs\<close> that builds the configuration object.
  \<^item> \<^verbatim>\<open>Platform\<close> (\<open>vm/platform.rs\<close>): the driver of each operating system behind one interface, and
    \<open>VmManager::new\<close>; \<^verbatim>\<open>Disk\<close> (\<open>vm/disk.rs\<close>): cloning of disks.
  \<^item> \<^verbatim>\<open>Switch\<close> (\<open>network/switch.rs\<close>): ports, MAC learning and aging, and the forwarding loop as a step
    relation interleaved with the calls of other threads; \<^verbatim>\<open>Bridge\<close> (\<open>network/bridge.rs\<close>);
    \<^verbatim>\<open>Sock_Addr\<close>: socket addresses as the standard library parses them; \<^verbatim>\<open>Port_Forward\<close>
    (\<open>network/port_forward.rs\<close>): forwarders, their accept loops and proxies as tasks of a runtime,
    scheduled by a step relation.
  \<^item> \<^verbatim>\<open>Setup\<close> (\<open>setup/mod.rs\<close>, \<open>setup/ssh.rs\<close>), \<^verbatim>\<open>Seed\<close> (\<open>setup/seed.rs\<close>), \<^verbatim>\<open>Image\<close> (\<open>setup/image.rs\<close>).
  \<^item> \<^verbatim>\<open>Oci_Store\<close> (\<open>oci/store.rs\<close>): the content-addressed store with its contract, the locale
    \<open>content_store\<close>, and the extraction of layers; \<^verbatim>\<open>Oci_Registry\<close> (\<open>oci/registry.rs\<close>): references,
    authentication and \<open>pull\<close>, which relies on that contract (locale \<open>blob_client\<close>).

  \<^bold>\<open>What is shown.\<close>
  \<^item> Manager: on every platform, any sequence of calls leaves the table consistent with the names and
    directories of the VMs; outcomes of \<open>start\<close>, \<open>stop\<close> and \<open>wait_all_ready\<close> on every path; at most one
    boot of a name is in flight as long as \<open>state\<close> is not called for it, and two can be if it is.
  \<^item> Guest memory: the page tables map every address to itself, loading a kernel never writes outside
    guest memory and gives the documented layout, and the WHP driver loads exactly that.
  \<^item> Drivers: what is running, registered and cleaned up after \<open>boot\<close>, \<open>stop\<close> and \<open>kill\<close>; a signal to a
    process found by its recorded identity is only sent after that identity was checked; on Windows,
    memory, partitions and threads are never leaked, freed twice or released too early.
  \<^item> Readiness: scanning a growing log piece by piece finds what reading the whole log finds.
  \<^item> Switch: a frame never leaves its network, a learned address gets its frame on its port only.
  \<^item> Port forwarding: the addresses bound and forwarded to are exactly the ones asked for, a connection
    reaches the target of the forwarder that accepted it and nothing else, and a forwarder that has
    stopped accepts nothing more, while the connections it has go on.
  \<^item> Bindings: which references every method takes, returns and drops, and the two places where
    the rule is broken; the messages the driver sends describe the configuration of the VM and change
    no other object.
  \<^item> Seeds and images: quoting is exact, seed files are the documented ones, an image is only
    returned if its files match published checksums, and it is returned if everything works.
  \<^item> OCI: the store stays content-addressed under all failures, a pull stores verified blobs only,
    credentials go to the registry or its token service, extraction stays inside its target as long
    as whiteout entries do.
  Several theorems state defects: they show with concrete inputs what the code does there.

  \<^bold>\<open>Bounds.\<close>  Loops over a deadline are given the number of polls the sleep allows (\<open>polls\<close>), so no
  fuel is chosen; the loop of \<open>wait_all_ready\<close> is bounded by its clock, and a
  theorem gives the exact number of its turns; the threads of the switch and
  of a vCPU are iterated over an arbitrary sequence of events.  Recursion elsewhere is structural or
  has a termination proof.

  \<^bold>\<open>Not modelled.\<close>  The autorelease pools of Objective-C and the blocks handed to dispatch queues
  (a block is a number, its completion an answer of the oracle); the trait of
  \<open>ffi/apple_vz/socket_device.rs\<close>, which nothing implements; module declarations; log messages,
  including the slices of digests made for them; symbolic links and the
  resolution of \<open>..\<close> in paths by the kernel; fairness of the Tokio scheduler.
\<close>

section \<open>The manager over the platform drivers\<close>

lemma with_driver_fresh:
  "with_driver d base w = (Ok m, w') \<Longrightarrow> dinv d \<Longrightarrow> mgr_inv dinv m \<and> mgr_base_dir m = base"
  by (auto simp: with_driver_def mgr_inv_def split: prod.splits result.splits)

lemma base_dir_state [simp]: "mgr_base_dir (snd (mgr_state D n m)) = mgr_base_dir m"
  using mgr_state_frame [of D n m] by (cases "mgr_state D n m") simp

lemma base_dir_drive [simp]: "mgr_base_dir (snd (mgr_drive f h n s m)) = mgr_base_dir m"
  using mgr_drive_frame [of f h n s m] by (cases "mgr_drive f h n s m") simp

lemma base_dir_resume [simp]: "mgr_base_dir (snd (mgr_resume D n m)) = mgr_base_dir m"
  by (auto simp: mgr_resume_def update_cached_state_def split: prod.split result.split option.split)

lemma base_dir_start [simp]: "mgr_base_dir (snd (mgr_start D c m)) = mgr_base_dir m"
  by (auto simp: mgr_start_def mgr_reserve_def mgr_release_def mgr_commit_def boot_reserved_def
      split: prod.split result.split option.split)

lemma base_dir_poll_round [simp]: "mgr_base_dir (snd (poll_round D ns b m)) = mgr_base_dir m"
proof (induction ns arbitrary: b m)
  case (Cons n ns)
  obtain r m' where "mgr_state D n m = (r, m')" by fastforce
  then show ?case
    using Cons.IH base_dir_state [of D n m] by (auto split: result.split VmState.split)
qed simp

lemma base_dir_exec: "mgr_base_dir (mgr_exec D op m) = mgr_base_dir m"
proof (cases op)
  case (OpWaitAllReady iter cost t)
  have "mgr_base_dir (snd (wait_loop D iter cost (1000 * t) 0 0 m)) = mgr_base_dir m"
    by (rule wait_loop_preserves [where P = "\<lambda>m'. mgr_base_dir m' = mgr_base_dir m"]) auto
  then show ?thesis by (simp add: OpWaitAllReady wait_all_ready_def)
next
  case (OpGetIp n)
  then show ?thesis
    by (auto simp: get_ip_def split: prod.split result.split dest: mgr_state_frame)
qed (simp_all add: mgr_stop_def mgr_kill_def stop_by_handle_def kill_by_handle_def mgr_pause_def
      split: result.split)

lemma base_dir_run: "mgr_base_dir (mgr_run D ops m) = mgr_base_dir m"
  unfolding mgr_run_def by (induction ops arbitrary: m) (simp_all add: base_dir_exec)

text \<open>The table of a manager that serves a base directory: every entry is the VM it is filed
  under, and its directory is a direct child of the base directory.\<close>

definition tracked_ok :: "('d \<Rightarrow> bool) \<Rightarrow> path \<Rightarrow> 'd VmManager \<Rightarrow> bool" where
  "tracked_ok dinv base m \<longleftrightarrow> mgr_inv dinv m \<and> mgr_base_dir m = base
     \<and> (\<forall>n h. mgr_vms m n = Some h \<longrightarrow> vm_dir m n = base @ [Normal n])"

context vm_driver
begin

lemma fresh_run_tracked:
  assumes "with_driver d base w = (Ok m, w')" "dinv d" "base \<noteq> []"
  shows "tracked_ok dinv base (mgr_run drv ops m)"
  using with_driver_fresh [of d base w m w' dinv] inv_run [of m ops] assms
    valid_name_dir [of _ "mgr_run drv ops m"]
  by (auto simp: tracked_ok_def base_dir_run mgr_inv_def)

end

text \<open>C6: whatever is called on it, the manager keeps its books.  On every operating system, after
  any sequence of calls on a manager made by \<open>VmManager::new\<close>, every VM of its table is filed under
  its own valid name, its directory is a direct child of the base directory, and the platform's
  driver is still in a consistent state.\<close>

theorem manager_keeps_books:
  assumes "manager_new os ms base w = (Ok m, w')" "base \<noteq> []"
  shows "tracked_ok platform_inv base (mgr_run (platform_driver env) ops m)"
proof -
  obtain d where "create_platform_driver os ms = Ok d" "with_driver d base w = (Ok m, w')"
    using assms(1) by (auto simp: manager_new_def split: result.splits)
  then show ?thesis
    using platform.fresh_run_tracked create_platform_driver_inv assms(2) by blast
qed

text \<open>C38: the reservation of a name can be lost, on every platform.  While the boot of a VM the
  driver does not know yet is in flight, a \<open>state\<close> query gets the answer \<open>Stopped\<close> and writes it over
  the \<open>Starting\<close> mark; a second \<open>start\<close> of the same name passes the check, and two boots of one VM
  are in flight.\<close>

theorem two_boots_in_flight:
  assumes "validate c = Ok ()" "\<not> mgr_poisoned m" "mgr_vms m (cfg_name c) = None"
    and "unknown_to (cfg_name c) (mgr_driver m)"
  shows "\<exists>s1 s2 s3. msys_step (platform_driver env) \<lparr>ms_mgr = m, ms_boots = []\<rparr> (Reserve c) s1
      \<and> msys_step (platform_driver env) s1 (Call (OpState (cfg_name c))) s2
      \<and> msys_step (platform_driver env) s2 (Reserve c) s3 \<and> ms_boots s3 = [c, c]"
  using state_query_loses_reservation [OF unknown_is_stopped [OF assms(4)] assms(1-3)] .

text \<open>A manager on each of the platforms.\<close>

definition test_machines :: machines where
  "test_machines = \<lparr>mac_machine = vz_machine (mac_new Completed),
     linux_machine = ch_host (ch_new ok_kernel), windows_machine = whp_machine whp_new\<rparr>"

definition manager_on :: "string \<Rightarrow> PlatformDriver VmManager" where
  "manager_on os = (case fst (manager_new os test_machines [RootDir, Normal ''vms''] quiet_fs) of Ok m \<Rightarrow> m)"

lemma manager_new_on:
  assumes "os \<in> {''macos'', ''linux'', ''windows''}"
  shows "manager_new os test_machines [RootDir, Normal ''vms''] quiet_fs = (Ok (manager_on os), mgr_fs (manager_on os))"
    and "unknown_to n (mgr_driver (manager_on os))" "mgr_vms (manager_on os) = Map.empty" "\<not> mgr_poisoned (manager_on os)"
  using assms
  by (auto simp: manager_on_def manager_new_def create_platform_driver_def with_driver_def
      fs_create_dir_all_def quiet_fs_def apple_vz_new_def cloud_hv_new_def whp_driver_new_def)

theorem manager_keeps_books_witness:
  "tracked_ok platform_inv [RootDir, Normal ''vms'']
     (mgr_run (platform_driver test_env) [OpStart sample_config, OpState ''vm1''] (manager_on ''windows''))"
  using manager_keeps_books [OF manager_new_on(1)] by simp

theorem two_boots_in_flight_witness:
  "\<exists>s1 s2 s3. msys_step (platform_driver test_env) \<lparr>ms_mgr = manager_on ''linux'', ms_boots = []\<rparr> (Reserve sample_config) s1
      \<and> msys_step (platform_driver test_env) s1 (Call (OpState ''vm1'')) s2
      \<and> msys_step (platform_driver test_env) s2 (Reserve sample_config) s3
      \<and> ms_boots s3 = [sample_config, sample_config]"
  using two_boots_in_flight [of sample_config "manager_on ''linux''" test_env] sample_config_valid
    manager_new_on [of "''linux''"] by simp

end
